theory Spec2Isabelle
  imports Complex_Main
begin

section \<open>Exceptions and loops\<close>

text \<open>
  The Python exceptions that the modelled code (or the torch functions it calls) can raise.
  A computation that may raise returns \<open>error + 'a\<close>, with \<open>Inl\<close> the exception.
\<close>

datatype error =
  AssertionError | ValueError | RuntimeError | ZeroDivisionError | IndexError | TypeError
  | AttributeError

definition ebind :: "error + 'a \<Rightarrow> ('a \<Rightarrow> error + 'b) \<Rightarrow> error + 'b" where
  "ebind m f = (case m of Inl e \<Rightarrow> Inl e | Inr x \<Rightarrow> f x)"

text \<open>A \<^verbatim>\<open>for\<close> loop over a list whose body may raise: the first exception ends the loop.\<close>

fun efold :: "('a \<Rightarrow> 's \<Rightarrow> error + 's) \<Rightarrow> 'a list \<Rightarrow> 's \<Rightarrow> error + 's" where
  "efold f [] s = Inr s"
| "efold f (x # xs) s = ebind (f x s) (efold f xs)"

text \<open>\<^verbatim>\<open>range(n)\<close>: empty when \<open>n \<le> 0\<close>.\<close>

definition py_range :: "int \<Rightarrow> int list" where
  "py_range n = map int [0..<nat n]"

section \<open>Modules of torch.nn\<close>

text \<open>
  The primitive modules of \<^verbatim>\<open>torch.nn\<close> that the repository instantiates, as descriptors of
  their constructor arguments. Learned weights are not part of a descriptor: a weight
  tensor is identified by the place of its module in the module tree (its state-dict
  path), see \<open>sem\<close> below.
\<close>

datatype prim =
    Conv2d int int int int int bool  \<comment> \<open>in, out, kernel_size, stride, padding, bias\<close>
  | GroupNorm int int                \<comment> \<open>num_groups, num_channels\<close>
  | SiLU
  | Dropout real
  | Linear int int                   \<comment> \<open>in_features, out_features\<close>
  | LayerNorm int
  | Identity
  | AvgPool2d int int                \<comment> \<open>kernel_size, stride\<close>
  | AdaptiveAvgPool2d int
  | Flatten

text \<open>
  Constructors of the torch modules. They belong to the torch library, not to the
  repository; the model keeps the checks of theirs that decide whether construction
  succeeds: a tensor cannot be allocated with a negative size (RuntimeError), GroupNorm
  requires \<open>num_channels\<close> to be divisible by \<open>num_groups\<close> (ValueError), and a dropout
  probability lies in \<open>[0, 1]\<close> (ValueError).
\<close>

definition nn_Conv2d :: "int \<Rightarrow> int \<Rightarrow> int \<Rightarrow> int \<Rightarrow> int \<Rightarrow> bool \<Rightarrow> error + prim" where
  "nn_Conv2d i out k stride padding bias =
     (if i < 0 \<or> out < 0 then Inl RuntimeError else Inr (Conv2d i out k stride padding bias))"

definition nn_GroupNorm :: "int \<Rightarrow> int \<Rightarrow> error + prim" where
  "nn_GroupNorm num_groups num_channels =
     (if num_groups = 0 then Inl ZeroDivisionError
      else if num_channels mod num_groups \<noteq> 0 then Inl ValueError
      else if num_channels < 0 then Inl RuntimeError
      else Inr (GroupNorm num_groups num_channels))"

definition nn_Linear :: "int \<Rightarrow> int \<Rightarrow> error + prim" where
  "nn_Linear i out = (if i < 0 \<or> out < 0 then Inl RuntimeError else Inr (Linear i out))"

definition nn_LayerNorm :: "int \<Rightarrow> error + prim" where
  "nn_LayerNorm d = (if d < 0 then Inl RuntimeError else Inr (LayerNorm d))"

definition nn_Dropout :: "real \<Rightarrow> error + prim" where
  "nn_Dropout p = (if p < 0 \<or> 1 < p then Inl ValueError else Inr (Dropout p))"

section \<open>Construction of the blocks\<close>

text \<open>\<^verbatim>\<open>norm_layer\<close>: group normalisation, always with 32 groups.\<close>

definition norm_layer :: "int \<Rightarrow> error + prim" where
  "norm_layer channels = nn_GroupNorm 32 channels"

record ResidualBlock =
  conv1 :: "prim list"
  time_emb :: "prim list"
  conv2 :: "prim list"
  shortcut :: prim

definition ResidualBlock_init :: "int \<Rightarrow> int \<Rightarrow> int \<Rightarrow> real \<Rightarrow> error + ResidualBlock" where
  "ResidualBlock_init in_channels out_channels time_channels dropout =
     ebind (norm_layer in_channels) (\<lambda>n1.
     ebind (nn_Conv2d in_channels out_channels 3 1 1 True) (\<lambda>c1.
     ebind (nn_Linear time_channels out_channels) (\<lambda>l.
     ebind (norm_layer out_channels) (\<lambda>n2.
     ebind (nn_Dropout dropout) (\<lambda>d.
     ebind (nn_Conv2d out_channels out_channels 3 1 1 True) (\<lambda>c2.
     ebind (if in_channels \<noteq> out_channels
            then nn_Conv2d in_channels out_channels 1 1 0 True
            else Inr Identity) (\<lambda>sc.
     Inr \<lparr>conv1 = [n1, SiLU, c1], time_emb = [SiLU, l],
          conv2 = [n2, SiLU, d, c2], shortcut = sc\<rparr>)))))))"

record AttentionBlock =
  ab_num_heads :: int
  ab_norm :: prim
  ab_qkv :: prim
  ab_proj :: prim

text \<open>
  \<^verbatim>\<open>assert channels % num_heads == 0\<close>: Python's \<^verbatim>\<open>%\<close> raises ZeroDivisionError for a
  zero divisor, and agrees with \<open>mod\<close> on \<open>int\<close> otherwise (the sign of the divisor).
\<close>

definition AttentionBlock_init :: "int \<Rightarrow> int \<Rightarrow> error + AttentionBlock" where
  "AttentionBlock_init channels num_heads =
     (if num_heads = 0 then Inl ZeroDivisionError
      else if channels mod num_heads \<noteq> 0 then Inl AssertionError
      else
        ebind (norm_layer channels) (\<lambda>n.
        ebind (nn_Conv2d channels (channels * 3) 1 1 0 False) (\<lambda>qkv.
        ebind (nn_Conv2d channels channels 1 1 0 True) (\<lambda>proj.
        Inr \<lparr>ab_num_heads = num_heads, ab_norm = n, ab_qkv = qkv, ab_proj = proj\<rparr>))))"

record CrossModalAttentionBlock =
  cm_num_heads :: int
  img_norm :: prim
  img_to_q :: prim
  param_norm :: prim
  param_to_kv :: prim
  cm_proj :: prim

definition CrossModalAttentionBlock_init :: "int \<Rightarrow> int \<Rightarrow> int \<Rightarrow> error + CrossModalAttentionBlock" where
  "CrossModalAttentionBlock_init img_channels param_dim num_heads =
     (if num_heads = 0 then Inl ZeroDivisionError
      else if img_channels mod num_heads \<noteq> 0 then Inl AssertionError
      else
        ebind (norm_layer img_channels) (\<lambda>n.
        ebind (nn_Conv2d img_channels img_channels 1 1 0 False) (\<lambda>q.
        ebind (nn_LayerNorm param_dim) (\<lambda>pn.
        ebind (nn_Linear param_dim (img_channels * 2)) (\<lambda>kv.
        ebind (nn_Conv2d img_channels img_channels 1 1 0 True) (\<lambda>proj.
        Inr \<lparr>cm_num_heads = num_heads, img_norm = n, img_to_q = q, param_norm = pn,
             param_to_kv = kv, cm_proj = proj\<rparr>))))))"

record ParameterEncoder =
  pe_time_embed :: "prim list"
  input_proj :: prim
  layers :: "prim list list"
  out_proj :: prim

definition residual_mlp :: "int \<Rightarrow> error + prim list" where
  "residual_mlp hidden_dim =
     ebind (nn_Linear hidden_dim hidden_dim) (\<lambda>l1.
     ebind (nn_Linear hidden_dim hidden_dim) (\<lambda>l2.
     Inr [l1, SiLU, l2]))"

definition ParameterEncoder_init :: "int \<Rightarrow> int \<Rightarrow> int \<Rightarrow> int \<Rightarrow> error + ParameterEncoder" where
  "ParameterEncoder_init param_dim hidden_dim out_dim time_dim =
     ebind (nn_Linear time_dim hidden_dim) (\<lambda>t1.
     ebind (nn_Linear hidden_dim hidden_dim) (\<lambda>t2.
     ebind (nn_Linear param_dim hidden_dim) (\<lambda>ip.
     ebind (efold (\<lambda>_ ls. ebind (residual_mlp hidden_dim) (\<lambda>l. Inr (ls @ [l]))) (py_range 2) []) (\<lambda>ls.
     ebind (nn_Linear hidden_dim out_dim) (\<lambda>op.
     Inr \<lparr>pe_time_embed = [t1, SiLU, t2], input_proj = ip, layers = ls, out_proj = op\<rparr>)))))"

record Upsample =
  up_use_conv :: bool
  up_conv :: "prim option"

definition Upsample_init :: "int \<Rightarrow> bool \<Rightarrow> error + Upsample" where
  "Upsample_init channels use_conv =
     (if use_conv
      then ebind (nn_Conv2d channels channels 3 1 1 True) (\<lambda>c.
           Inr \<lparr>up_use_conv = use_conv, up_conv = Some c\<rparr>)
      else Inr \<lparr>up_use_conv = use_conv, up_conv = None\<rparr>)"

record Downsample =
  down_use_conv :: bool
  op :: prim

definition Downsample_init :: "int \<Rightarrow> bool \<Rightarrow> error + Downsample" where
  "Downsample_init channels use_conv =
     (if use_conv
      then ebind (nn_Conv2d channels channels 3 2 1 True) (\<lambda>c.
           Inr \<lparr>down_use_conv = use_conv, op = c\<rparr>)
      else Inr \<lparr>down_use_conv = use_conv, op = AvgPool2d 2 2\<rparr>)"

text \<open>
  The modules a \<^verbatim>\<open>TimestepEmbedSequential\<close> holds; \<open>Res\<close> is the only \<^verbatim>\<open>TimestepBlock\<close>.
\<close>

datatype layer =
    Plain prim
  | Res ResidualBlock
  | Attn AttentionBlock
  | Cross CrossModalAttentionBlock
  | Up Upsample
  | Down Downsample

type_synonym TimestepEmbedSequential = "layer list"

section \<open>Construction of the networks\<close>

text \<open>
  The constructor arguments of \<^verbatim>\<open>UNet\<close>; \<^verbatim>\<open>UNet_Energy\<close> takes two more. Python integers
  are unbounded: \<open>int\<close>.
\<close>

record config =
  in_channels :: int
  out_channels :: int
  model_channels :: int
  param_dim :: int
  param_hidden_dim :: int
  num_res_blocks :: int
  attention_resolutions :: "int list"
  dropout :: real
  channel_mult :: "int list"
  conv_resample :: bool
  num_heads :: int
  use_cross_attention :: bool

record energy_config = config +
  prop_dim :: int
  prop_hidden_dim :: int

text \<open>
  The variables of \<^verbatim>\<open>__init__\<close> that its loops update: the module list being appended
  to (\<^verbatim>\<open>self.down_blocks\<close>, then \<^verbatim>\<open>self.up_blocks\<close>), and the locals \<^verbatim>\<open>down_block_chans\<close>,
  \<^verbatim>\<open>ch\<close> and \<^verbatim>\<open>ds\<close>.
\<close>

record init_state =
  self_blocks :: "TimestepEmbedSequential list"
  down_block_chans :: "int list"
  ch :: int
  ds :: int

definition time_embed_dim :: "'a config_scheme \<Rightarrow> int" where
  "time_embed_dim cfg = model_channels cfg * 4"

text \<open>
  The attention layers that both loops append after a residual block when the current
  downsampling factor is one of \<^verbatim>\<open>attention_resolutions\<close>.
\<close>

definition attention_layers :: "'a config_scheme \<Rightarrow> int \<Rightarrow> int \<Rightarrow> error + layer list" where
  "attention_layers cfg c d =
     (if d \<in> set (attention_resolutions cfg)
      then ebind (AttentionBlock_init c (num_heads cfg)) (\<lambda>a.
           if use_cross_attention cfg
           then ebind (CrossModalAttentionBlock_init c (param_hidden_dim cfg) (num_heads cfg)) (\<lambda>x.
                Inr [Attn a, Cross x])
           else Inr [Attn a])
      else Inr [])"

text \<open>The body of \<^verbatim>\<open>for _ in range(num_res_blocks)\<close> in the encoder.\<close>

definition down_res_body :: "'a config_scheme \<Rightarrow> int \<Rightarrow> int \<Rightarrow> init_state \<Rightarrow> error + init_state" where
  "down_res_body cfg mult i st =
     ebind (ResidualBlock_init (ch st) (mult * model_channels cfg) (time_embed_dim cfg) (dropout cfg)) (\<lambda>rb.
     ebind (attention_layers cfg (mult * model_channels cfg) (ds st)) (\<lambda>al.
     Inr (st\<lparr>self_blocks := self_blocks st @ [Res rb # al],
             down_block_chans := down_block_chans st @ [mult * model_channels cfg],
             ch := mult * model_channels cfg\<rparr>)))"

text \<open>The body of \<^verbatim>\<open>for level, mult in enumerate(channel_mult)\<close> in the encoder.\<close>

definition down_level_body :: "'a config_scheme \<Rightarrow> nat \<times> int \<Rightarrow> init_state \<Rightarrow> error + init_state" where
  "down_level_body cfg lm st =
     ebind (efold (down_res_body cfg (snd lm)) (py_range (num_res_blocks cfg)) st) (\<lambda>st.
     if int (fst lm) \<noteq> int (length (channel_mult cfg)) - 1
     then ebind (Downsample_init (ch st) (conv_resample cfg)) (\<lambda>d.
          Inr (st\<lparr>self_blocks := self_blocks st @ [[Down d]],
                  down_block_chans := down_block_chans st @ [ch st],
                  ds := ds st * 2\<rparr>))
     else Inr st)"

definition encoder_init :: "'a config_scheme \<Rightarrow> error + init_state" where
  "encoder_init cfg =
     ebind (nn_Conv2d (in_channels cfg) (model_channels cfg) 3 1 1 True) (\<lambda>c0.
     efold (down_level_body cfg) (enumerate 0 (channel_mult cfg))
       \<lparr>self_blocks = [[Plain c0]], down_block_chans = [model_channels cfg],
        ch = model_channels cfg, ds = 1\<rparr>)"

definition middle_init :: "'a config_scheme \<Rightarrow> int \<Rightarrow> error + TimestepEmbedSequential" where
  "middle_init cfg c =
     ebind (ResidualBlock_init c c (time_embed_dim cfg) (dropout cfg)) (\<lambda>r1.
     ebind (AttentionBlock_init c (num_heads cfg)) (\<lambda>a.
     ebind (if use_cross_attention cfg
            then ebind (CrossModalAttentionBlock_init c (param_hidden_dim cfg) (num_heads cfg)) (\<lambda>x.
                 Inr [Cross x])
            else Inr []) (\<lambda>xl.
     ebind (ResidualBlock_init c c (time_embed_dim cfg) (dropout cfg)) (\<lambda>r2.
     Inr ([Res r1, Attn a] @ xl @ [Res r2])))))"

text \<open>
  The body of \<^verbatim>\<open>for i in range(num_res_blocks + 1)\<close> in the decoder. \<^verbatim>\<open>down_block_chans.pop()\<close>
  takes the last element and raises IndexError on an empty list; \<^verbatim>\<open>if level and ...\<close>
  tests \<open>level \<noteq> 0\<close>.
\<close>

definition up_rep_body :: "'a config_scheme \<Rightarrow> nat \<Rightarrow> int \<Rightarrow> int \<Rightarrow> init_state \<Rightarrow> error + init_state" where
  "up_rep_body cfg level mult i st =
     (if down_block_chans st = [] then Inl IndexError
      else
        ebind (ResidualBlock_init (ch st + last (down_block_chans st)) (model_channels cfg * mult)
                 (time_embed_dim cfg) (dropout cfg)) (\<lambda>rb.
        ebind (attention_layers cfg (model_channels cfg * mult) (ds st)) (\<lambda>al.
        if level \<noteq> 0 \<and> i = num_res_blocks cfg
        then ebind (Upsample_init (model_channels cfg * mult) (conv_resample cfg)) (\<lambda>u.
             Inr (st\<lparr>self_blocks := self_blocks st @ [Res rb # al @ [Up u]],
                     down_block_chans := butlast (down_block_chans st),
                     ch := model_channels cfg * mult,
                     ds := ds st div 2\<rparr>))
        else Inr (st\<lparr>self_blocks := self_blocks st @ [Res rb # al],
                     down_block_chans := butlast (down_block_chans st),
                     ch := model_channels cfg * mult\<rparr>))))"

definition up_level_body :: "'a config_scheme \<Rightarrow> nat \<times> int \<Rightarrow> init_state \<Rightarrow> error + init_state" where
  "up_level_body cfg lm st =
     efold (up_rep_body cfg (fst lm) (snd lm)) (py_range (num_res_blocks cfg + 1)) st"

text \<open>
  The decoder loop over \<^verbatim>\<open>list(enumerate(channel_mult))[::-1]\<close>, started from the locals the
  encoder left, with \<^verbatim>\<open>self.up_blocks\<close> empty.
\<close>

definition decoder_init :: "'a config_scheme \<Rightarrow> init_state \<Rightarrow> error + init_state" where
  "decoder_init cfg st =
     efold (up_level_body cfg) (rev (enumerate 0 (channel_mult cfg))) (st\<lparr>self_blocks := []\<rparr>)"

text \<open>
  The modules both networks hold. Of the constructor arguments that \<^verbatim>\<open>__init__\<close> stores,
  only \<^verbatim>\<open>self.model_channels\<close> is read again (by \<^verbatim>\<open>forward\<close>).
\<close>

record Trunk =
  self_model_channels :: int
  time_embed :: "prim list"
  param_encoder :: ParameterEncoder
  down_blocks :: "TimestepEmbedSequential list"
  middle_block :: TimestepEmbedSequential

record UNet = Trunk +
  up_blocks :: "TimestepEmbedSequential list"
  img_out :: "prim list"
  param_out :: prim

record UNet_Energy = Trunk +
  property_predictor :: "prim list"

definition UNet_init :: "config \<Rightarrow> error + UNet" where
  "UNet_init cfg =
     ebind (nn_Linear (model_channels cfg) (time_embed_dim cfg)) (\<lambda>t1.
     ebind (nn_Linear (time_embed_dim cfg) (time_embed_dim cfg)) (\<lambda>t2.
     ebind (ParameterEncoder_init (param_dim cfg) (param_hidden_dim cfg) (param_hidden_dim cfg)
              (time_embed_dim cfg)) (\<lambda>pe.
     ebind (encoder_init cfg) (\<lambda>enc.
     ebind (middle_init cfg (ch enc)) (\<lambda>mid.
     ebind (decoder_init cfg enc) (\<lambda>dec.
     ebind (norm_layer (ch dec)) (\<lambda>n.
     ebind (nn_Conv2d (model_channels cfg) (out_channels cfg) 3 1 1 True) (\<lambda>c.
     ebind (nn_Linear (param_hidden_dim cfg) (param_dim cfg)) (\<lambda>po.
     Inr \<lparr>self_model_channels = model_channels cfg, time_embed = [t1, SiLU, t2],
          param_encoder = pe, down_blocks = self_blocks enc, middle_block = mid,
          up_blocks = self_blocks dec, img_out = [n, SiLU, c], param_out = po\<rparr>)))))))))"

definition UNet_Energy_init :: "energy_config \<Rightarrow> error + UNet_Energy" where
  "UNet_Energy_init cfg =
     ebind (nn_Linear (model_channels cfg) (time_embed_dim cfg)) (\<lambda>t1.
     ebind (nn_Linear (time_embed_dim cfg) (time_embed_dim cfg)) (\<lambda>t2.
     ebind (ParameterEncoder_init (param_dim cfg) (param_hidden_dim cfg) (param_hidden_dim cfg)
              (time_embed_dim cfg)) (\<lambda>pe.
     ebind (encoder_init cfg) (\<lambda>enc.
     ebind (middle_init cfg (ch enc)) (\<lambda>mid.
     ebind (nn_Linear (ch enc) (prop_hidden_dim cfg)) (\<lambda>l1.
     ebind (nn_Linear (prop_hidden_dim cfg) (prop_dim cfg)) (\<lambda>l2.
     Inr \<lparr>self_model_channels = model_channels cfg, time_embed = [t1, SiLU, t2],
          param_encoder = pe, down_blocks = self_blocks enc, middle_block = mid,
          property_predictor = [AdaptiveAvgPool2d 1, Flatten, l1, SiLU, l2]\<rparr>)))))))"

section \<open>Forward passes over an arbitrary tensor semantics\<close>

text \<open>
  The forward passes are written once, over any type \<open>'t\<close> of tensors and any
  interpretation \<open>sem\<close> of the torch operations they call. A primitive module is applied
  through \<open>nn_forward\<close>, which receives the module's place in the module tree (the key
  of its weights in the state dict, and of its random mask for a dropout in training
  mode) together with its descriptor: modules with equal constructor arguments at
  different places may compute different functions. \<open>shape_sem\<close> below is the
  interpretation that keeps only the shape of every tensor.
\<close>

datatype key = Name string | Index nat

type_synonym path = "key list"

datatype einsum_equation =
    bct_bcs_bts  \<comment> \<open>\<^verbatim>\<open>"bct,bcs->bts"\<close>\<close>
  | bts_bcs_bct  \<comment> \<open>\<^verbatim>\<open>"bts,bcs->bct"\<close>\<close>

record 't sem =
  nn_forward :: "path \<Rightarrow> prim \<Rightarrow> 't \<Rightarrow> error + 't"
  t_shape :: "'t \<Rightarrow> int list"                            \<comment> \<open>\<^verbatim>\<open>x.shape\<close>\<close>
  t_add :: "'t \<Rightarrow> 't \<Rightarrow> error + 't"                       \<comment> \<open>\<^verbatim>\<open>a + b\<close>\<close>
  t_iadd :: "'t \<Rightarrow> 't \<Rightarrow> error + 't"                      \<comment> \<open>\<^verbatim>\<open>a += b\<close>\<close>
  t_expand2 :: "'t \<Rightarrow> error + 't"                        \<comment> \<open>\<^verbatim>\<open>a[:, :, None, None]\<close>\<close>
  t_cat :: "'t \<Rightarrow> 't \<Rightarrow> int \<Rightarrow> error + 't"                \<comment> \<open>\<^verbatim>\<open>torch.cat([a, b], dim)\<close>\<close>
  t_reshape :: "'t \<Rightarrow> int list \<Rightarrow> error + 't"
  t_chunk :: "'t \<Rightarrow> int \<Rightarrow> int \<Rightarrow> error + 't list"        \<comment> \<open>\<^verbatim>\<open>a.chunk(chunks, dim)\<close>\<close>
  t_mul :: "'t \<Rightarrow> real \<Rightarrow> error + 't"                     \<comment> \<open>\<^verbatim>\<open>a * scale\<close>\<close>
  t_einsum :: "einsum_equation \<Rightarrow> 't \<Rightarrow> 't \<Rightarrow> error + 't"
  t_softmax :: "'t \<Rightarrow> int \<Rightarrow> error + 't"
  t_unsqueeze :: "'t \<Rightarrow> int \<Rightarrow> error + 't"
  t_interpolate :: "'t \<Rightarrow> int \<Rightarrow> error + 't"             \<comment> \<open>\<^verbatim>\<open>F.interpolate(a, scale_factor, mode="nearest")\<close>\<close>
  t_timestep_embedding :: "'t \<Rightarrow> int \<Rightarrow> error + 't"      \<comment> \<open>\<^verbatim>\<open>timestep_embedding(timesteps, dim)\<close>\<close>

text \<open>\<^verbatim>\<open>nn.Sequential\<close>: the modules in order, module \<open>i\<close> stored under key \<open>i\<close>.\<close>

definition Sequential_forward :: "'t sem \<Rightarrow> path \<Rightarrow> prim list \<Rightarrow> 't \<Rightarrow> error + 't" where
  "Sequential_forward sem p ms x =
     efold (\<lambda>im y. nn_forward sem (p @ [Index (fst im)]) (snd im) y) (enumerate 0 ms) x"

definition ResidualBlock_forward :: "'t sem \<Rightarrow> path \<Rightarrow> ResidualBlock \<Rightarrow> 't \<Rightarrow> 't \<Rightarrow> error + 't" where
  "ResidualBlock_forward sem p rb x t =
     ebind (Sequential_forward sem (p @ [Name ''conv1'']) (conv1 rb) x) (\<lambda>h.
     ebind (Sequential_forward sem (p @ [Name ''time_emb'']) (time_emb rb) t) (\<lambda>te.
     ebind (t_expand2 sem te) (\<lambda>te.
     ebind (t_iadd sem h te) (\<lambda>h.
     ebind (Sequential_forward sem (p @ [Name ''conv2'']) (conv2 rb) h) (\<lambda>h.
     ebind (nn_forward sem (p @ [Name ''shortcut'']) (shortcut rb) x) (\<lambda>sc.
     t_add sem h sc))))))"

text \<open>
  \<^verbatim>\<open>1. / math.sqrt(math.sqrt(C // num_heads))\<close>: \<^verbatim>\<open>//\<close> raises ZeroDivisionError for a zero
  divisor, \<^verbatim>\<open>math.sqrt\<close> raises ValueError below zero, and the float division raises
  ZeroDivisionError at zero.
\<close>

definition floordiv :: "int \<Rightarrow> int \<Rightarrow> error + int" where
  "floordiv a b = (if b = 0 then Inl ZeroDivisionError else Inr (a div b))"

definition attention_scale :: "int \<Rightarrow> int \<Rightarrow> error + real" where
  "attention_scale C nh =
     ebind (floordiv C nh) (\<lambda>d.
     if d < 0 then Inl ValueError
     else if d = 0 then Inl ZeroDivisionError
     else Inr (1 / sqrt (sqrt (real_of_int d))))"

text \<open>
  \<open>sqrt\<close> cannot be evaluated; where a forward pass is evaluated on concrete shapes, the
  value of the scale is left as the reciprocal of \<open>fourth_root\<close> (see
  \<open>attention_scale_code\<close>), which no shape depends on.
\<close>

definition fourth_root :: "int \<Rightarrow> real" where
  "fourth_root d = sqrt (sqrt (real_of_int d))"

definition AttentionBlock_forward :: "'t sem \<Rightarrow> path \<Rightarrow> AttentionBlock \<Rightarrow> 't \<Rightarrow> error + 't" where
  "AttentionBlock_forward sem p ab x =
     (case t_shape sem x of
        [B, C, H, W] \<Rightarrow>
          ebind (nn_forward sem (p @ [Name ''norm'']) (ab_norm ab) x) (\<lambda>xn.
          ebind (nn_forward sem (p @ [Name ''qkv'']) (ab_qkv ab) xn) (\<lambda>qkv.
          ebind (t_reshape sem qkv [B * ab_num_heads ab, - 1, H * W]) (\<lambda>r.
          ebind (t_chunk sem r 3 1) (\<lambda>qkv3.
          (case qkv3 of
             [q, k, v] \<Rightarrow>
               ebind (attention_scale C (ab_num_heads ab)) (\<lambda>scale.
               ebind (t_mul sem q scale) (\<lambda>qs.
               ebind (t_mul sem k scale) (\<lambda>ks.
               ebind (t_einsum sem bct_bcs_bts qs ks) (\<lambda>attn.
               ebind (t_softmax sem attn (- 1)) (\<lambda>attn.
               ebind (t_einsum sem bts_bcs_bct attn v) (\<lambda>h.
               ebind (t_reshape sem h [B, - 1, H, W]) (\<lambda>h.
               ebind (nn_forward sem (p @ [Name ''proj'']) (ab_proj ab) h) (\<lambda>h.
               t_add sem h x))))))))
           | _ \<Rightarrow> Inl ValueError)))))
      | _ \<Rightarrow> Inl ValueError)"

text \<open>
  The attention weights of \<^verbatim>\<open>CrossModalAttentionBlock.forward\<close> (the three lines under
  \<^verbatim>\<open># Cross-attention\<close>), from the queries \<open>q\<close> of shape
  \<open>(B * num_heads, C // num_heads, H * W)\<close> and the keys \<open>k\<close> of shape
  \<open>(B * num_heads, C // num_heads, 1)\<close>: the scale, the \<^verbatim>\<open>einsum\<close> of the scaled queries and
  keys, and \<^verbatim>\<open>softmax(dim=1)\<close>.
\<close>

definition cross_attention_weights :: "'t sem \<Rightarrow> int \<Rightarrow> int \<Rightarrow> 't \<Rightarrow> 't \<Rightarrow> error + 't" where
  "cross_attention_weights sem C nh q k =
     ebind (attention_scale C nh) (\<lambda>scale.
     ebind (t_mul sem q scale) (\<lambda>qs.
     ebind (t_mul sem k scale) (\<lambda>ks.
     ebind (t_einsum sem bct_bcs_bts qs ks) (\<lambda>attn.
     t_softmax sem attn 1))))"

definition CrossModalAttentionBlock_forward ::
  "'t sem \<Rightarrow> path \<Rightarrow> CrossModalAttentionBlock \<Rightarrow> 't \<Rightarrow> 't \<Rightarrow> error + 't" where
  "CrossModalAttentionBlock_forward sem p cm img params =
     (case t_shape sem img of
        [B, C, H, W] \<Rightarrow>
          ebind (nn_forward sem (p @ [Name ''img_norm'']) (img_norm cm) img) (\<lambda>imgn.
          ebind (nn_forward sem (p @ [Name ''img_to_q'']) (img_to_q cm) imgn) (\<lambda>q.
          ebind (floordiv C (cm_num_heads cm)) (\<lambda>Cn.
          ebind (t_reshape sem q [B * cm_num_heads cm, Cn, H * W]) (\<lambda>q.
          ebind (nn_forward sem (p @ [Name ''param_norm'']) (param_norm cm) params) (\<lambda>pn.
          ebind (nn_forward sem (p @ [Name ''param_to_kv'']) (param_to_kv cm) pn) (\<lambda>kv.
          ebind (t_chunk sem kv 2 1) (\<lambda>kv2.
          (case kv2 of
             [k, v] \<Rightarrow>
               ebind (t_unsqueeze sem k (- 1)) (\<lambda>k.
               ebind (t_unsqueeze sem v (- 1)) (\<lambda>v.
               ebind (t_reshape sem k [B * cm_num_heads cm, Cn, 1]) (\<lambda>k.
               ebind (t_reshape sem v [B * cm_num_heads cm, Cn, 1]) (\<lambda>v.
               ebind (cross_attention_weights sem C (cm_num_heads cm) q k) (\<lambda>attn.
               ebind (t_einsum sem bts_bcs_bct attn v) (\<lambda>h.
               ebind (t_reshape sem h [B, C, H, W]) (\<lambda>h.
               ebind (nn_forward sem (p @ [Name ''proj'']) (cm_proj cm) h) (\<lambda>h.
               t_add sem h img))))))))
           | _ \<Rightarrow> Inl ValueError))))))))
      | _ \<Rightarrow> Inl ValueError)"

definition ParameterEncoder_forward :: "'t sem \<Rightarrow> path \<Rightarrow> ParameterEncoder \<Rightarrow> 't \<Rightarrow> 't \<Rightarrow> error + 't" where
  "ParameterEncoder_forward sem p pe params t_emb =
     ebind (nn_forward sem (p @ [Name ''input_proj'']) (input_proj pe) params) (\<lambda>h.
     ebind (Sequential_forward sem (p @ [Name ''time_embed'']) (pe_time_embed pe) t_emb) (\<lambda>te.
     ebind (t_add sem h te) (\<lambda>h.
     ebind (efold (\<lambda>il h.
              ebind (Sequential_forward sem (p @ [Name ''layers'', Index (fst il)]) (snd il) h) (\<lambda>y.
              t_add sem y h))
            (enumerate 0 (layers pe)) h) (\<lambda>h.
     nn_forward sem (p @ [Name ''out_proj'']) (out_proj pe) h))))"

definition Upsample_forward :: "'t sem \<Rightarrow> path \<Rightarrow> Upsample \<Rightarrow> 't \<Rightarrow> error + 't" where
  "Upsample_forward sem p u x =
     ebind (t_interpolate sem x 2) (\<lambda>x.
     if up_use_conv u
     then (case up_conv u of
             Some c \<Rightarrow> nn_forward sem (p @ [Name ''conv'']) c x
           | None \<Rightarrow> Inl AttributeError)
     else Inr x)"

definition Downsample_forward :: "'t sem \<Rightarrow> path \<Rightarrow> Downsample \<Rightarrow> 't \<Rightarrow> error + 't" where
  "Downsample_forward sem p d x = nn_forward sem (p @ [Name ''op'']) (op d) x"

text \<open>
  The dispatch of \<^verbatim>\<open>TimestepEmbedSequential.forward\<close> on one layer: a cross-modal block
  receives the parameter features when they are given, a \<^verbatim>\<open>TimestepBlock\<close> the time
  embedding, every other layer the image alone (which a cross-modal block refuses:
  its \<^verbatim>\<open>forward\<close> takes two arguments).
\<close>

definition layer_forward :: "'t sem \<Rightarrow> path \<Rightarrow> layer \<Rightarrow> 't \<Rightarrow> 't \<Rightarrow> 't option \<Rightarrow> error + 't" where
  "layer_forward sem p l x emb params =
     (case l of
        Cross c \<Rightarrow>
          (case params of
             Some pf \<Rightarrow> CrossModalAttentionBlock_forward sem p c x pf
           | None \<Rightarrow> Inl TypeError)
      | Res r \<Rightarrow> ResidualBlock_forward sem p r x emb
      | Plain m \<Rightarrow> nn_forward sem p m x
      | Attn a \<Rightarrow> AttentionBlock_forward sem p a x
      | Up u \<Rightarrow> Upsample_forward sem p u x
      | Down d \<Rightarrow> Downsample_forward sem p d x)"

definition TimestepEmbedSequential_forward ::
  "'t sem \<Rightarrow> path \<Rightarrow> TimestepEmbedSequential \<Rightarrow> 't \<Rightarrow> 't \<Rightarrow> 't option \<Rightarrow> error + 't" where
  "TimestepEmbedSequential_forward sem p ls x emb params =
     efold (\<lambda>il y. layer_forward sem (p @ [Index (fst il)]) (snd il) y emb params)
       (enumerate 0 ls) x"

text \<open>The local variables of \<^verbatim>\<open>forward\<close>.\<close>

record 't locals =
  var_h :: 't
  var_hs :: "'t list"
  var_emb :: 't
  var_param_features :: 't

text \<open>The body of \<^verbatim>\<open>for module in self.down_blocks\<close>: one \<^verbatim>\<open>hs.append(h)\<close> per module.\<close>

definition down_body :: "'t sem \<Rightarrow> nat \<times> TimestepEmbedSequential \<Rightarrow> 't locals \<Rightarrow> error + 't locals" where
  "down_body sem im st =
     ebind (TimestepEmbedSequential_forward sem [Name ''down_blocks'', Index (fst im)] (snd im)
              (var_h st) (var_emb st) (Some (var_param_features st))) (\<lambda>h.
     Inr (st\<lparr>var_h := h, var_hs := var_hs st @ [h]\<rparr>))"

text \<open>
  What \<^verbatim>\<open>UNet.forward\<close> and \<^verbatim>\<open>UNet_Energy.forward\<close> share, up to and including the middle
  stage: the locals on leaving it.
\<close>

definition trunk_forward :: "'t sem \<Rightarrow> 'a Trunk_scheme \<Rightarrow> 't \<Rightarrow> 't \<Rightarrow> 't \<Rightarrow> error + 't locals" where
  "trunk_forward sem m x params timesteps =
     ebind (t_timestep_embedding sem timesteps (self_model_channels m)) (\<lambda>te.
     ebind (Sequential_forward sem [Name ''time_embed''] (time_embed m) te) (\<lambda>emb.
     ebind (ParameterEncoder_forward sem [Name ''param_encoder''] (param_encoder m) params emb) (\<lambda>pf.
     ebind (efold (down_body sem) (enumerate 0 (down_blocks m))
              \<lparr>var_h = x, var_hs = [], var_emb = emb, var_param_features = pf\<rparr>) (\<lambda>st.
     ebind (TimestepEmbedSequential_forward sem [Name ''middle_block''] (middle_block m)
              (var_h st) (var_emb st) (Some (var_param_features st))) (\<lambda>h.
     Inr (st\<lparr>var_h := h\<rparr>))))))"

text \<open>
  The body of \<^verbatim>\<open>for module in self.up_blocks\<close>: one \<^verbatim>\<open>hs.pop()\<close> per module, which takes the
  last element and raises IndexError on an empty list.
\<close>

definition up_body :: "'t sem \<Rightarrow> nat \<times> TimestepEmbedSequential \<Rightarrow> 't locals \<Rightarrow> error + 't locals" where
  "up_body sem im st =
     (if var_hs st = [] then Inl IndexError
      else
        ebind (t_cat sem (var_h st) (last (var_hs st)) 1) (\<lambda>cat_in.
        ebind (TimestepEmbedSequential_forward sem [Name ''up_blocks'', Index (fst im)] (snd im)
                 cat_in (var_emb st) (Some (var_param_features st))) (\<lambda>h.
        Inr (st\<lparr>var_h := h, var_hs := butlast (var_hs st)\<rparr>))))"

text \<open>The locals of \<^verbatim>\<open>UNet.forward\<close> after the up stage, before the output projections.\<close>

definition UNet_forward_locals :: "'t sem \<Rightarrow> UNet \<Rightarrow> 't \<Rightarrow> 't \<Rightarrow> 't \<Rightarrow> error + 't locals" where
  "UNet_forward_locals sem m x params timesteps =
     ebind (trunk_forward sem m x params timesteps) (\<lambda>st.
     efold (up_body sem) (enumerate 0 (up_blocks m)) st)"

definition UNet_forward :: "'t sem \<Rightarrow> UNet \<Rightarrow> 't \<Rightarrow> 't \<Rightarrow> 't \<Rightarrow> error + 't \<times> 't" where
  "UNet_forward sem m x params timesteps =
     ebind (UNet_forward_locals sem m x params timesteps) (\<lambda>st.
     ebind (Sequential_forward sem [Name ''img_out''] (img_out m) (var_h st)) (\<lambda>io.
     ebind (nn_forward sem [Name ''param_out''] (param_out m) (var_param_features st)) (\<lambda>po.
     Inr (io, po))))"

definition UNet_Energy_forward :: "'t sem \<Rightarrow> UNet_Energy \<Rightarrow> 't \<Rightarrow> 't \<Rightarrow> 't \<Rightarrow> 't \<Rightarrow> error + 't" where
  "UNet_Energy_forward sem m x params prop timesteps =
     ebind (trunk_forward sem m x params timesteps) (\<lambda>st.
     Sequential_forward sem [Name ''property_predictor''] (property_predictor m) (var_h st))"

section \<open>The shape semantics\<close>

text \<open>
  The interpretation in which a tensor is its shape (a list of Python integers). Every
  torch operation is modelled by its shape contract: the shape of the result, and
  RuntimeError (or the exception named) where the shapes of the arguments do not fit.

  \<^verbatim>\<open>F.group_norm\<close>, which \<^verbatim>\<open>nn.GroupNorm.forward\<close> calls, refuses an input of fewer than two
  dimensions and then, before anything else, an input with a single value per group:
  with \<^verbatim>\<open>size_prods = input.size(0) * input.size(1) // num_groups\<close> multiplied by the sizes
  of the remaining dimensions, it raises ValueError (\<^verbatim>\<open>Expected more than 1 value per channel
  when training\<close>) when \<^verbatim>\<open>size_prods == 1\<close>, in training and in evaluation mode alike.
\<close>

definition conv_out :: "int \<Rightarrow> int \<Rightarrow> int \<Rightarrow> int \<Rightarrow> int" where
  "conv_out n k stride padding = (n + 2 * padding - k) div stride + 1"

fun shape_nn :: "prim \<Rightarrow> int list \<Rightarrow> error + int list" where
  "shape_nn (Conv2d i out k stride padding bias) sh =
     (case sh of
        [N, C, H, W] \<Rightarrow>
          if C \<noteq> i \<or> H + 2 * padding < k \<or> W + 2 * padding < k then Inl RuntimeError
          else Inr [N, out, conv_out H k stride padding, conv_out W k stride padding]
      | [C, H, W] \<Rightarrow>
          if C \<noteq> i \<or> H + 2 * padding < k \<or> W + 2 * padding < k then Inl RuntimeError
          else Inr [out, conv_out H k stride padding, conv_out W k stride padding]
      | _ \<Rightarrow> Inl RuntimeError)"
| "shape_nn (GroupNorm g c) sh =
     (case sh of
        N # C # rest \<Rightarrow>
          if g = 0 then Inl ZeroDivisionError
          else if (N * C) div g * prod_list rest = 1 then Inl ValueError
          else if C \<noteq> c then Inl RuntimeError else Inr sh
      | _ \<Rightarrow> Inl RuntimeError)"
| "shape_nn SiLU sh = Inr sh"
| "shape_nn (Dropout p) sh = Inr sh"
| "shape_nn (Linear i out) sh =
     (if sh = [] \<or> last sh \<noteq> i then Inl RuntimeError else Inr (butlast sh @ [out]))"
| "shape_nn (LayerNorm d) sh =
     (if sh = [] \<or> last sh \<noteq> d then Inl RuntimeError else Inr sh)"
| "shape_nn Identity sh = Inr sh"
| "shape_nn (AvgPool2d k stride) sh =
     (case sh of
        [N, C, H, W] \<Rightarrow>
          if H < k \<or> W < k then Inl RuntimeError
          else Inr [N, C, conv_out H k stride 0, conv_out W k stride 0]
      | [C, H, W] \<Rightarrow>
          if H < k \<or> W < k then Inl RuntimeError
          else Inr [C, conv_out H k stride 0, conv_out W k stride 0]
      | _ \<Rightarrow> Inl RuntimeError)"
| "shape_nn (AdaptiveAvgPool2d n) sh =
     (case sh of
        [N, C, H, W] \<Rightarrow> Inr [N, C, n, n]
      | [C, H, W] \<Rightarrow> Inr [C, n, n]
      | _ \<Rightarrow> Inl RuntimeError)"
| "shape_nn Flatten sh =
     (case sh of
        [] \<Rightarrow> Inl IndexError
      | [N] \<Rightarrow> Inl IndexError
      | N # rest \<Rightarrow> Inr [N, prod_list rest])"

text \<open>Broadcasting: the shapes are aligned at their last dimensions.\<close>

fun broadcast_rev :: "int list \<Rightarrow> int list \<Rightarrow> error + int list" where
  "broadcast_rev [] bs = Inr bs"
| "broadcast_rev as [] = Inr as"
| "broadcast_rev (a # as) (b # bs) =
     (if a = b \<or> b = 1 then ebind (broadcast_rev as bs) (\<lambda>r. Inr (a # r))
      else if a = 1 then ebind (broadcast_rev as bs) (\<lambda>r. Inr (b # r))
      else Inl RuntimeError)"

definition broadcast :: "int list \<Rightarrow> int list \<Rightarrow> error + int list" where
  "broadcast a b = ebind (broadcast_rev (rev a) (rev b)) (\<lambda>r. Inr (rev r))"

definition shape_iadd :: "int list \<Rightarrow> int list \<Rightarrow> error + int list" where
  "shape_iadd a b = ebind (broadcast a b) (\<lambda>r. if r = a then Inr a else Inl RuntimeError)"

definition shape_expand2 :: "int list \<Rightarrow> error + int list" where
  "shape_expand2 sh = (case sh of a # b # rest \<Rightarrow> Inr (a # b # 1 # 1 # rest) | _ \<Rightarrow> Inl IndexError)"

text \<open>A dimension argument \<open>axis\<close> of a tensor of rank \<open>r\<close>: negative values count from the end.\<close>

definition norm_dim :: "int \<Rightarrow> nat \<Rightarrow> error + nat" where
  "norm_dim axis r =
     (if - int r \<le> axis \<and> axis < int r then Inr (nat (if axis < 0 then axis + int r else axis))
      else Inl IndexError)"

definition shape_cat :: "int list \<Rightarrow> int list \<Rightarrow> int \<Rightarrow> error + int list" where
  "shape_cat a b axis =
     ebind (norm_dim axis (length a)) (\<lambda>d.
     if length a \<noteq> length b \<or> a[d := 0] \<noteq> b[d := 0] then Inl RuntimeError
     else Inr (a[d := a ! d + b ! d]))"

text \<open>
  \<^verbatim>\<open>reshape\<close>: the target has at most one \<open>-1\<close>, which is inferred from the number of
  elements; the numbers of elements must agree.
\<close>

definition shape_reshape :: "int list \<Rightarrow> int list \<Rightarrow> error + int list" where
  "shape_reshape sh target =
     (let numel = prod_list sh; known = prod_list (filter (\<lambda>d. d \<noteq> - 1) target) in
      if (\<exists>d \<in> set target. d < - 1) \<or> 1 < length (filter (\<lambda>d. d = - 1) target)
      then Inl RuntimeError
      else if - 1 \<in> set target
      then (if known = 0 \<or> numel mod known \<noteq> 0 then Inl RuntimeError
            else Inr (map (\<lambda>d. if d = - 1 then numel div known else d) target))
      else (if known = numel then Inr target else Inl RuntimeError))"

text \<open>
  \<^verbatim>\<open>chunk\<close>: pieces of size \<open>\<lceil>size / chunks\<rceil>\<close> along the axis, the last one smaller when the
  size is not a multiple; there may be fewer than \<open>chunks\<close> pieces.
\<close>

definition shape_chunk :: "int list \<Rightarrow> int \<Rightarrow> int \<Rightarrow> error + int list list" where
  "shape_chunk sh chunks axis =
     ebind (norm_dim axis (length sh)) (\<lambda>d.
     if chunks \<le> 0 then Inl RuntimeError
     else
       let size = sh ! d; split = (size + chunks - 1) div chunks in
       if size = 0 then Inr (replicate (nat chunks) sh)
       else
         let k = (size + split - 1) div split in
         Inr (map (\<lambda>j. sh[d := (if int j = k - 1 then size - split * (k - 1) else split)])
                [0..<nat k]))"

definition bdim :: "int \<Rightarrow> int \<Rightarrow> error + int" where
  "bdim x y = (if x = y \<or> y = 1 then Inr x else if x = 1 then Inr y else Inl RuntimeError)"

fun shape_einsum :: "einsum_equation \<Rightarrow> int list \<Rightarrow> int list \<Rightarrow> error + int list" where
  "shape_einsum bct_bcs_bts x y =
     (case (x, y) of
        ([b1, c1, t], [b2, c2, s]) \<Rightarrow>
          ebind (bdim b1 b2) (\<lambda>b. ebind (bdim c1 c2) (\<lambda>c. Inr [b, t, s]))
      | _ \<Rightarrow> Inl RuntimeError)"
| "shape_einsum bts_bcs_bct x y =
     (case (x, y) of
        ([b1, t, s1], [b2, c, s2]) \<Rightarrow>
          ebind (bdim b1 b2) (\<lambda>b. ebind (bdim s1 s2) (\<lambda>s. Inr [b, c, t]))
      | _ \<Rightarrow> Inl RuntimeError)"

definition shape_softmax :: "int list \<Rightarrow> int \<Rightarrow> error + int list" where
  "shape_softmax sh axis = ebind (norm_dim axis (length sh)) (\<lambda>d. Inr sh)"

definition shape_unsqueeze :: "int list \<Rightarrow> int \<Rightarrow> error + int list" where
  "shape_unsqueeze sh axis =
     ebind (norm_dim axis (length sh + 1)) (\<lambda>d. Inr (take d sh @ [1] @ drop d sh))"

definition shape_interpolate :: "int list \<Rightarrow> int \<Rightarrow> error + int list" where
  "shape_interpolate sh scale_factor =
     (case sh of
        N # C # spatial \<Rightarrow>
          if spatial = [] \<or> 3 < length spatial then Inl ValueError
          else Inr (N # C # map (\<lambda>d. d * scale_factor) spatial)
      | _ \<Rightarrow> Inl ValueError)"

text \<open>
  The shape of \<^verbatim>\<open>timestep_embedding(timesteps, dim)\<close> for one-dimensional \<^verbatim>\<open>timesteps\<close> (what
  its docstring requires; other ranks are refused here): \<open>2 * half\<close> columns, and for an
  odd \<open>dim\<close> the columns of \<^verbatim>\<open>embedding[:, :1]\<close> more, of which there is one unless the
  embedding has no column at all (see \<open>timestep_embedding\<close> below).
\<close>

definition shape_timestep_embedding :: "int list \<Rightarrow> int \<Rightarrow> error + int list" where
  "shape_timestep_embedding sh dm =
     (case sh of
        [N] \<Rightarrow>
          let half = dm div 2 in
          if half < 0 then Inl RuntimeError
          else Inr [N, if dm mod 2 \<noteq> 0 then 2 * half + min 1 (2 * half) else 2 * half]
      | _ \<Rightarrow> Inl RuntimeError)"

definition shape_sem :: "(int list) sem" where
  "shape_sem =
     \<lparr>nn_forward = (\<lambda>p. shape_nn),
      t_shape = (\<lambda>sh. sh),
      t_add = broadcast,
      t_iadd = shape_iadd,
      t_expand2 = shape_expand2,
      t_cat = shape_cat,
      t_reshape = shape_reshape,
      t_chunk = shape_chunk,
      t_mul = (\<lambda>sh scale. Inr sh),
      t_einsum = shape_einsum,
      t_softmax = shape_softmax,
      t_unsqueeze = shape_unsqueeze,
      t_interpolate = shape_interpolate,
      t_timestep_embedding = shape_timestep_embedding\<rparr>"

section \<open>Observations used in the properties\<close>

text \<open>Whether a decoder stage holds an \<^verbatim>\<open>Upsample\<close>.\<close>

fun is_Upsample :: "layer \<Rightarrow> bool" where
  "is_Upsample (Up u) = True"
| "is_Upsample l = False"

definition has_Upsample :: "TimestepEmbedSequential \<Rightarrow> bool" where
  "has_Upsample block = list_ex is_Upsample block"

text \<open>
  For one decoder stage \<open>(level, mult)\<close>, which of its \<^verbatim>\<open>num_res_blocks + 1\<close> repeats end with
  an \<^verbatim>\<open>Upsample\<close>.
\<close>

definition stage_flags :: "'a config_scheme \<Rightarrow> nat \<times> int \<Rightarrow> bool list" where
  "stage_flags cfg lm =
     map (\<lambda>i. fst lm \<noteq> 0 \<and> i = num_res_blocks cfg) (py_range (num_res_blocks cfg + 1))"

text \<open>
  The concrete scenario of the specification: \<^verbatim>\<open>model_channels=32\<close>, \<^verbatim>\<open>channel_mult=(1,2)\<close>,
  \<^verbatim>\<open>num_res_blocks=1\<close>, \<^verbatim>\<open>attention_resolutions={2}\<close>, \<^verbatim>\<open>num_heads=2\<close>, one input and one output
  channel, \<^verbatim>\<open>param_dim=4\<close>, \<^verbatim>\<open>param_hidden_dim=16\<close>, and the defaults otherwise.
\<close>

definition cfg_scenario :: config where
  "cfg_scenario =
     \<lparr>in_channels = 1, out_channels = 1, model_channels = 32, param_dim = 4,
      param_hidden_dim = 16, num_res_blocks = 1, attention_resolutions = [2], dropout = 0.1,
      channel_mult = [1, 2], conv_resample = True, num_heads = 2, use_cross_attention = True\<rparr>"

definition energy_scenario :: energy_config where
  "energy_scenario = config.extend cfg_scenario \<lparr>prop_dim = 1, prop_hidden_dim = 128\<rparr>"

text \<open>
  Locals of a decoder loop at the coarsest level of the scenario (\<^verbatim>\<open>ch = 64\<close>, \<^verbatim>\<open>ds = 2\<close>), with
  one channel count left on \<^verbatim>\<open>down_block_chans\<close> and no block appended yet.
\<close>

definition st_scenario :: init_state where
  "st_scenario = \<lparr>self_blocks = [], down_block_chans = [32], ch = 64, ds = 2\<rparr>"

text \<open>
  The shapes that a run of the networks goes through, for a batch of \<open>N\<close> images of
  height \<open>H\<close> and width \<open>W\<close>: the size at level \<open>l\<close> (after \<open>l\<close> downsamplings), the
  channels with which the encoder enters and leaves level \<open>l\<close>, and the skip stack after
  the encoder has pushed the outputs of the levels below \<open>l\<close>.
\<close>

definition at_level :: "int \<Rightarrow> nat \<Rightarrow> int" where
  "at_level H l = H div 2 ^ l"

definition chan_after :: "'a config_scheme \<Rightarrow> nat \<Rightarrow> int" where
  "chan_after cfg l =
     (if num_res_blocks cfg \<le> 0 then model_channels cfg
      else channel_mult cfg ! l * model_channels cfg)"

definition chan_before :: "'a config_scheme \<Rightarrow> nat \<Rightarrow> int" where
  "chan_before cfg l = (case l of 0 \<Rightarrow> model_channels cfg | Suc k \<Rightarrow> chan_after cfg k)"

definition entry_shape :: "'a config_scheme \<Rightarrow> int \<Rightarrow> int \<Rightarrow> int \<Rightarrow> nat \<Rightarrow> int list" where
  "entry_shape cfg N H W l = [N, chan_before cfg l, at_level H l, at_level W l]"

definition level_shape :: "'a config_scheme \<Rightarrow> int \<Rightarrow> int \<Rightarrow> int \<Rightarrow> nat \<Rightarrow> int list" where
  "level_shape cfg N H W l = [N, chan_after cfg l, at_level H l, at_level W l]"

fun skips_upto :: "'a config_scheme \<Rightarrow> int \<Rightarrow> int \<Rightarrow> int \<Rightarrow> nat \<Rightarrow> int list list" where
  "skips_upto cfg N H W 0 = []"
| "skips_upto cfg N H W (Suc l) =
     skips_upto cfg N H W l @
     entry_shape cfg N H W l # replicate (nat (num_res_blocks cfg)) (level_shape cfg N H W l)"

text \<open>
  The smallest number of channels of a tensor that is normalised at the coarsest level
  (the last of \<^verbatim>\<open>channel_mult\<close>): \<^verbatim>\<open>model_channels\<close>, which the middle stage normalises, when
  the encoder has no residual block; otherwise the smaller of the channels that enter
  the level and of those that its residual blocks produce.
\<close>

definition coarsest_channels :: "'a config_scheme \<Rightarrow> int" where
  "coarsest_channels cfg =
     (let L = length (channel_mult cfg) in
      if L = 0 \<or> num_res_blocks cfg \<le> 0 then model_channels cfg
      else min (chan_before cfg (L - 1)) (channel_mult cfg ! (L - 1) * model_channels cfg))"

text \<open>
  The inputs for which the shape theorems are stated: positive sizes, a positive number
  of heads, positive channel multipliers, no negative \<^verbatim>\<open>num_res_blocks\<close>, a height and a
  width divisible by \<open>2\<close> to the number of downsample stages, and more than one value
  per normalisation group in the smallest tensor that is normalised: the batch size,
  times \<open>coarsest_channels // 32\<close>, times the height and the width at the coarsest level,
  exceeds 1.
\<close>

definition valid_run :: "'a config_scheme \<Rightarrow> int \<Rightarrow> int \<Rightarrow> int \<Rightarrow> bool" where
  "valid_run cfg N H W \<longleftrightarrow>
     0 < N \<and> 0 < H \<and> 0 < W \<and> 0 < num_heads cfg \<and> 0 < model_channels cfg \<and>
     0 \<le> num_res_blocks cfg \<and> list_all (\<lambda>m. 0 < m) (channel_mult cfg) \<and>
     2 ^ (length (channel_mult cfg) - 1) dvd H \<and> 2 ^ (length (channel_mult cfg) - 1) dvd W \<and>
     1 < N * (coarsest_channels cfg div 32) *
           (at_level H (length (channel_mult cfg) - 1) * at_level W (length (channel_mult cfg) - 1))"

text \<open>The locals of \<^verbatim>\<open>forward\<close> in the shape semantics, for a batch of \<open>N\<close>.\<close>

definition shape_locals :: "'a config_scheme \<Rightarrow> int \<Rightarrow> int list \<Rightarrow> int list list \<Rightarrow> int list locals" where
  "shape_locals cfg N h hs =
     \<lparr>var_h = h, var_hs = hs, var_emb = [N, time_embed_dim cfg],
      var_param_features = [N, param_hidden_dim cfg]\<rparr>"

text \<open>
  The encoder under construction, with what the blocks built so far do to the image \<open>x\<close>:
  the locals of \<^verbatim>\<open>__init__\<close> agree with the shapes that the down stage of \<^verbatim>\<open>forward\<close> reaches.
\<close>

definition enc_at ::
  "'a config_scheme \<Rightarrow> int \<Rightarrow> int list \<Rightarrow> init_state \<Rightarrow> int \<Rightarrow> int \<Rightarrow> int list \<Rightarrow> int list list \<Rightarrow> bool" where
  "enc_at cfg N x st c d h hs \<longleftrightarrow>
     ch st = c \<and> ds st = d \<and> down_block_chans st = map (\<lambda>s. s ! 1) hs \<and>
     efold (down_body shape_sem) (enumerate 0 (self_blocks st)) (shape_locals cfg N x [])
       = Inr (shape_locals cfg N h hs)"

text \<open>The same for the decoder, run from the locals \<open>s0\<close> that the middle stage leaves.\<close>

definition dec_at ::
  "'a config_scheme \<Rightarrow> int \<Rightarrow> int list locals \<Rightarrow> init_state \<Rightarrow> int \<Rightarrow> int \<Rightarrow> int list \<Rightarrow> int list list \<Rightarrow> bool" where
  "dec_at cfg N s0 st c d h hs \<longleftrightarrow>
     ch st = c \<and> ds st = d \<and> down_block_chans st = map (\<lambda>s. s ! 1) hs \<and>
     efold (up_body shape_sem) (enumerate 0 (self_blocks st)) s0 = Inr (shape_locals cfg N h hs)"

text \<open>What the encoder and the middle stage leave: the feature map and the skip stack.\<close>

definition bottom_shape :: "'a config_scheme \<Rightarrow> int \<Rightarrow> int \<Rightarrow> int \<Rightarrow> int list" where
  "bottom_shape cfg N H W =
     (if channel_mult cfg = [] then [N, model_channels cfg, H, W]
      else level_shape cfg N H W (length (channel_mult cfg) - 1))"

definition enc_skips :: "'a config_scheme \<Rightarrow> int \<Rightarrow> int \<Rightarrow> int \<Rightarrow> int list list" where
  "enc_skips cfg N H W =
     (if channel_mult cfg = [] then [[N, model_channels cfg, H, W]]
      else skips_upto cfg N H W (length (channel_mult cfg)))"

text \<open>
  The channels of the feature map that the decoder hands to the image output head:
  those of its last stage, level 0 (or of the middle stage, when there is no stage).
\<close>

definition final_channels :: "'a config_scheme \<Rightarrow> int" where
  "final_channels cfg =
     (if channel_mult cfg = [] then model_channels cfg
      else model_channels cfg * channel_mult cfg ! 0)"

text \<open>
  Configurations of positive sizes; and inputs of positive sizes that the downsample
  stages divide and that leave more than one value per normalisation group. Together
  they give \<open>valid_run\<close>.
\<close>

definition valid_config :: "'a config_scheme \<Rightarrow> bool" where
  "valid_config cfg \<longleftrightarrow>
     0 < in_channels cfg \<and> 0 < out_channels cfg \<and> 0 < model_channels cfg \<and>
     0 < param_dim cfg \<and> 0 < param_hidden_dim cfg \<and> 0 \<le> num_res_blocks cfg \<and>
     0 < num_heads cfg \<and> list_all (\<lambda>m. 0 < m) (channel_mult cfg)"

definition valid_input :: "'a config_scheme \<Rightarrow> int \<Rightarrow> int \<Rightarrow> int \<Rightarrow> bool" where
  "valid_input cfg N H W \<longleftrightarrow>
     0 < N \<and> 0 < H \<and> 0 < W \<and>
     2 ^ (length (channel_mult cfg) - 1) dvd H \<and> 2 ^ (length (channel_mult cfg) - 1) dvd W \<and>
     1 < N * (coarsest_channels cfg div 32) *
           (at_level H (length (channel_mult cfg) - 1) * at_level W (length (channel_mult cfg) - 1))"

text \<open>
  The statements of \<^verbatim>\<open>UNet.forward\<close> that compute \<^verbatim>\<open>param_out\<close>, in their order: the time
  embedding, the parameter encoder and the parameter head.
\<close>

definition param_path :: "'t sem \<Rightarrow> UNet \<Rightarrow> 't \<Rightarrow> 't \<Rightarrow> error + 't" where
  "param_path sem m params timesteps =
     ebind (t_timestep_embedding sem timesteps (self_model_channels m)) (\<lambda>te.
     ebind (Sequential_forward sem [Name ''time_embed''] (time_embed m) te) (\<lambda>emb.
     ebind (ParameterEncoder_forward sem [Name ''param_encoder''] (param_encoder m) params emb) (\<lambda>pf.
     nn_forward sem [Name ''param_out''] (param_out m) pf)))"

text \<open>
  The up stage as the specification words it: decoder stage \<open>i\<close> concatenates the current
  feature map with the skip tensor it is given and runs its block; the stages, in order,
  are given the skip tensors in the reverse of the order in which they were pushed.
\<close>

definition up_stage ::
  "'t sem \<Rightarrow> 't \<Rightarrow> 't \<Rightarrow> (nat \<times> TimestepEmbedSequential) \<times> 't \<Rightarrow> 't \<Rightarrow> error + 't" where
  "up_stage sem emb pf ims h =
     ebind (t_cat sem h (snd ims) 1) (\<lambda>cat_in.
     TimestepEmbedSequential_forward sem [Name ''up_blocks'', Index (fst (fst ims))] (snd (fst ims))
       cat_in emb (Some pf))"

definition up_stages_lifo ::
  "'t sem \<Rightarrow> 't \<Rightarrow> 't \<Rightarrow> TimestepEmbedSequential list \<Rightarrow> 't list \<Rightarrow> 't \<Rightarrow> error + 't" where
  "up_stages_lifo sem emb pf blocks pushed h =
     efold (up_stage sem emb pf) (zip (enumerate 0 blocks) (rev pushed)) h"

text \<open>
  Further configurations: a first multiplier other than 1 (with two stages, and with
  one), and no stage at all.
\<close>

definition cfg_wide :: config where
  "cfg_wide = cfg_scenario\<lparr>channel_mult := [2, 2]\<rparr>"

definition cfg_narrow :: config where
  "cfg_narrow = cfg_scenario\<lparr>channel_mult := [2]\<rparr>"

definition cfg_flat :: config where
  "cfg_flat = cfg_scenario\<lparr>channel_mult := []\<rparr>"

text \<open>
  The layers that the constructors of the repository build, and the tensors with a
  batch of \<open>N\<close> as their first of four dimensions.
\<close>

fun built :: "layer \<Rightarrow> bool" where
  "built (Plain m) = (\<exists>i out k s p b. m = Conv2d i out k s p b)"
| "built (Res rb) = (\<exists>i out t p. ResidualBlock_init i out t p = Inr rb)"
| "built (Attn ab) = (\<exists>c nh. AttentionBlock_init c nh = Inr ab)"
| "built (Cross cm) = (\<exists>c pd nh. CrossModalAttentionBlock_init c pd nh = Inr cm)"
| "built (Up u) = (\<exists>c cr. Upsample_init c cr = Inr u)"
| "built (Down d) = (\<exists>c cr. Downsample_init c cr = Inr d)"

definition batch_of :: "int \<Rightarrow> int list \<Rightarrow> bool" where
  "batch_of N sh \<longleftrightarrow> (\<exists>c h w. sh = [N, c, h, w])"

section \<open>The real-valued functions\<close>

text \<open>
  Where a property is about the numbers computed, float32 arithmetic is idealised as real
  arithmetic. \<^verbatim>\<open>timestep_embedding(timesteps, dim, max_period)\<close>, for a one-dimensional
  tensor \<^verbatim>\<open>timesteps\<close> (a list) and a result of one row per timestep: \<^verbatim>\<open>math.log\<close> raises
  ValueError unless \<^verbatim>\<open>max_period\<close> is positive, \<^verbatim>\<open>torch.arange(start=0, end=half)\<close> raises
  RuntimeError for a negative \<^verbatim>\<open>half\<close>, and \<^verbatim>\<open>embedding[:, :1]\<close> is the first column of the
  embedding where it has one, and has no column where the embedding has none.
\<close>

definition timestep_embedding :: "real list \<Rightarrow> int \<Rightarrow> real \<Rightarrow> error + real list list" where
  "timestep_embedding timesteps dm max_period =
     (let half = dm div 2 in
      if max_period \<le> 0 then Inl ValueError
      else if half < 0 then Inl RuntimeError
      else
        let freqs = map (\<lambda>i. exp (- ln max_period * real i / real_of_int half)) [0..<nat half];
            args = map (\<lambda>t. map (\<lambda>f. t * f) freqs) timesteps;
            embedding = map (\<lambda>r. map cos r @ map sin r) args
        in if dm mod 2 \<noteq> 0
           then Inr (map (\<lambda>r. r @ map (\<lambda>v. 0) (take 1 r)) embedding)
           else Inr embedding)"

text \<open>
  A tensor of reals: its shape and its entries by index (read only at the indices
  within the shape).
\<close>

record rtensor =
  rshape :: "int list"
  rat :: "nat list \<Rightarrow> real"

text \<open>\<^verbatim>\<open>a * scale\<close>.\<close>

definition real_mul :: "rtensor \<Rightarrow> real \<Rightarrow> error + rtensor" where
  "real_mul a scale = Inr (a\<lparr>rat := (\<lambda>i. rat a i * scale)\<rparr>)"

text \<open>
  \<^verbatim>\<open>torch.einsum\<close>: \<^verbatim>\<open>"bct,bcs->bts"\<close> sums \<open>x[b,c,t] * y[b,c,s]\<close> over \<open>c\<close>, and
  \<^verbatim>\<open>"bts,bcs->bct"\<close> sums \<open>x[b,t,s] * y[b,c,s]\<close> over \<open>s\<close>. The shapes and the errors are those
  of \<open>shape_einsum\<close>; a dimension of size 1 is broadcast, that is, read at index 0.
\<close>

definition bidx :: "int \<Rightarrow> nat \<Rightarrow> nat" where
  "bidx n i = (if n = 1 then 0 else i)"

fun real_einsum :: "einsum_equation \<Rightarrow> rtensor \<Rightarrow> rtensor \<Rightarrow> error + rtensor" where
  "real_einsum bct_bcs_bts x y =
     (case (rshape x, rshape y) of
        ([b1, c1, t], [b2, c2, s]) \<Rightarrow>
          ebind (bdim b1 b2) (\<lambda>b. ebind (bdim c1 c2) (\<lambda>c.
          Inr \<lparr>rshape = [b, t, s],
               rat = (\<lambda>i. case i of
                  [bi, ti, si] \<Rightarrow>
                    (\<Sum>ci<nat c. rat x [bidx b1 bi, bidx c1 ci, ti] * rat y [bidx b2 bi, bidx c2 ci, si])
                | _ \<Rightarrow> 0)\<rparr>))
      | _ \<Rightarrow> Inl RuntimeError)"
| "real_einsum bts_bcs_bct x y =
     (case (rshape x, rshape y) of
        ([b1, t, s1], [b2, c, s2]) \<Rightarrow>
          ebind (bdim b1 b2) (\<lambda>b. ebind (bdim s1 s2) (\<lambda>s.
          Inr \<lparr>rshape = [b, c, t],
               rat = (\<lambda>i. case i of
                  [bi, ci, ti] \<Rightarrow>
                    (\<Sum>si<nat s. rat x [bidx b1 bi, ti, bidx s1 si] * rat y [bidx b2 bi, ci, bidx s2 si])
                | _ \<Rightarrow> 0)\<rparr>))
      | _ \<Rightarrow> Inl RuntimeError)"

text \<open>
  \<^verbatim>\<open>a.softmax(dim=axis)\<close>: the exponential of every entry, divided by the sum of the
  exponentials of the entries that differ from it in the index along the axis only.
\<close>

definition real_softmax :: "rtensor \<Rightarrow> int \<Rightarrow> error + rtensor" where
  "real_softmax a axis =
     ebind (norm_dim axis (length (rshape a))) (\<lambda>d.
     Inr (a\<lparr>rat := (\<lambda>i. exp (rat a i) / (\<Sum>j<nat (rshape a ! d). exp (rat a (i[d := j]))))\<rparr>))"

text \<open>
  \<^verbatim>\<open>a.reshape(target)\<close>: the shape by \<open>shape_reshape\<close>, the entries in the same row-major
  order (\<open>ravel\<close> is the position of an index in that order, \<open>unravel\<close> the index at a
  position).
\<close>

definition ravel :: "int list \<Rightarrow> nat list \<Rightarrow> nat" where
  "ravel sh i = foldl (\<lambda>a nj. a * nat (fst nj) + snd nj) 0 (zip sh i)"

fun unravel :: "int list \<Rightarrow> nat \<Rightarrow> nat list" where
  "unravel [] n = []"
| "unravel (d # rest) n = (n div nat (prod_list rest)) # unravel rest (n mod nat (prod_list rest))"

definition real_reshape :: "rtensor \<Rightarrow> int list \<Rightarrow> error + rtensor" where
  "real_reshape a target =
     ebind (shape_reshape (rshape a) target) (\<lambda>sh.
     Inr \<lparr>rshape = sh, rat = (\<lambda>i. rat a (unravel (rshape a) (ravel sh i)))\<rparr>)"

text \<open>
  A tensor semantics over real tensors in which the operations of the attention
  (\<^verbatim>\<open>.shape\<close>, \<^verbatim>\<open>reshape\<close>, the product with the scale, \<^verbatim>\<open>einsum\<close> and \<^verbatim>\<open>softmax\<close>) are the ones
  above; the learned layers and the other operations are those of \<open>base\<close>, which is
  arbitrary.
\<close>

definition real_sem :: "rtensor sem \<Rightarrow> rtensor sem" where
  "real_sem base =
     base\<lparr>t_shape := rshape, t_reshape := real_reshape, t_mul := real_mul,
          t_einsum := real_einsum, t_softmax := real_softmax\<rparr>"

text \<open>
  The attention logit between the query at spatial position \<open>t\<close> and the single key,
  for sample and head \<open>b\<close>: the sum over the channels of the head of the product of the
  scaled query and the scaled key.
\<close>

definition attention_logit :: "rtensor \<Rightarrow> rtensor \<Rightarrow> real \<Rightarrow> nat \<Rightarrow> nat \<Rightarrow> real" where
  "attention_logit q k scale b t =
     (\<Sum>c<nat (rshape q ! 1). (rat q [b, c, t] * scale) * (rat k [b, c, 0] * scale))"

text \<open>
  Stand-ins for the layers and operations that \<open>real_sem\<close> leaves open, to run a block
  on a concrete input: each returns the tensor of the shape that \<open>shape_sem\<close> computes,
  with the sum of the index as the entry at an index.
\<close>

definition ramp :: "int list \<Rightarrow> rtensor" where
  "ramp sh = \<lparr>rshape = sh, rat = (\<lambda>i. real (sum_list i))\<rparr>"

definition ramp_sem :: "rtensor sem" where
  "ramp_sem =
     \<lparr>nn_forward = (\<lambda>p m x. ebind (shape_nn m (rshape x)) (\<lambda>sh. Inr (ramp sh))),
      t_shape = rshape,
      t_add = (\<lambda>a b. ebind (broadcast (rshape a) (rshape b)) (\<lambda>sh. Inr (ramp sh))),
      t_iadd = (\<lambda>a b. ebind (shape_iadd (rshape a) (rshape b)) (\<lambda>sh. Inr (ramp sh))),
      t_expand2 = (\<lambda>a. ebind (shape_expand2 (rshape a)) (\<lambda>sh. Inr (ramp sh))),
      t_cat = (\<lambda>a b d. ebind (shape_cat (rshape a) (rshape b) d) (\<lambda>sh. Inr (ramp sh))),
      t_reshape = (\<lambda>a t. ebind (shape_reshape (rshape a) t) (\<lambda>sh. Inr (ramp sh))),
      t_chunk = (\<lambda>a n d. ebind (shape_chunk (rshape a) n d) (\<lambda>shs. Inr (map ramp shs))),
      t_mul = (\<lambda>a r. Inr a),
      t_einsum = (\<lambda>eq a b. ebind (shape_einsum eq (rshape a) (rshape b)) (\<lambda>sh. Inr (ramp sh))),
      t_softmax = (\<lambda>a d. ebind (shape_softmax (rshape a) d) (\<lambda>sh. Inr (ramp sh))),
      t_unsqueeze = (\<lambda>a d. ebind (shape_unsqueeze (rshape a) d) (\<lambda>sh. Inr (ramp sh))),
      t_interpolate = (\<lambda>a f. ebind (shape_interpolate (rshape a) f) (\<lambda>sh. Inr (ramp sh))),
      t_timestep_embedding = (\<lambda>a d. ebind (shape_timestep_embedding (rshape a) d) (\<lambda>sh. Inr (ramp sh)))\<rparr>"

section \<open>Properties\<close>

subsection \<open>Exceptions, loops and constructors\<close>

lemma ebind_Inr [simp]: "ebind (Inr x) f = f x"
  by (simp add: ebind_def)

lemma ebind_Inl [simp]: "ebind (Inl e) f = Inl e"
  by (simp add: ebind_def)

lemma ebind_eq_Inr: "ebind m f = Inr y \<longleftrightarrow> (\<exists>x. m = Inr x \<and> f x = Inr y)"
  by (cases m) simp_all

lemma case_two_eq_Inr:
  "(case xs of [a, b] \<Rightarrow> f a b | _ \<Rightarrow> Inl e) = Inr y \<longleftrightarrow> (\<exists>a b. xs = [a, b] \<and> f a b = Inr y)"
  by (auto split: list.splits)

lemma case_three_eq_Inr:
  "(case xs of [a, b, c] \<Rightarrow> f a b c | _ \<Rightarrow> Inl e) = Inr y \<longleftrightarrow>
     (\<exists>a b c. xs = [a, b, c] \<and> f a b c = Inr y)"
  by (auto split: list.splits)

declare fourth_root_def [code del]

lemma attention_scale_code [code]:
  "attention_scale C nh =
     ebind (floordiv C nh) (\<lambda>d.
     if d < 0 then Inl ValueError
     else if d = 0 then Inl ZeroDivisionError
     else Inr (1 / fourth_root d))"
  unfolding attention_scale_def fourth_root_def by (rule refl)

lemma efold_append: "efold f (xs @ ys) s = ebind (efold f xs s) (efold f ys)"
proof (induction xs arbitrary: s)
  case Nil
  show ?case by simp
next
  case (Cons x xs)
  show ?case
    by (cases "f x s") (simp_all add: Cons.IH)
qed

lemma norm_layer_eq_Inr: "norm_layer c = Inr n \<longleftrightarrow> c mod 32 = 0 \<and> 0 \<le> c \<and> n = GroupNorm 32 c"
  by (auto simp: norm_layer_def nn_GroupNorm_def)

lemma nn_Conv2d_eq_Inr:
  "nn_Conv2d i out k s p b = Inr c \<longleftrightarrow> 0 \<le> i \<and> 0 \<le> out \<and> c = Conv2d i out k s p b"
  by (auto simp: nn_Conv2d_def)

lemma nn_Linear_eq_Inr: "nn_Linear i out = Inr l \<longleftrightarrow> 0 \<le> i \<and> 0 \<le> out \<and> l = Linear i out"
  by (auto simp: nn_Linear_def)

lemma nn_LayerNorm_eq_Inr: "nn_LayerNorm d = Inr l \<longleftrightarrow> 0 \<le> d \<and> l = LayerNorm d"
  by (auto simp: nn_LayerNorm_def)

lemma nn_Dropout_eq_Inr: "nn_Dropout p = Inr d \<longleftrightarrow> 0 \<le> p \<and> p \<le> 1 \<and> d = Dropout p"
  by (auto simp: nn_Dropout_def)

lemmas nn_eq_Inr = norm_layer_eq_Inr nn_Conv2d_eq_Inr nn_Linear_eq_Inr nn_LayerNorm_eq_Inr
  nn_Dropout_eq_Inr

lemma AttentionBlock_init_eq_Inr:
  "AttentionBlock_init c nh = Inr ab \<longleftrightarrow>
     nh \<noteq> 0 \<and> c mod nh = 0 \<and> c mod 32 = 0 \<and> 0 \<le> c \<and>
     ab = \<lparr>ab_num_heads = nh, ab_norm = GroupNorm 32 c, ab_qkv = Conv2d c (c * 3) 1 1 0 False,
           ab_proj = Conv2d c c 1 1 0 True\<rparr>"
  by (auto simp: AttentionBlock_init_def ebind_eq_Inr nn_eq_Inr)

lemma CrossModalAttentionBlock_init_eq_Inr:
  "CrossModalAttentionBlock_init c pd nh = Inr cm \<longleftrightarrow>
     nh \<noteq> 0 \<and> c mod nh = 0 \<and> c mod 32 = 0 \<and> 0 \<le> c \<and> 0 \<le> pd \<and>
     cm = \<lparr>cm_num_heads = nh, img_norm = GroupNorm 32 c, img_to_q = Conv2d c c 1 1 0 False,
           param_norm = LayerNorm pd, param_to_kv = Linear pd (c * 2),
           cm_proj = Conv2d c c 1 1 0 True\<rparr>"
  by (auto simp: CrossModalAttentionBlock_init_def ebind_eq_Inr nn_eq_Inr)

lemma ResidualBlock_init_eq_Inr:
  "ResidualBlock_init i out t p = Inr rb \<longleftrightarrow>
     i mod 32 = 0 \<and> 0 \<le> i \<and> out mod 32 = 0 \<and> 0 \<le> out \<and> 0 \<le> t \<and> 0 \<le> p \<and> p \<le> 1 \<and>
     rb = \<lparr>conv1 = [GroupNorm 32 i, SiLU, Conv2d i out 3 1 1 True], time_emb = [SiLU, Linear t out],
           conv2 = [GroupNorm 32 out, SiLU, Dropout p, Conv2d out out 3 1 1 True],
           shortcut = (if i \<noteq> out then Conv2d i out 1 1 0 True else Identity)\<rparr>"
  by (auto simp: ResidualBlock_init_def ebind_eq_Inr nn_eq_Inr)

subsection \<open>Channels that reach a group normalisation\<close>

lemma down_res_body_ch:
  assumes "down_res_body cfg mult i st = Inr st'"
  shows "ch st mod 32 = 0"
  using assms by (auto simp: down_res_body_def ebind_eq_Inr ResidualBlock_init_eq_Inr)

lemma efold_down_res_body_ch:
  "efold (down_res_body cfg mult) is st = Inr st' \<Longrightarrow> ch st' = ch st \<or> ch st mod 32 = 0"
proof (induction "is" arbitrary: st)
  case Nil
  then show ?case by simp
next
  case (Cons i "is")
  then show ?case by (auto simp: ebind_eq_Inr dest: down_res_body_ch)
qed

lemma down_level_body_ch:
  assumes "down_level_body cfg lm st = Inr st'"
  shows "ch st' = ch st \<or> ch st mod 32 = 0"
  using assms
  by (auto simp: down_level_body_def ebind_eq_Inr split: if_splits dest: efold_down_res_body_ch)

lemma efold_down_level_body_ch:
  "efold (down_level_body cfg) lms st = Inr st' \<Longrightarrow> ch st' = ch st \<or> ch st mod 32 = 0"
proof (induction lms arbitrary: st)
  case Nil
  then show ?case by simp
next
  case (Cons lm lms)
  from Cons.prems obtain st1 where 1: "down_level_body cfg lm st = Inr st1"
    and 2: "efold (down_level_body cfg) lms st1 = Inr st'"
    by (auto simp: ebind_eq_Inr)
  from down_level_body_ch[OF 1] Cons.IH[OF 2] show ?case by auto
qed

lemma encoder_init_ch:
  assumes "encoder_init cfg = Inr enc"
  shows "ch enc = model_channels cfg \<or> model_channels cfg mod 32 = 0"
  using assms
  by (auto simp: encoder_init_def ebind_eq_Inr dest!: efold_down_level_body_ch)

lemma middle_init_ch:
  assumes "middle_init cfg c = Inr mid"
  shows "c mod 32 = 0"
  using assms by (auto simp: middle_init_def ebind_eq_Inr ResidualBlock_init_eq_Inr)

lemma encoder_middle_model_channels:
  assumes "encoder_init cfg = Inr enc" and "middle_init cfg (ch enc) = Inr mid"
  shows "32 dvd model_channels cfg"
  using encoder_init_ch[OF assms(1)] middle_init_ch[OF assms(2)] by (auto simp: dvd_eq_mod_eq_0)

lemma isr_UNet_init_scenario: "\<exists>m. UNet_init cfg_scenario = Inr m"
proof -
  have "\<not> isl (UNet_init cfg_scenario)" by code_simp
  then show ?thesis by (cases "UNet_init cfg_scenario") auto
qed

lemma isr_UNet_Energy_init_scenario: "\<exists>m. UNet_Energy_init energy_scenario = Inr m"
proof -
  have "\<not> isl (UNet_Energy_init energy_scenario)" by code_simp
  then show ?thesis by (cases "UNet_Energy_init energy_scenario") auto
qed

subsection \<open>Where the decoder upsamples\<close>

lemma attention_layers_no_Upsample:
  "attention_layers cfg c d = Inr al \<Longrightarrow> \<not> list_ex is_Upsample al"
  by (auto simp: attention_layers_def ebind_eq_Inr split: if_splits)

lemma up_rep_body_step:
  assumes "up_rep_body cfg level mult i st = Inr st'"
  shows "(\<exists>block. self_blocks st' = self_blocks st @ [block] \<and>
            has_Upsample block = (level \<noteq> 0 \<and> i = num_res_blocks cfg)) \<and>
         ds st' = (if level \<noteq> 0 \<and> i = num_res_blocks cfg then ds st div 2 else ds st)"
proof (cases "level \<noteq> 0 \<and> i = num_res_blocks cfg")
  case True
  with assms show ?thesis
    by (auto simp: up_rep_body_def ebind_eq_Inr has_Upsample_def split: if_split_asm)
next
  case False
  with assms obtain rb al where "attention_layers cfg (model_channels cfg * mult) (ds st) = Inr al"
    and "st' = st\<lparr>self_blocks := self_blocks st @ [Res rb # al],
                   down_block_chans := butlast (down_block_chans st),
                   ch := model_channels cfg * mult\<rparr>"
    by (auto simp: up_rep_body_def ebind_eq_Inr split: if_split_asm)
  with False attention_layers_no_Upsample[of cfg _ _ al] show ?thesis
    by (auto simp: has_Upsample_def)
qed

lemma efold_up_rep_body_flags:
  "efold (up_rep_body cfg level mult) is st = Inr st' \<Longrightarrow>
   map has_Upsample (self_blocks st') =
     map has_Upsample (self_blocks st) @ map (\<lambda>i. level \<noteq> 0 \<and> i = num_res_blocks cfg) is"
proof (induction "is" arbitrary: st)
  case Nil
  then show ?case by simp
next
  case (Cons i "is")
  from Cons.prems obtain st1 where 1: "up_rep_body cfg level mult i st = Inr st1"
    and 2: "efold (up_rep_body cfg level mult) is st1 = Inr st'"
    by (auto simp: ebind_eq_Inr)
  from up_rep_body_step[OF 1] Cons.IH[OF 2] show ?case by auto
qed

lemma efold_up_level_body_flags:
  "efold (up_level_body cfg) lms st = Inr st' \<Longrightarrow>
   map has_Upsample (self_blocks st') =
     map has_Upsample (self_blocks st) @ concat (map (stage_flags cfg) lms)"
proof (induction lms arbitrary: st)
  case Nil
  then show ?case by simp
next
  case (Cons lm lms)
  from Cons.prems obtain st1 where 1: "up_level_body cfg lm st = Inr st1"
    and 2: "efold (up_level_body cfg) lms st1 = Inr st'"
    by (auto simp: ebind_eq_Inr)
  from 1 have "map has_Upsample (self_blocks st1) =
      map has_Upsample (self_blocks st) @ stage_flags cfg lm"
    by (simp add: up_level_body_def stage_flags_def efold_up_rep_body_flags)
  with Cons.IH[OF 2] show ?case by simp
qed

lemma nth_concat_uniform:
  "\<forall>xs \<in> set xss. length xs = n \<Longrightarrow> j < length xss \<Longrightarrow> i < n \<Longrightarrow>
   concat xss ! (j * n + i) = xss ! j ! i"
proof (induction xss arbitrary: j)
  case Nil
  then show ?case by simp
next
  case (Cons xs xss)
  show ?case
  proof (cases j)
    case 0
    with Cons.prems show ?thesis by (simp add: nth_append)
  next
    case (Suc k)
    with Cons.prems have "concat xss ! (k * n + i) = xss ! k ! i"
      by (intro Cons.IH) auto
    with Suc Cons.prems show ?thesis by (simp add: nth_append)
  qed
qed

lemma length_concat_uniform:
  "\<forall>xs \<in> set xss. length xs = n \<Longrightarrow> length (concat xss) = length xss * n"
  by (induction xss) auto

lemma length_stage_flags: "length (stage_flags cfg lm) = nat (num_res_blocks cfg + 1)"
  by (simp add: stage_flags_def py_range_def)

lemma rev_enumerate_nth:
  "j < length xs \<Longrightarrow> rev (enumerate 0 xs) ! j = (length xs - 1 - j, xs ! (length xs - 1 - j))"
  by (simp add: rev_nth nth_enumerate_eq)

lemma decoder_flags:
  assumes "decoder_init cfg st = Inr dec"
  shows "map has_Upsample (self_blocks dec) =
           concat (map (stage_flags cfg) (rev (enumerate 0 (channel_mult cfg))))"
  using efold_up_level_body_flags[OF assms[unfolded decoder_init_def]] by simp

subsection \<open>Shapes of the primitive operations\<close>

lemma shape_sem_simps [simp]:
  "nn_forward shape_sem p = shape_nn"
  "t_shape shape_sem sh = sh"
  "t_add shape_sem = broadcast"
  "t_iadd shape_sem = shape_iadd"
  "t_expand2 shape_sem = shape_expand2"
  "t_cat shape_sem = shape_cat"
  "t_reshape shape_sem = shape_reshape"
  "t_chunk shape_sem = shape_chunk"
  "t_mul shape_sem sh r = Inr sh"
  "t_einsum shape_sem = shape_einsum"
  "t_softmax shape_sem = shape_softmax"
  "t_unsqueeze shape_sem = shape_unsqueeze"
  "t_interpolate shape_sem = shape_interpolate"
  "t_timestep_embedding shape_sem = shape_timestep_embedding"
  by (simp_all add: shape_sem_def)

lemma efold_enumerate_snd: "efold (\<lambda>il. f (snd il)) (enumerate n xs) s = efold f xs s"
  by (induction xs arbitrary: n s) (simp_all add: ebind_def split: sum.splits)

lemma Sequential_forward_shape [simp]:
  "Sequential_forward shape_sem p ms x = efold shape_nn ms x"
  by (simp add: Sequential_forward_def efold_enumerate_snd)

lemma broadcast_rev_same: "broadcast_rev xs xs = Inr xs"
  by (induction xs) simp_all

lemma broadcast_same [simp]: "broadcast a a = Inr a"
  by (simp add: broadcast_def broadcast_rev_same)

lemma conv_out_same [simp]: "conv_out n 3 1 1 = n" "conv_out n 1 1 0 = n"
  by (simp_all add: conv_out_def)

lemma conv_out_half: "even n \<Longrightarrow> conv_out n 3 2 1 = n div 2"
  by (auto simp: conv_out_def elim!: evenE)

lemma pool_out_half [simp]: "conv_out n 2 2 0 = n div 2"
  by (simp add: conv_out_def)

lemma several_values:
  assumes big: "1 < N * (m div 32) * (h0 * w0)"
    and pos: "0 < (N::int)" "0 < h0" "0 < w0"
    and le: "m \<le> c" "h0 \<le> H" "w0 \<le> W"
  shows "N * c div 32 * (H * W) \<noteq> 1"
proof -
  have hw0: "0 < h0 * w0" by (simp add: pos)
  have a: "0 < m div 32"
  proof (rule ccontr)
    assume "\<not> 0 < m div 32"
    then have "N * (m div 32) \<le> 0" using pos(1) by (simp add: mult_le_0_iff)
    then have "N * (m div 32) * (h0 * w0) \<le> 0" using hw0 by (simp add: mult_le_0_iff)
    with big show False by simp
  qed
  have "m div 32 \<le> c div 32" using le(1) by (rule zdiv_mono1) simp
  then have 1: "N * (m div 32) \<le> N * (c div 32)" using pos(1) by simp
  have "32 * (N * (c div 32)) = N * (32 * (c div 32))" by simp
  also have "\<dots> \<le> N * c" using pos(1) by (intro mult_left_mono) simp_all
  finally have "32 * (N * (c div 32)) div 32 \<le> N * c div 32" by (rule zdiv_mono1) simp
  then have 2: "N * (c div 32) \<le> N * c div 32" by simp
  have hw: "h0 * w0 \<le> H * W" using pos le by (intro mult_mono) simp_all
  have nn: "0 \<le> N * (m div 32)" using pos(1) a by simp
  have "N * (m div 32) * (h0 * w0) \<le> N * c div 32 * (H * W)"
  proof (rule mult_mono)
    show "N * (m div 32) \<le> N * c div 32" using 1 2 by simp
    show "h0 * w0 \<le> H * W" by (rule hw)
    show "0 \<le> N * c div 32" using 1 2 nn by simp
    show "0 \<le> h0 * w0" using hw0 by simp
  qed
  with big show ?thesis by simp
qed

lemma ResidualBlock_forward_shape:
  assumes "ResidualBlock_init i out t p = Inr rb" and "0 < H" and "0 < W"
    and "N * i div 32 * (H * W) \<noteq> 1" and "N * out div 32 * (H * W) \<noteq> 1"
  shows "ResidualBlock_forward shape_sem pth rb [N, i, H, W] [N, t] = Inr [N, out, H, W]"
proof -
  from assms(1) have rb: "conv1 rb = [GroupNorm 32 i, SiLU, Conv2d i out 3 1 1 True]"
    "time_emb rb = [SiLU, Linear t out]"
    "conv2 rb = [GroupNorm 32 out, SiLU, Dropout p, Conv2d out out 3 1 1 True]"
    "shortcut rb = (if i \<noteq> out then Conv2d i out 1 1 0 True else Identity)"
    by (simp_all add: ResidualBlock_init_eq_Inr)
  have 1: "efold shape_nn (conv1 rb) [N, i, H, W] = Inr [N, out, H, W]"
    using assms(2,3,4) by (simp add: rb)
  have 2: "efold shape_nn (time_emb rb) [N, t] = Inr [N, out]"
    by (simp add: rb)
  have 3: "shape_expand2 [N, out] = Inr [N, out, 1, 1]"
    by (simp add: shape_expand2_def)
  have 4: "shape_iadd [N, out, H, W] [N, out, 1, 1] = Inr [N, out, H, W]"
    by (simp add: shape_iadd_def broadcast_def)
  have 5: "efold shape_nn (conv2 rb) [N, out, H, W] = Inr [N, out, H, W]"
    using assms(2,3,5) by (simp add: rb)
  have 6: "shape_nn (shortcut rb) [N, i, H, W] = Inr [N, out, H, W]"
    using assms(2,3) by (simp add: rb)
  show ?thesis
    by (simp add: ResidualBlock_forward_def 1 2 3 4 5 6)
qed

lemma prod_list4: "prod_list [a, b, c, d] = a * b * c * (d::int)"
  by simp

lemma reshape_infer1:
  assumes "0 < a" and "0 < c" and "a * b * c = prod_list sh" and "b \<noteq> - 1" 
  shows "shape_reshape sh [a, - 1, c] = Inr [a, b, c]"
proof -
  have ac: "a * c \<noteq> 0" using assms by simp
  have "prod_list sh = (a * c) * b" using assms(3) by (simp add: ac_simps)
  then have "prod_list sh mod (a * c) = 0" "prod_list sh div (a * c) = b"
    using ac by simp_all
  with assms(1,2) ac show ?thesis
    by (simp add: shape_reshape_def Let_def)
qed

lemma reshape_infer4:
  assumes "0 < a" and "0 < c" and "0 < d" and "a * b * c * d = prod_list sh"
  shows "shape_reshape sh [a, - 1, c, d] = Inr [a, b, c, d]"
proof -
  have ac: "a * (c * d) \<noteq> 0" using assms by simp
  have "prod_list sh = (a * (c * d)) * b" using assms(4) by (simp add: ac_simps)
  then have "prod_list sh mod (a * (c * d)) = 0" "prod_list sh div (a * (c * d)) = b"
    using ac by simp_all
  with assms(1,2,3) ac show ?thesis
    by (simp add: shape_reshape_def Let_def)
qed

lemma reshape_exact:
  assumes "\<forall>d \<in> set target. 0 \<le> d" and "prod_list target = prod_list sh"
  shows "shape_reshape sh target = Inr target"
proof -
  have "filter (\<lambda>d. d \<noteq> - 1) target = target" "filter (\<lambda>d. d = - 1) target = []"
    using assms(1) by (auto simp: filter_id_conv filter_empty_conv)
  moreover have "- 1 \<notin> set target" "\<not> (\<exists>d \<in> set target. d < - 1)"
    using assms(1) by auto
  ultimately show ?thesis
    using assms(2) by (simp add: shape_reshape_def Let_def del: One_nat_def)
qed

lemma div_ceil_aux:
  assumes "0 < (q::int)"
  shows "(k * q + q - 1) div q = k"
proof -
  have e: "k * q + q - 1 = (q - 1) + q * k" by (simp add: ac_simps)
  have "((q - 1) + q * k) div q = k + (q - 1) div q"
    using assms by simp
  moreover have "(q - 1) div q = 0"
    using assms by (simp add: div_pos_pos_trivial)
  ultimately show ?thesis unfolding e by simp
qed

lemma chunk_even:
  assumes q: "0 < q" and n: "0 < n" and d: "d < length sh" and size: "sh ! d = n * q"
  shows "shape_chunk sh n (int d) = Inr (replicate (nat n) (sh[d := q]))"
proof -
  have nd: "norm_dim (int d) (length sh) = Inr d"
    using d by (simp add: norm_dim_def)
  have split: "(n * q + n - 1) div n = q"
    using div_ceil_aux[OF n, of q] by (simp add: ac_simps)
  have k: "(n * q + q - 1) div q = n"
    by (rule div_ceil_aux[OF q])
  have last: "n * q - q * (n - 1) = q"
    by (simp add: algebra_simps)
  have nz: "n * q \<noteq> 0" using q n by simp
  have "shape_chunk sh n (int d) =
      Inr (map (\<lambda>j. sh[d := (if int j = n - 1 then n * q - q * (n - 1) else q)]) [0..<nat n])"
    unfolding shape_chunk_def nd ebind_Inr Let_def size split k
    using n nz by simp
  also have "\<dots> = Inr (replicate (nat n) (sh[d := q]))"
    unfolding last by (simp add: map_replicate_const)
  finally show ?thesis .
qed

lemma chunk3:
  assumes "0 < q"
  shows "shape_chunk [a, 3 * q, c] 3 1 = Inr [[a, q, c], [a, q, c], [a, q, c]]"
  using chunk_even[OF assms, of 3 1 "[a, 3 * q, c]"] by (simp add: numeral_3_eq_3)

lemma chunk2:
  assumes "0 < q"
  shows "shape_chunk [a, 2 * q] 2 1 = Inr [[a, q], [a, q]]"
  using chunk_even[OF assms, of 2 1 "[a, 2 * q]"] by (simp add: numeral_2_eq_2)

subsection \<open>Shapes through the attention blocks\<close>

lemma bdim_same [simp]: "bdim x x = Inr x"
  by (simp add: bdim_def)

lemma attention_scale_pos:
  assumes "0 < nh" and "0 < C" and "C mod nh = 0"
  shows "\<exists>s. attention_scale C nh = Inr s"
proof -
  from assms have "C = nh * (C div nh)" by auto
  with assms have "0 < C div nh"
    by (metis zero_less_mult_pos)
  with assms(1) show ?thesis
    by (simp add: attention_scale_def floordiv_def)
qed

lemma heads_quotient:
  assumes "0 < (nh::int)" and "0 < (C::int)" and "C mod nh = 0"
  shows "nh * (C div nh) = C" and "0 < C div nh"
proof -
  from assms show 1: "nh * (C div nh) = C"
    by (simp add: mod_eq_0_iff_dvd)
  with assms show "0 < C div nh"
    by (metis zero_less_mult_pos)
qed

lemma AttentionBlock_forward_shape:
  assumes ab: "AttentionBlock_init C nh = Inr ab"
    and pos: "0 < nh" "0 < B" "0 < C" "0 < H" "0 < W"
    and sv: "B * C div 32 * (H * W) \<noteq> 1"
  shows "AttentionBlock_forward shape_sem pth ab [B, C, H, W] = Inr [B, C, H, W]"
proof -
  define q where "q = C div nh"
  from ab have abf: "ab_num_heads ab = nh" "ab_norm ab = GroupNorm 32 C"
    "ab_qkv ab = Conv2d C (C * 3) 1 1 0 False" "ab_proj ab = Conv2d C C 1 1 0 True"
    and dv: "C mod nh = 0"
    by (simp_all add: AttentionBlock_init_eq_Inr)
  from heads_quotient[OF pos(1,3) dv] have q: "nh * q = C" "0 < q"
    by (simp_all add: q_def)
  have hw: "0 < H * W" using pos by simp
  have bn: "0 < B * nh" using pos by simp
  have 1: "shape_nn (ab_norm ab) [B, C, H, W] = Inr [B, C, H, W]"
    using sv by (simp add: abf)
  have 2: "shape_nn (ab_qkv ab) [B, C, H, W] = Inr [B, C * 3, H, W]"
    using pos by (simp add: abf)
  have 3: "shape_reshape [B, C * 3, H, W] [B * ab_num_heads ab, - 1, H * W] = Inr [B * nh, 3 * q, H * W]"
    unfolding abf
  proof (rule reshape_infer1[OF bn hw])
    show "B * nh * (3 * q) * (H * W) = prod_list [B, C * 3, H, W]"
      using q(1) by (simp add: algebra_simps)
    show "3 * q \<noteq> - 1" using q(2) by simp
  qed
  have 4: "shape_chunk [B * nh, 3 * q, H * W] 3 1 =
      Inr [[B * nh, q, H * W], [B * nh, q, H * W], [B * nh, q, H * W]]"
    by (rule chunk3[OF q(2)])
  obtain s where 5: "attention_scale C (ab_num_heads ab) = Inr s"
    using attention_scale_pos[OF pos(1,3) dv] abf by auto
  have 6: "shape_einsum bct_bcs_bts [B * nh, q, H * W] [B * nh, q, H * W] = Inr [B * nh, H * W, H * W]"
    by simp
  have 7: "shape_softmax [B * nh, H * W, H * W] (- 1) = Inr [B * nh, H * W, H * W]"
    by (simp add: shape_softmax_def norm_dim_def)
  have 8: "shape_einsum bts_bcs_bct [B * nh, H * W, H * W] [B * nh, q, H * W] = Inr [B * nh, q, H * W]"
    by simp
  have 9: "shape_reshape [B * nh, q, H * W] [B, - 1, H, W] = Inr [B, C, H, W]"
  proof (rule reshape_infer4[OF pos(2,4,5)])
    show "B * C * H * W = prod_list [B * nh, q, H * W]"
      using q(1) by (simp add: algebra_simps)
  qed
  have 10: "shape_nn (ab_proj ab) [B, C, H, W] = Inr [B, C, H, W]"
    using pos by (simp add: abf)
  show ?thesis
    by (simp add: AttentionBlock_forward_def 1 2 3 4 5 6 7 8 9 10)
qed

lemma CrossModalAttentionBlock_forward_shape:
  assumes cm: "CrossModalAttentionBlock_init C pd nh = Inr cm"
    and pos: "0 < nh" "0 < B" "0 < C" "0 < H" "0 < W"
    and sv: "B * C div 32 * (H * W) \<noteq> 1"
  shows "CrossModalAttentionBlock_forward shape_sem pth cm [B, C, H, W] [B, pd] = Inr [B, C, H, W]"
proof -
  define q where "q = C div nh"
  from cm have cmf: "cm_num_heads cm = nh" "img_norm cm = GroupNorm 32 C"
    "img_to_q cm = Conv2d C C 1 1 0 False" "param_norm cm = LayerNorm pd"
    "param_to_kv cm = Linear pd (C * 2)" "cm_proj cm = Conv2d C C 1 1 0 True"
    and dv: "C mod nh = 0"
    by (simp_all add: CrossModalAttentionBlock_init_eq_Inr)
  from heads_quotient[OF pos(1,3) dv] have q: "nh * q = C" "0 < q"
    by (simp_all add: q_def)
  have nn: "shape_nn (img_norm cm) [B, C, H, W] = Inr [B, C, H, W]"
    "shape_nn (img_to_q cm) [B, C, H, W] = Inr [B, C, H, W]"
    "shape_nn (param_norm cm) [B, pd] = Inr [B, pd]"
    "shape_nn (param_to_kv cm) [B, pd] = Inr [B, 2 * C]"
    "shape_nn (cm_proj cm) [B, C, H, W] = Inr [B, C, H, W]"
    using pos sv by (simp_all add: cmf)
  have fd: "floordiv C (cm_num_heads cm) = Inr q"
    using pos by (simp add: floordiv_def cmf q_def)
  have r1: "shape_reshape [B, C, H, W] [B * cm_num_heads cm, q, H * W] = Inr [B * nh, q, H * W]"
    unfolding cmf
  proof (rule reshape_exact)
    show "\<forall>d \<in> set [B * nh, q, H * W]. 0 \<le> d" using pos q by simp
    show "prod_list [B * nh, q, H * W] = prod_list [B, C, H, W]"
      using q(1) by (simp add: algebra_simps)
  qed
  have ch: "shape_chunk [B, 2 * C] 2 1 = Inr [[B, C], [B, C]]"
    by (rule chunk2[OF pos(3)])
  have us: "shape_unsqueeze [B, C] (- 1) = Inr [B, C, 1]"
    by (simp add: shape_unsqueeze_def norm_dim_def)
  have r2: "shape_reshape [B, C, 1] [B * cm_num_heads cm, q, 1] = Inr [B * nh, q, 1]"
    unfolding cmf
  proof (rule reshape_exact)
    show "\<forall>d \<in> set [B * nh, q, 1]. 0 \<le> d" using pos q by simp
    show "prod_list [B * nh, q, 1] = prod_list [B, C, 1]"
      using q(1) by (simp add: algebra_simps)
  qed
  obtain s where sc: "attention_scale C (cm_num_heads cm) = Inr s"
    using attention_scale_pos[OF pos(1,3) dv] cmf by auto
  have e1: "shape_einsum bct_bcs_bts [B * nh, q, H * W] [B * nh, q, 1] = Inr [B * nh, H * W, 1]"
    by simp
  have sm: "shape_softmax [B * nh, H * W, 1] 1 = Inr [B * nh, H * W, 1]"
    by (simp add: shape_softmax_def norm_dim_def)
  have e2: "shape_einsum bts_bcs_bct [B * nh, H * W, 1] [B * nh, q, 1] = Inr [B * nh, q, H * W]"
    by simp
  have r3: "shape_reshape [B * nh, q, H * W] [B, C, H, W] = Inr [B, C, H, W]"
  proof (rule reshape_exact)
    show "\<forall>d \<in> set [B, C, H, W]. 0 \<le> d" using pos by simp
    show "prod_list [B, C, H, W] = prod_list [B * nh, q, H * W]"
      using q(1) by (simp add: algebra_simps)
  qed
  show ?thesis
    by (simp add: CrossModalAttentionBlock_forward_def cross_attention_weights_def
        nn fd r1 ch us r2 sc e1 sm e2 r3)
qed

subsection \<open>Shapes through one stage\<close>

lemma layer_forward_simps [simp]:
  "layer_forward sem p (Cross c) x emb (Some pf) = CrossModalAttentionBlock_forward sem p c x pf"
  "layer_forward sem p (Cross c) x emb None = Inl TypeError"
  "layer_forward sem p (Res r) x emb params = ResidualBlock_forward sem p r x emb"
  "layer_forward sem p (Plain m) x emb params = nn_forward sem p m x"
  "layer_forward sem p (Attn a) x emb params = AttentionBlock_forward sem p a x"
  "layer_forward sem p (Up u) x emb params = Upsample_forward sem p u x"
  "layer_forward sem p (Down d) x emb params = Downsample_forward sem p d x"
  by (simp_all add: layer_forward_def)

lemma layer_forward_shape_path:
  "layer_forward shape_sem p l x emb pf = layer_forward shape_sem [] l x emb pf"
  by (cases l)
     (simp_all add: layer_forward_def ResidualBlock_forward_def AttentionBlock_forward_def
       CrossModalAttentionBlock_forward_def cross_attention_weights_def Upsample_forward_def
       Downsample_forward_def
       cong: list.case_cong option.case_cong if_cong)

lemma TimestepEmbedSequential_forward_shape:
  "TimestepEmbedSequential_forward shape_sem p ls x emb pf =
     efold (\<lambda>l y. layer_forward shape_sem [] l y emb pf) ls x"
proof -
  have "(\<lambda>il y. layer_forward shape_sem (p @ [Index (fst il)]) (snd il) y emb pf) =
        (\<lambda>il. (\<lambda>l y. layer_forward shape_sem [] l y emb pf) (snd il))"
    by (intro ext) (rule layer_forward_shape_path)
  then show ?thesis
    unfolding TimestepEmbedSequential_forward_def
    by (simp only: efold_enumerate_snd[of "\<lambda>l y. layer_forward shape_sem [] l y emb pf"])
qed

lemma attention_layers_shape:
  assumes al: "attention_layers cfg c d = Inr al"
    and pos: "0 < num_heads cfg" "0 < N" "0 < c" "0 < H" "0 < W"
    and sv: "N * c div 32 * (H * W) \<noteq> 1"
  shows "efold (\<lambda>l y. layer_forward shape_sem [] l y emb (Some [N, param_hidden_dim cfg])) al
           [N, c, H, W] = Inr [N, c, H, W]"
proof (cases "d \<in> set (attention_resolutions cfg)")
  case False
  with al show ?thesis by (simp add: attention_layers_def)
next
  case True
  with al obtain a where a: "AttentionBlock_init c (num_heads cfg) = Inr a"
    and rest: "(if use_cross_attention cfg
           then ebind (CrossModalAttentionBlock_init c (param_hidden_dim cfg) (num_heads cfg)) (\<lambda>x.
                Inr [Attn a, Cross x])
           else Inr [Attn a]) = Inr al"
    by (auto simp: attention_layers_def ebind_eq_Inr)
  note A = AttentionBlock_forward_shape[OF a pos sv]
  show ?thesis
  proof (cases "use_cross_attention cfg")
    case False
    with rest have "al = [Attn a]" by simp
    then show ?thesis by (simp add: A)
  next
    case True
    with rest obtain x where x: "CrossModalAttentionBlock_init c (param_hidden_dim cfg) (num_heads cfg) = Inr x"
      and "al = [Attn a, Cross x]"
      by (auto simp: ebind_eq_Inr)
    then show ?thesis
      by (simp add: A CrossModalAttentionBlock_forward_shape[OF x pos sv])
  qed
qed

lemma res_stage_shape:
  assumes rb: "ResidualBlock_init c c' (time_embed_dim cfg) p = Inr rb"
    and al: "attention_layers cfg c' d = Inr al"
    and pos: "0 < num_heads cfg" "0 < N" "0 < c'" "0 < H" "0 < W"
    and sv: "N * c div 32 * (H * W) \<noteq> 1" "N * c' div 32 * (H * W) \<noteq> 1"
  shows "efold (\<lambda>l y. layer_forward shape_sem [] l y [N, time_embed_dim cfg]
                  (Some [N, param_hidden_dim cfg])) (Res rb # al) [N, c, H, W] = Inr [N, c', H, W]"
  by (simp add: ResidualBlock_forward_shape[OF rb pos(4,5) sv]
      attention_layers_shape[OF al pos sv(2)])

lemma Upsample_forward_shape:
  assumes "Upsample_init c cr = Inr u" and "0 < H" and "0 < W"
  shows "Upsample_forward shape_sem pth u [N, c, H, W] = Inr [N, c, H * 2, W * 2]"
  using assms
  by (auto simp: Upsample_init_def Upsample_forward_def shape_interpolate_def
      ebind_eq_Inr nn_eq_Inr split: if_splits)

lemma Downsample_forward_shape:
  assumes "Downsample_init c cr = Inr d" and "0 < H" and "0 < W" and "even H" and "even W"
  shows "Downsample_forward shape_sem pth d [N, c, H, W] = Inr [N, c, H div 2, W div 2]"
proof -
  from assms have "2 \<le> H" "2 \<le> W" by (auto elim!: evenE)
  with assms show ?thesis
    by (auto simp: Downsample_init_def Downsample_forward_def conv_out_half
        ebind_eq_Inr nn_eq_Inr split: if_splits)
qed

lemma efold_append_Inr:
  "efold f xs s = Inr s' \<Longrightarrow> efold f (xs @ ys) s = efold f ys s'"
  by (simp add: efold_append)

lemma res_stage_up_shape:
  assumes rb: "ResidualBlock_init c c' (time_embed_dim cfg) p = Inr rb"
    and al: "attention_layers cfg c' d = Inr al"
    and u: "Upsample_init c' cr = Inr u"
    and pos: "0 < num_heads cfg" "0 < N" "0 < c'" "0 < H" "0 < W"
    and sv: "N * c div 32 * (H * W) \<noteq> 1" "N * c' div 32 * (H * W) \<noteq> 1"
  shows "efold (\<lambda>l y. layer_forward shape_sem [] l y [N, time_embed_dim cfg]
                  (Some [N, param_hidden_dim cfg])) (Res rb # al @ [Up u]) [N, c, H, W]
         = Inr [N, c', H * 2, W * 2]"
proof -
  have "Res rb # al @ [Up u] = (Res rb # al) @ [Up u]" by simp
  then show ?thesis
    by (simp only: efold_append_Inr[OF res_stage_shape[OF rb al pos sv]])
       (simp add: Upsample_forward_shape[OF u pos(4,5)])
qed

lemma middle_shape:
  assumes mid: "middle_init cfg c = Inr mid"
    and pos: "0 < num_heads cfg" "0 < N" "0 < c" "0 < H" "0 < W"
    and sv: "N * c div 32 * (H * W) \<noteq> 1"
  shows "efold (\<lambda>l y. layer_forward shape_sem [] l y [N, time_embed_dim cfg]
                  (Some [N, param_hidden_dim cfg])) mid [N, c, H, W] = Inr [N, c, H, W]"
proof -
  from mid obtain r1 a xl r2 where r1: "ResidualBlock_init c c (time_embed_dim cfg) (dropout cfg) = Inr r1"
    and a: "AttentionBlock_init c (num_heads cfg) = Inr a"
    and xl: "(if use_cross_attention cfg
            then ebind (CrossModalAttentionBlock_init c (param_hidden_dim cfg) (num_heads cfg)) (\<lambda>x.
                 Inr [Cross x])
            else Inr []) = Inr xl"
    and r2: "ResidualBlock_init c c (time_embed_dim cfg) (dropout cfg) = Inr r2"
    and m: "mid = [Res r1, Attn a] @ xl @ [Res r2]"
    by (auto simp: middle_init_def ebind_eq_Inr)
  note R1 = ResidualBlock_forward_shape[OF r1 pos(4,5) sv sv]
  note R2 = ResidualBlock_forward_shape[OF r2 pos(4,5) sv sv]
  note A = AttentionBlock_forward_shape[OF a pos sv]
  show ?thesis
  proof (cases "use_cross_attention cfg")
    case False
    with xl have "xl = []" by simp
    with m show ?thesis by (simp add: R1 R2 A)
  next
    case True
    with xl obtain x where x: "CrossModalAttentionBlock_init c (param_hidden_dim cfg) (num_heads cfg) = Inr x"
      and "xl = [Cross x]"
      by (auto simp: ebind_eq_Inr)
    with m show ?thesis
      by (simp add: R1 R2 A CrossModalAttentionBlock_forward_shape[OF x pos sv])
  qed
qed

subsection \<open>The encoder: construction and down stage together\<close>

lemma ebind_Inr_right [simp]: "ebind m Inr = m"
  by (cases m) simp_all

lemma efold_Nil_fun [simp]: "efold f [] = Inr"
  by (rule ext) simp

lemma efold_single: "efold f [x] = f x"
  by (rule ext) simp

lemma efold_enumerate_snoc:
  "efold f (enumerate 0 (bs @ [b])) s = ebind (efold f (enumerate 0 bs) s) (f (length bs, b))"
  by (simp add: enumerate_append_eq efold_append efold_single del: efold.simps)

lemma down_body_shape:
  "down_body shape_sem ib (shape_locals cfg N h hs) =
     ebind (efold (\<lambda>l y. layer_forward shape_sem [] l y [N, time_embed_dim cfg]
                     (Some [N, param_hidden_dim cfg])) (snd ib) h)
       (\<lambda>h'. Inr (shape_locals cfg N h' (hs @ [h'])))"
  by (simp add: down_body_def shape_locals_def TimestepEmbedSequential_forward_shape)

lemma enc_at_push:
  assumes "enc_at cfg N x st c d h hs"
    and "efold (\<lambda>l y. layer_forward shape_sem [] l y [N, time_embed_dim cfg]
                  (Some [N, param_hidden_dim cfg])) blk h = Inr h'"
    and "self_blocks st' = self_blocks st @ [blk]"
    and "down_block_chans st' = down_block_chans st @ [h' ! 1]"
    and "ch st' = c'" and "ds st' = d'"
  shows "enc_at cfg N x st' c' d' h' (hs @ [h'])"
  using assms by (simp add: enc_at_def efold_enumerate_snoc down_body_shape)

lemma down_res_body_enc:
  assumes inv: "enc_at cfg N x st c d [N, c, Hl, Wl] hs"
    and body: "down_res_body cfg mult i st = Inr st'"
    and pos: "0 < num_heads cfg" "0 < N" "0 < mult * model_channels cfg" "0 < Hl" "0 < Wl"
    and sv: "N * c div 32 * (Hl * Wl) \<noteq> 1"
      "N * (mult * model_channels cfg) div 32 * (Hl * Wl) \<noteq> 1"
  shows "enc_at cfg N x st' (mult * model_channels cfg) d [N, mult * model_channels cfg, Hl, Wl]
           (hs @ [[N, mult * model_channels cfg, Hl, Wl]])"
proof -
  from inv have c: "ch st = c" and d: "ds st = d" by (simp_all add: enc_at_def)
  from body obtain rb al where
    rb: "ResidualBlock_init c (mult * model_channels cfg) (time_embed_dim cfg) (dropout cfg) = Inr rb"
    and al: "attention_layers cfg (mult * model_channels cfg) d = Inr al"
    and st': "st' = st\<lparr>self_blocks := self_blocks st @ [Res rb # al],
             down_block_chans := down_block_chans st @ [mult * model_channels cfg],
             ch := mult * model_channels cfg\<rparr>"
    by (auto simp: down_res_body_def ebind_eq_Inr c d)
  show ?thesis
    by (rule enc_at_push[OF inv res_stage_shape[OF rb al pos sv]]) (simp_all add: st' d)
qed

lemma efold_down_res_body_enc:
  assumes pos: "0 < num_heads cfg" "0 < N" "0 < mult * model_channels cfg" "0 < Hl" "0 < Wl"
    and sv: "N * (mult * model_channels cfg) div 32 * (Hl * Wl) \<noteq> 1"
  shows "enc_at cfg N x st c d [N, c, Hl, Wl] hs \<Longrightarrow>
         efold (down_res_body cfg mult) is st = Inr st' \<Longrightarrow>
         N * c div 32 * (Hl * Wl) \<noteq> 1 \<Longrightarrow>
         enc_at cfg N x st' (if is = [] then c else mult * model_channels cfg) d
           [N, if is = [] then c else mult * model_channels cfg, Hl, Wl]
           (hs @ replicate (length is) [N, mult * model_channels cfg, Hl, Wl])"
proof (induction "is" arbitrary: st c hs)
  case Nil
  then show ?case by simp
next
  case (Cons i "is")
  from Cons.prems(2) obtain st1 where 1: "down_res_body cfg mult i st = Inr st1"
    and 2: "efold (down_res_body cfg mult) is st1 = Inr st'"
    by (auto simp: ebind_eq_Inr)
  note s1 = down_res_body_enc[OF Cons.prems(1) 1 pos Cons.prems(3) sv]
  from Cons.IH[OF s1 2 sv] show ?case
    by (simp add: replicate_app_Cons_same)
qed

lemma at_level_0 [simp]: "at_level H 0 = H"
  by (simp add: at_level_def)

lemma at_level_Suc: "at_level H (Suc l) = at_level H l div 2"
  by (simp add: at_level_def power_Suc2 zdiv_zmult2_eq del: power_Suc)

lemma at_level_mult:
  assumes "2 ^ k dvd H" and "l \<le> k"
  shows "at_level H l * 2 ^ l = H"
proof -
  have "(2::int) ^ l dvd 2 ^ k" using assms(2) by (rule le_imp_power_dvd)
  then have "2 ^ l dvd H" using assms(1) by (rule dvd_trans)
  then show ?thesis by (simp add: at_level_def)
qed

lemma at_level_pos:
  assumes "0 < H" and "2 ^ k dvd H" and "l \<le> k"
  shows "0 < at_level H l"
proof -
  have "at_level H l * 2 ^ l = H" using assms(2,3) by (rule at_level_mult)
  with assms(1) have "0 < at_level H l * 2 ^ l" by simp
  then show ?thesis by (simp add: zero_less_mult_iff)
qed

lemma at_level_even:
  assumes "2 ^ k dvd H" and "l < k"
  shows "even (at_level H l)"
proof -
  have e: "at_level H (Suc l) * 2 ^ Suc l = H"
    using assms by (intro at_level_mult[of k]) simp_all
  have "at_level H l * 2 ^ l = H"
    using assms by (intro at_level_mult[of k]) simp_all
  with e have "at_level H l * 2 ^ l = (at_level H (Suc l) * 2) * 2 ^ l" by simp
  then have "at_level H l = at_level H (Suc l) * 2" by simp
  then show ?thesis by simp
qed

lemma at_level_double:
  assumes "2 ^ k dvd H" and "l < k"
  shows "at_level H (Suc l) * 2 = at_level H l"
  using at_level_even[OF assms] by (simp add: at_level_Suc)

lemma chan_before_no_res: "num_res_blocks cfg \<le> 0 \<Longrightarrow> chan_before cfg l = model_channels cfg"
  by (cases l) (simp_all add: chan_before_def chan_after_def)

lemma valid_run_level:
  assumes "valid_run cfg N H W" and "l < length (channel_mult cfg)"
  shows "0 < at_level H l" and "0 < at_level W l"
    and "0 < channel_mult cfg ! l * model_channels cfg"
  using assms
  by (auto simp: valid_run_def list_all_length intro!: at_level_pos[of _ "length (channel_mult cfg) - 1"])

lemma at_level_mono:
  assumes "0 < H" and "l \<le> k"
  shows "at_level H k \<le> at_level H l"
proof -
  have "(2::int) ^ l \<le> 2 ^ k" using assms(2) by simp
  then show ?thesis
    unfolding at_level_def using assms(1) by (intro zdiv_mono2) simp_all
qed

lemma several_values_wide:
  assumes "2 \<le> h" and "2 \<le> w"
  shows "(x::int) * (h * w) \<noteq> 1"
proof
  assume "x * (h * w) = 1"
  then have "h * w = 1 \<or> h * w = - 1" by (auto simp: zmult_eq_1_iff)
  moreover have "2 * 2 \<le> h * w" using assms by (intro mult_mono) simp_all
  ultimately show False by simp
qed

lemma valid_run_several:
  assumes valid: "valid_run cfg N H W" and l: "l \<le> length (channel_mult cfg) - 1"
    and c: "l = length (channel_mult cfg) - 1 \<Longrightarrow> coarsest_channels cfg \<le> c"
  shows "N * c div 32 * (at_level H l * at_level W l) \<noteq> 1"
proof (cases "l = length (channel_mult cfg) - 1")
  case True
  let ?k = "length (channel_mult cfg) - 1"
  from valid have pos: "0 < N" "0 < H" "0 < W"
    and dv: "2 ^ ?k dvd H" "2 ^ ?k dvd W"
    and big: "1 < N * (coarsest_channels cfg div 32) * (at_level H ?k * at_level W ?k)"
    by (simp_all add: valid_run_def)
  have p: "0 < at_level H ?k" "0 < at_level W ?k"
    using pos dv by (simp_all add: at_level_pos[of _ ?k])
  show ?thesis
    unfolding True
    by (rule several_values[OF big pos(1) p c[OF True] order_refl order_refl])
next
  case False
  let ?k = "length (channel_mult cfg) - 1"
  from False l have lt: "l < ?k" by simp
  from valid have pos: "0 < H" "0 < W" and dv: "2 ^ ?k dvd H" "2 ^ ?k dvd W"
    by (simp_all add: valid_run_def)
  from lt have le: "Suc l \<le> ?k" by simp
  have "0 < at_level H (Suc l)" "0 < at_level W (Suc l)"
    using pos dv le by (simp_all add: at_level_pos[of _ ?k])
  with at_level_double[OF dv(1) lt] at_level_double[OF dv(2) lt]
  have "2 \<le> at_level H l" "2 \<le> at_level W l" by simp_all
  then show ?thesis by (rule several_values_wide)
qed

lemma valid_run_channels:
  assumes valid: "valid_run cfg N H W" and l: "l < length (channel_mult cfg)"
  shows "model_channels cfg \<le> channel_mult cfg ! l * model_channels cfg"
    and "model_channels cfg \<le> chan_after cfg l"
    and "model_channels cfg \<le> chan_before cfg l"
proof -
  from valid have mc: "0 < model_channels cfg"
    and cm: "\<And>k. k < length (channel_mult cfg) \<Longrightarrow> 1 \<le> channel_mult cfg ! k"
    by (auto simp: valid_run_def list_all_length)
  have m: "model_channels cfg \<le> channel_mult cfg ! k * model_channels cfg"
    if "k < length (channel_mult cfg)" for k
    using mult_right_mono[OF cm[OF that], of "model_channels cfg"] mc by simp
  from m[OF l] show "model_channels cfg \<le> channel_mult cfg ! l * model_channels cfg" .
  have a: "model_channels cfg \<le> chan_after cfg k" if "k < length (channel_mult cfg)" for k
    using m[OF that] by (simp add: chan_after_def)
  from a[OF l] show "model_channels cfg \<le> chan_after cfg l" .
  show "model_channels cfg \<le> chan_before cfg l"
  proof (cases l)
    case 0
    then show ?thesis by (simp add: chan_before_def)
  next
    case (Suc k)
    with l have "k < length (channel_mult cfg)" by simp
    from a[OF this] Suc show ?thesis by (simp add: chan_before_def)
  qed
qed

lemma coarsest_channels_le:
  assumes valid: "valid_run cfg N H W" and l: "l < length (channel_mult cfg)"
    and last: "l = length (channel_mult cfg) - 1"
  shows "coarsest_channels cfg \<le> channel_mult cfg ! l * model_channels cfg"
    and "coarsest_channels cfg \<le> chan_after cfg l"
    and "coarsest_channels cfg \<le> chan_before cfg l"
proof -
  from l have ne: "length (channel_mult cfg) \<noteq> 0" by auto
  note ch = valid_run_channels[OF valid l]
  have cc: "coarsest_channels cfg =
      (if num_res_blocks cfg \<le> 0 then model_channels cfg
       else min (chan_before cfg l) (channel_mult cfg ! l * model_channels cfg))"
    using ne by (simp add: coarsest_channels_def Let_def last)
  from ch show "coarsest_channels cfg \<le> channel_mult cfg ! l * model_channels cfg"
    by (simp add: cc)
  from ch show "coarsest_channels cfg \<le> chan_after cfg l"
    by (simp add: cc chan_after_def)
  from ch show "coarsest_channels cfg \<le> chan_before cfg l"
    by (simp add: cc)
qed

lemma coarsest_channels_final:
  assumes valid: "valid_run cfg N H W" and last: "0 = length (channel_mult cfg) - 1"
  shows "coarsest_channels cfg \<le> final_channels cfg"
proof (cases "channel_mult cfg = []")
  case True
  then show ?thesis by (simp add: coarsest_channels_def final_channels_def)
next
  case False
  then have l: "0 < length (channel_mult cfg)" by simp
  from coarsest_channels_le(1)[OF valid l last] False show ?thesis
    by (simp add: final_channels_def ac_simps)
qed

lemma drop_eq_ConsD:
  assumes "drop l ys = m # xs"
  shows "l < length ys" and "m = ys ! l" and "drop (Suc l) ys = xs"
proof -
  from assms show l: "l < length ys"
    by (cases "l < length ys") simp_all
  from Cons_nth_drop_Suc[OF l] assms show "m = ys ! l" and "drop (Suc l) ys = xs"
    by simp_all
qed

lemma down_level_body_enc:
  assumes valid: "valid_run cfg N H W" and l: "l < length (channel_mult cfg)"
    and inv: "enc_at cfg N x st (chan_before cfg l) (2 ^ l) (entry_shape cfg N H W l)
                (skips_upto cfg N H W l @ [entry_shape cfg N H W l])"
    and body: "down_level_body cfg (l, channel_mult cfg ! l) st = Inr st'"
  shows "if l = length (channel_mult cfg) - 1
         then enc_at cfg N x st' (chan_after cfg l) (2 ^ l) (level_shape cfg N H W l)
                (skips_upto cfg N H W (Suc l))
         else enc_at cfg N x st' (chan_before cfg (Suc l)) (2 ^ Suc l) (entry_shape cfg N H W (Suc l))
                (skips_upto cfg N H W (Suc l) @ [entry_shape cfg N H W (Suc l)])"
proof -
  let ?mult = "channel_mult cfg ! l"
  from valid have pos: "0 < num_heads cfg" "0 < N" and n0: "0 \<le> num_res_blocks cfg"
    and dv: "2 ^ (length (channel_mult cfg) - 1) dvd H" "2 ^ (length (channel_mult cfg) - 1) dvd W"
    by (simp_all add: valid_run_def)
  note lv = valid_run_level[OF valid l]
  from l have l': "l \<le> length (channel_mult cfg) - 1" by simp
  note sv = valid_run_several[OF valid l' coarsest_channels_le(1)[OF valid l]]
    valid_run_several[OF valid l' coarsest_channels_le(3)[OF valid l]]
  from body obtain st1 where
    1: "efold (down_res_body cfg ?mult) (py_range (num_res_blocks cfg)) st = Inr st1"
    and 2: "(if int l \<noteq> int (length (channel_mult cfg)) - 1
     then ebind (Downsample_init (ch st1) (conv_resample cfg)) (\<lambda>d.
          Inr (st1\<lparr>self_blocks := self_blocks st1 @ [[Down d]],
                  down_block_chans := down_block_chans st1 @ [ch st1],
                  ds := ds st1 * 2\<rparr>))
     else Inr st1) = Inr st'"
    by (auto simp: down_level_body_def ebind_eq_Inr)
  have ca: "(if py_range (num_res_blocks cfg) = [] then chan_before cfg l else ?mult * model_channels cfg)
      = chan_after cfg l"
    using n0 by (auto simp: py_range_def chan_after_def chan_before_no_res)
  have rep: "replicate (length (py_range (num_res_blocks cfg))) [N, ?mult * model_channels cfg,
        at_level H l, at_level W l] = replicate (nat (num_res_blocks cfg)) (level_shape cfg N H W l)"
    by (cases "num_res_blocks cfg \<le> 0") (simp_all add: py_range_def level_shape_def chan_after_def)
  from efold_down_res_body_enc[OF pos lv(3) lv(1,2) sv(1) inv[unfolded entry_shape_def] 1 sv(2)]
  have mid: "enc_at cfg N x st1 (chan_after cfg l) (2 ^ l) (level_shape cfg N H W l)
      (skips_upto cfg N H W (Suc l))"
    unfolding ca rep by (simp add: level_shape_def entry_shape_def)
  show ?thesis
  proof (cases "l = length (channel_mult cfg) - 1")
    case True
    with l 2 have "st' = st1" by (simp add: of_nat_diff)
    with mid True show ?thesis by simp
  next
    case False
    with l have lt: "l < length (channel_mult cfg) - 1" by simp
    from mid have c1: "ch st1 = chan_after cfg l" and d1: "ds st1 = 2 ^ l"
      by (simp_all add: enc_at_def)
    from False l 2 obtain d where d: "Downsample_init (chan_after cfg l) (conv_resample cfg) = Inr d"
      and st': "st' = st1\<lparr>self_blocks := self_blocks st1 @ [[Down d]],
                  down_block_chans := down_block_chans st1 @ [chan_after cfg l],
                  ds := ds st1 * 2\<rparr>"
      by (auto simp: ebind_eq_Inr c1 split: if_splits)
    have ev: "even (at_level H l)" "even (at_level W l)"
      using dv lt by (simp_all add: at_level_even)
    have blk: "efold (\<lambda>l y. layer_forward shape_sem [] l y [N, time_embed_dim cfg]
                  (Some [N, param_hidden_dim cfg])) [Down d] (level_shape cfg N H W l)
        = Inr (entry_shape cfg N H W (Suc l))"
      by (simp add: level_shape_def entry_shape_def chan_before_def at_level_Suc
          Downsample_forward_shape[OF d lv(1,2) ev])
    have "enc_at cfg N x st' (chan_before cfg (Suc l)) (2 ^ Suc l) (entry_shape cfg N H W (Suc l))
        (skips_upto cfg N H W (Suc l) @ [entry_shape cfg N H W (Suc l)])"
      by (rule enc_at_push[OF mid blk])
         (simp_all add: st' c1 d1 entry_shape_def chan_before_def)
    with False show ?thesis by simp
  qed
qed

lemma encoder_levels:
  assumes valid: "valid_run cfg N H W"
  shows "drop l (channel_mult cfg) = xs \<Longrightarrow> xs \<noteq> [] \<Longrightarrow>
         enc_at cfg N x st (chan_before cfg l) (2 ^ l) (entry_shape cfg N H W l)
           (skips_upto cfg N H W l @ [entry_shape cfg N H W l]) \<Longrightarrow>
         efold (down_level_body cfg) (enumerate l xs) st = Inr st' \<Longrightarrow>
         enc_at cfg N x st' (chan_after cfg (length (channel_mult cfg) - 1))
           (2 ^ (length (channel_mult cfg) - 1))
           (level_shape cfg N H W (length (channel_mult cfg) - 1))
           (skips_upto cfg N H W (length (channel_mult cfg)))"
proof (induction xs arbitrary: l st)
  case Nil
  then show ?case by simp
next
  case (Cons m xs)
  from Cons.prems(1) have l: "l < length (channel_mult cfg)"
    and m: "m = channel_mult cfg ! l" and dr: "drop (Suc l) (channel_mult cfg) = xs"
    by (rule drop_eq_ConsD)+
  from Cons.prems(4) obtain st1 where 1: "down_level_body cfg (l, channel_mult cfg ! l) st = Inr st1"
    and 2: "efold (down_level_body cfg) (enumerate (Suc l) xs) st1 = Inr st'"
    by (auto simp: ebind_eq_Inr m)
  note step = down_level_body_enc[OF valid l Cons.prems(3) 1]
  show ?case
  proof (cases "xs = []")
    case True
    with dr l have last: "l = length (channel_mult cfg) - 1" by simp
    from last l have sl: "length (channel_mult cfg) = Suc l" by simp
    from True 2 have "st' = st1" by simp
    with step show ?thesis
      unfolding sl by (simp del: skips_upto.simps)
  next
    case False
    with dr have "l \<noteq> length (channel_mult cfg) - 1" by auto
    with step have "enc_at cfg N x st1 (chan_before cfg (Suc l)) (2 ^ Suc l)
        (entry_shape cfg N H W (Suc l))
        (skips_upto cfg N H W (Suc l) @ [entry_shape cfg N H W (Suc l)])"
      by simp
    from Cons.IH[OF dr False this 2] show ?thesis .
  qed
qed

subsection \<open>The decoder: construction and up stage together\<close>

lemma up_body_shape:
  "up_body shape_sem ib (shape_locals cfg N h (hs @ [s])) =
     ebind (shape_cat h s 1) (\<lambda>cat_in.
     ebind (efold (\<lambda>l y. layer_forward shape_sem [] l y [N, time_embed_dim cfg]
                     (Some [N, param_hidden_dim cfg])) (snd ib) cat_in)
       (\<lambda>h'. Inr (shape_locals cfg N h' hs)))"
  by (simp add: up_body_def shape_locals_def TimestepEmbedSequential_forward_shape)

lemma shape_cat_channels:
  "shape_cat [N, c, H, W] [N, c2, H, W] 1 = Inr [N, c + c2, H, W]"
  by (simp add: shape_cat_def norm_dim_def)

lemma dec_at_pop:
  assumes "dec_at cfg N s0 st c d h (hs @ [s])"
    and "shape_cat h s 1 = Inr cat_in"
    and "efold (\<lambda>l y. layer_forward shape_sem [] l y [N, time_embed_dim cfg]
                  (Some [N, param_hidden_dim cfg])) blk cat_in = Inr h'"
    and "self_blocks st' = self_blocks st @ [blk]"
    and "down_block_chans st' = butlast (down_block_chans st)"
    and "ch st' = c'" and "ds st' = d'"
  shows "dec_at cfg N s0 st' c' d' h' hs"
  using assms by (simp add: dec_at_def efold_enumerate_snoc up_body_shape map_butlast[symmetric])

lemma up_rep_body_dec:
  assumes inv: "dec_at cfg N s0 st c d [N, c, Hl, Wl] (hs @ [[N, c2, Hl, Wl]])"
    and body: "up_rep_body cfg level mult i st = Inr st'"
    and pos: "0 < num_heads cfg" "0 < N" "0 < model_channels cfg * mult" "0 < Hl" "0 < Wl"
    and sv: "N * (c + c2) div 32 * (Hl * Wl) \<noteq> 1"
      "N * (model_channels cfg * mult) div 32 * (Hl * Wl) \<noteq> 1"
  shows "if level \<noteq> 0 \<and> i = num_res_blocks cfg
         then dec_at cfg N s0 st' (model_channels cfg * mult) (d div 2)
                [N, model_channels cfg * mult, Hl * 2, Wl * 2] hs
         else dec_at cfg N s0 st' (model_channels cfg * mult) d
                [N, model_channels cfg * mult, Hl, Wl] hs"
proof -
  let ?c' = "model_channels cfg * mult"
  from inv have c: "ch st = c" and d: "ds st = d"
    and chans: "down_block_chans st = map (\<lambda>s. s ! 1) hs @ [c2]"
    by (simp_all add: dec_at_def)
  from body chans obtain rb al where
    rb: "ResidualBlock_init (c + c2) ?c' (time_embed_dim cfg) (dropout cfg) = Inr rb"
    and al: "attention_layers cfg ?c' d = Inr al"
    and rest: "(if level \<noteq> 0 \<and> i = num_res_blocks cfg
        then ebind (Upsample_init ?c' (conv_resample cfg)) (\<lambda>u.
             Inr (st\<lparr>self_blocks := self_blocks st @ [Res rb # al @ [Up u]],
                     down_block_chans := butlast (down_block_chans st),
                     ch := ?c', ds := ds st div 2\<rparr>))
        else Inr (st\<lparr>self_blocks := self_blocks st @ [Res rb # al],
                     down_block_chans := butlast (down_block_chans st),
                     ch := ?c'\<rparr>)) = Inr st'"
    by (auto simp: up_rep_body_def ebind_eq_Inr c d)
  note cat = shape_cat_channels[of N c Hl Wl c2]
  show ?thesis
  proof (cases "level \<noteq> 0 \<and> i = num_res_blocks cfg")
    case True
    with rest obtain u where u: "Upsample_init ?c' (conv_resample cfg) = Inr u"
      and st': "st' = st\<lparr>self_blocks := self_blocks st @ [Res rb # al @ [Up u]],
                     down_block_chans := butlast (down_block_chans st),
                     ch := ?c', ds := ds st div 2\<rparr>"
      by (auto simp: ebind_eq_Inr)
    have "dec_at cfg N s0 st' ?c' (d div 2) [N, ?c', Hl * 2, Wl * 2] hs"
      by (rule dec_at_pop[OF inv cat res_stage_up_shape[OF rb al u pos sv]]) (simp_all add: st' d)
    with True show ?thesis by simp
  next
    case False
    with rest have st': "st' = st\<lparr>self_blocks := self_blocks st @ [Res rb # al],
                     down_block_chans := butlast (down_block_chans st),
                     ch := ?c'\<rparr>"
      by auto
    have "dec_at cfg N s0 st' ?c' d [N, ?c', Hl, Wl] hs"
      by (rule dec_at_pop[OF inv cat res_stage_shape[OF rb al pos sv]]) (simp_all add: st' d)
    with False show ?thesis by auto
  qed
qed

lemma efold_up_rep_body_dec:
  assumes pos: "0 < num_heads cfg" "0 < N" "0 < model_channels cfg * mult" "0 < Hl" "0 < Wl"
    and sv: "N * (model_channels cfg * mult + c2) div 32 * (Hl * Wl) \<noteq> 1"
      "N * (model_channels cfg * mult) div 32 * (Hl * Wl) \<noteq> 1"
  shows "\<forall>i \<in> set is. i \<noteq> num_res_blocks cfg \<Longrightarrow>
         dec_at cfg N s0 st c d [N, c, Hl, Wl] (hs @ replicate (length is) [N, c2, Hl, Wl]) \<Longrightarrow>
         efold (up_rep_body cfg level mult) is st = Inr st' \<Longrightarrow>
         N * (c + c2) div 32 * (Hl * Wl) \<noteq> 1 \<Longrightarrow>
         dec_at cfg N s0 st' (if is = [] then c else model_channels cfg * mult) d
           [N, if is = [] then c else model_channels cfg * mult, Hl, Wl] hs"
proof (induction "is" arbitrary: st c)
  case Nil
  then show ?case by simp
next
  case (Cons i "is")
  from Cons.prems(3) obtain st1 where 1: "up_rep_body cfg level mult i st = Inr st1"
    and 2: "efold (up_rep_body cfg level mult) is st1 = Inr st'"
    by (auto simp: ebind_eq_Inr)
  from Cons.prems(2)
  have inv: "dec_at cfg N s0 st c d [N, c, Hl, Wl]
      ((hs @ replicate (length is) [N, c2, Hl, Wl]) @ [[N, c2, Hl, Wl]])"
    by (simp add: replicate_append_same)
  from up_rep_body_dec[OF inv 1 pos Cons.prems(4) sv(2)] Cons.prems(1)
  have s1: "dec_at cfg N s0 st1 (model_channels cfg * mult) d [N, model_channels cfg * mult, Hl, Wl]
      (hs @ replicate (length is) [N, c2, Hl, Wl])"
    by simp
  from Cons.prems(1) have "\<forall>i \<in> set is. i \<noteq> num_res_blocks cfg" by simp
  from Cons.IH[OF this s1 2 sv(1)] show ?case by simp
qed

lemma py_range_Suc: "0 \<le> n \<Longrightarrow> py_range (n + 1) = py_range n @ [n]"
  by (simp add: py_range_def nat_add_distrib)

lemma up_level_body_dec:
  assumes valid: "valid_run cfg N H W" and l: "l < length (channel_mult cfg)"
    and inv: "dec_at cfg N s0 st c (2 ^ l) [N, c, at_level H l, at_level W l]
                (skips_upto cfg N H W (Suc l))"
    and body: "up_level_body cfg (l, channel_mult cfg ! l) st = Inr st'"
    and c0: "0 \<le> c"
  shows "dec_at cfg N s0 st' (model_channels cfg * channel_mult cfg ! l) (2 ^ (l - 1))
           [N, model_channels cfg * channel_mult cfg ! l, at_level H (l - 1), at_level W (l - 1)]
           (skips_upto cfg N H W l)"
proof -
  let ?mult = "channel_mult cfg ! l" and ?n = "num_res_blocks cfg"
  let ?c' = "model_channels cfg * ?mult"
  from valid have pos: "0 < num_heads cfg" "0 < N" and n0: "0 \<le> ?n"
    and dv: "2 ^ (length (channel_mult cfg) - 1) dvd H" "2 ^ (length (channel_mult cfg) - 1) dvd W"
    by (simp_all add: valid_run_def)
  note lv = valid_run_level[OF valid l]
  from lv(3) have cpos: "0 < ?c'" by (simp add: ac_simps)
  from l have l': "l \<le> length (channel_mult cfg) - 1" by simp
  have sv: "N * k div 32 * (at_level H l * at_level W l) \<noteq> 1"
    if "l = length (channel_mult cfg) - 1 \<Longrightarrow> coarsest_channels cfg \<le> k" for k
    using valid l' that by (rule valid_run_several)
  note ch = coarsest_channels_le[OF valid l]
  from body obtain st1 where
    1: "efold (up_rep_body cfg l ?mult) (py_range ?n) st = Inr st1"
    and 2: "up_rep_body cfg l ?mult ?n st1 = Inr st'"
    by (auto simp: up_level_body_def py_range_Suc[OF n0] efold_append ebind_eq_Inr efold_single
        simp del: efold.simps)
  have ne: "\<forall>i \<in> set (py_range ?n). i \<noteq> ?n"
    by (auto simp: py_range_def)
  from inv have inv': "dec_at cfg N s0 st c (2 ^ l) [N, c, at_level H l, at_level W l]
      ((skips_upto cfg N H W l @ [entry_shape cfg N H W l]) @
       replicate (length (py_range ?n)) [N, chan_after cfg l, at_level H l, at_level W l])"
    by (simp add: py_range_def level_shape_def)
  define c1 where "c1 = (if py_range ?n = [] then c else ?c')"
  have c1: "0 \<le> c1" using c0 cpos by (simp add: c1_def)
  have sva: "N * (?c' + chan_after cfg l) div 32 * (at_level H l * at_level W l) \<noteq> 1"
    "N * ?c' div 32 * (at_level H l * at_level W l) \<noteq> 1"
    "N * (c + chan_after cfg l) div 32 * (at_level H l * at_level W l) \<noteq> 1"
    "N * (c1 + chan_before cfg l) div 32 * (at_level H l * at_level W l) \<noteq> 1"
  proof -
    show "N * (?c' + chan_after cfg l) div 32 * (at_level H l * at_level W l) \<noteq> 1"
      using ch(2) cpos by (intro sv) simp
    show "N * ?c' div 32 * (at_level H l * at_level W l) \<noteq> 1"
      using ch(1) by (intro sv) (simp add: ac_simps)
    show "N * (c + chan_after cfg l) div 32 * (at_level H l * at_level W l) \<noteq> 1"
      using ch(2) c0 by (intro sv) simp
    show "N * (c1 + chan_before cfg l) div 32 * (at_level H l * at_level W l) \<noteq> 1"
      using ch(3) c1 by (intro sv) simp
  qed
  from efold_up_rep_body_dec[OF pos cpos lv(1,2) sva(1,2) ne inv' 1 sva(3)]
  have mid: "dec_at cfg N s0 st1 c1 (2 ^ l) [N, c1, at_level H l, at_level W l]
      (skips_upto cfg N H W l @ [[N, chan_before cfg l, at_level H l, at_level W l]])"
    by (simp add: c1_def entry_shape_def)
  note step = up_rep_body_dec[OF mid 2 pos cpos lv(1,2) sva(4,2)]
  show ?thesis
  proof (cases l)
    case 0
    with step show ?thesis by simp
  next
    case (Suc k)
    with l have k: "k < length (channel_mult cfg) - 1" by simp
    have "at_level H (Suc k) * 2 = at_level H k" "at_level W (Suc k) * 2 = at_level W k"
      using dv k by (simp_all add: at_level_double)
    with step Suc show ?thesis by simp
  qed
qed

lemma rev_enumerate_take_Suc:
  assumes "k < length xs"
  shows "rev (enumerate 0 (take (Suc k) xs)) = (k, xs ! k) # rev (enumerate 0 (take k xs))"
  using assms by (simp add: take_Suc_conv_app_nth enumerate_append_eq)

lemma decoder_levels:
  assumes valid: "valid_run cfg N H W"
  shows "k \<le> length (channel_mult cfg) \<Longrightarrow>
         dec_at cfg N s0 st c (2 ^ (k - 1)) [N, c, at_level H (k - 1), at_level W (k - 1)]
           (skips_upto cfg N H W k) \<Longrightarrow>
         efold (up_level_body cfg) (rev (enumerate 0 (take k (channel_mult cfg)))) st = Inr st' \<Longrightarrow>
         0 \<le> c \<Longrightarrow>
         dec_at cfg N s0 st' (if k = 0 then c else model_channels cfg * channel_mult cfg ! 0) 1
           [N, if k = 0 then c else model_channels cfg * channel_mult cfg ! 0, H, W] []"
proof (induction k arbitrary: st c)
  case 0
  then show ?case by simp
next
  case (Suc k)
  from Suc.prems(1) have k: "k < length (channel_mult cfg)" by simp
  from Suc.prems(3) obtain st1 where 1: "up_level_body cfg (k, channel_mult cfg ! k) st = Inr st1"
    and 2: "efold (up_level_body cfg) (rev (enumerate 0 (take k (channel_mult cfg)))) st1 = Inr st'"
    by (auto simp: rev_enumerate_take_Suc[OF k] ebind_eq_Inr)
  from Suc.prems(2) have inv: "dec_at cfg N s0 st c (2 ^ k) [N, c, at_level H k, at_level W k]
      (skips_upto cfg N H W (Suc k))"
    by (simp del: skips_upto.simps)
  note s1 = up_level_body_dec[OF valid k inv 1 Suc.prems(4)]
  from valid_run_level(3)[OF valid k] have "0 \<le> model_channels cfg * channel_mult cfg ! k"
    by (simp add: ac_simps)
  from Suc.IH[OF _ s1 2 this] k show ?case
    by (cases k) simp_all
qed

subsection \<open>The whole networks\<close>

lemma encoder_init_enc:
  assumes valid: "valid_run cfg N H W" and enc: "encoder_init cfg = Inr enc"
  shows "enc_at cfg N [N, in_channels cfg, H, W] enc (bottom_shape cfg N H W ! 1)
           (2 ^ (length (channel_mult cfg) - 1)) (bottom_shape cfg N H W) (enc_skips cfg N H W)"
proof -
  let ?x = "[N, in_channels cfg, H, W]"
  let ?c0 = "Conv2d (in_channels cfg) (model_channels cfg) 3 1 1 True"
  let ?st0 = "\<lparr>self_blocks = [[Plain ?c0]], down_block_chans = [model_channels cfg],
        ch = model_channels cfg, ds = 1\<rparr>"
  from valid have pos: "0 < H" "0 < W" by (simp_all add: valid_run_def)
  from enc have loop: "efold (down_level_body cfg) (enumerate 0 (channel_mult cfg)) ?st0 = Inr enc"
    by (auto simp: encoder_init_def ebind_eq_Inr nn_eq_Inr)
  have st0: "enc_at cfg N ?x ?st0 (model_channels cfg) 1 [N, model_channels cfg, H, W]
      [[N, model_channels cfg, H, W]]"
    using pos by (simp add: enc_at_def down_body_shape)
  show ?thesis
  proof (cases "channel_mult cfg = []")
    case True
    with loop have "enc = ?st0" by simp
    with st0 True show ?thesis by (simp add: bottom_shape_def enc_skips_def)
  next
    case False
    have inv: "enc_at cfg N ?x ?st0 (chan_before cfg 0) (2 ^ 0) (entry_shape cfg N H W 0)
        (skips_upto cfg N H W 0 @ [entry_shape cfg N H W 0])"
      using st0 by (simp add: chan_before_def entry_shape_def)
    from encoder_levels[OF valid _ False inv, of enc] loop False show ?thesis
      by (simp add: bottom_shape_def enc_skips_def level_shape_def)
  qed
qed

lemma encoder_init_bottom:
  assumes valid: "valid_run cfg N H W" and enc: "encoder_init cfg = Inr enc"
  shows "bottom_shape cfg N H W =
           [N, ch enc, at_level H (length (channel_mult cfg) - 1),
            at_level W (length (channel_mult cfg) - 1)]"
    and "ds enc = 2 ^ (length (channel_mult cfg) - 1)"
    and "down_block_chans enc = map (\<lambda>s. s ! 1) (enc_skips cfg N H W)"
    and "model_channels cfg \<le> ch enc"
    and "coarsest_channels cfg \<le> ch enc"
proof -
  note e = encoder_init_enc[OF valid enc]
  from e have c: "ch enc = bottom_shape cfg N H W ! 1" by (simp add: enc_at_def)
  show "coarsest_channels cfg \<le> ch enc"
  proof (cases "channel_mult cfg = []")
    case True
    then show ?thesis by (simp add: c bottom_shape_def coarsest_channels_def)
  next
    case False
    then have "length (channel_mult cfg) - 1 < length (channel_mult cfg)" by simp
    from coarsest_channels_le(2)[OF valid this refl] False show ?thesis
      by (simp add: c bottom_shape_def level_shape_def)
  qed
  show "model_channels cfg \<le> ch enc"
  proof (cases "channel_mult cfg = []")
    case True
    then show ?thesis by (simp add: c bottom_shape_def)
  next
    case False
    then have "length (channel_mult cfg) - 1 < length (channel_mult cfg)" by simp
    from valid_run_channels(2)[OF valid this] False show ?thesis
      by (simp add: c bottom_shape_def level_shape_def)
  qed
  show "bottom_shape cfg N H W =
      [N, ch enc, at_level H (length (channel_mult cfg) - 1),
       at_level W (length (channel_mult cfg) - 1)]"
    unfolding c by (simp add: bottom_shape_def level_shape_def)
  from e show "ds enc = 2 ^ (length (channel_mult cfg) - 1)"
    and "down_block_chans enc = map (\<lambda>s. s ! 1) (enc_skips cfg N H W)"
    by (simp_all add: enc_at_def)
qed

lemma py_range_2: "py_range 2 = [0, 1]"
  by (simp add: py_range_def upt_rec numeral_2_eq_2)

lemma ParameterEncoder_init_eq_Inr:
  "ParameterEncoder_init pd hid od td = Inr pe \<longleftrightarrow>
     0 \<le> pd \<and> 0 \<le> hid \<and> 0 \<le> od \<and> 0 \<le> td \<and>
     pe = \<lparr>pe_time_embed = [Linear td hid, SiLU, Linear hid hid], input_proj = Linear pd hid,
           layers = [[Linear hid hid, SiLU, Linear hid hid], [Linear hid hid, SiLU, Linear hid hid]],
           out_proj = Linear hid od\<rparr>"
  by (auto simp: ParameterEncoder_init_def residual_mlp_def py_range_2 ebind_eq_Inr nn_eq_Inr)

lemma ParameterEncoder_forward_shape:
  assumes "ParameterEncoder_init pd hid hid td = Inr pe"
  shows "ParameterEncoder_forward shape_sem pth pe [N, pd] [N, td] = Inr [N, hid]"
  using assms
  by (simp add: ParameterEncoder_init_eq_Inr ParameterEncoder_forward_def efold_enumerate_snd
      split_def)

lemma shape_timestep_embedding_even:
  assumes "0 < mc" and "even mc"
  shows "shape_timestep_embedding [N] mc = Inr [N, mc]"
  using assms by (auto simp: shape_timestep_embedding_def Let_def elim!: evenE)

lemma trunk_forward_shape:
  assumes valid: "valid_run cfg N H W"
    and mc: "self_model_channels m = model_channels cfg"
    and te: "time_embed m = [Linear (model_channels cfg) (time_embed_dim cfg), SiLU,
               Linear (time_embed_dim cfg) (time_embed_dim cfg)]"
    and pe: "ParameterEncoder_init (param_dim cfg) (param_hidden_dim cfg) (param_hidden_dim cfg)
               (time_embed_dim cfg) = Inr (param_encoder m)"
    and enc: "encoder_init cfg = Inr enc" and db: "down_blocks m = self_blocks enc"
    and mid: "middle_init cfg (ch enc) = Inr (middle_block m)"
  shows "trunk_forward shape_sem m [N, in_channels cfg, H, W] [N, param_dim cfg] [N] =
           Inr (shape_locals cfg N (bottom_shape cfg N H W) (enc_skips cfg N H W))"
proof -
  let ?L = "length (channel_mult cfg)"
  from valid have pos: "0 < num_heads cfg" "0 < N" "0 < H" "0 < W" "0 < model_channels cfg"
    and dv: "2 ^ (?L - 1) dvd H" "2 ^ (?L - 1) dvd W"
    by (simp_all add: valid_run_def)
  from encoder_middle_model_channels[OF enc mid] have "even (model_channels cfg)"
    by (rule dvd_trans[rotated]) simp
  with pos have 1: "shape_timestep_embedding [N] (self_model_channels m) = Inr [N, model_channels cfg]"
    by (simp add: mc shape_timestep_embedding_even)
  have 2: "efold shape_nn (time_embed m) [N, model_channels cfg] = Inr [N, time_embed_dim cfg]"
    by (simp add: te)
  note 3 = ParameterEncoder_forward_shape[OF pe, of "[Name ''param_encoder'']" N]
  note e = encoder_init_enc[OF valid enc]
  from e have 4: "efold (down_body shape_sem) (enumerate 0 (down_blocks m))
      \<lparr>var_h = [N, in_channels cfg, H, W], var_hs = [], var_emb = [N, time_embed_dim cfg],
       var_param_features = [N, param_hidden_dim cfg]\<rparr>
      = Inr (shape_locals cfg N (bottom_shape cfg N H W) (enc_skips cfg N H W))"
    by (simp add: enc_at_def db shape_locals_def)
  from e have c: "ch enc = bottom_shape cfg N H W ! 1" by (simp add: enc_at_def)
  have bs: "bottom_shape cfg N H W = [N, ch enc, at_level H (?L - 1), at_level W (?L - 1)]"
    unfolding c by (simp add: bottom_shape_def level_shape_def)
  have hp: "0 < at_level H (?L - 1)" "0 < at_level W (?L - 1)"
    using pos dv by (simp_all add: at_level_pos[of _ "?L - 1"])
  have cpos: "0 < ch enc"
  proof (cases "channel_mult cfg = []")
    case True
    with pos show ?thesis by (simp add: c bottom_shape_def)
  next
    case False
    then have l: "?L - 1 < ?L" by simp
    from valid_run_level(3)[OF valid l] valid pos show ?thesis
      by (simp add: c bottom_shape_def level_shape_def chan_after_def False valid_run_def)
  qed
  have sv: "N * ch enc div 32 * (at_level H (?L - 1) * at_level W (?L - 1)) \<noteq> 1"
    using valid le_refl encoder_init_bottom(5)[OF valid enc] by (rule valid_run_several)
  have 5: "efold (\<lambda>l y. layer_forward shape_sem [] l y [N, time_embed_dim cfg]
                  (Some [N, param_hidden_dim cfg])) (middle_block m) (bottom_shape cfg N H W)
      = Inr (bottom_shape cfg N H W)"
    unfolding bs by (rule middle_shape[OF mid pos(1,2) cpos hp sv])
  show ?thesis
    by (simp add: trunk_forward_def 1 2 3 4 TimestepEmbedSequential_forward_shape)
       (simp add: shape_locals_def 5)
qed

lemma UNet_init_parts:
  assumes "UNet_init cfg = Inr m"
  obtains enc dec where
    "self_model_channels m = model_channels cfg"
    "time_embed m = [Linear (model_channels cfg) (time_embed_dim cfg), SiLU,
       Linear (time_embed_dim cfg) (time_embed_dim cfg)]"
    "ParameterEncoder_init (param_dim cfg) (param_hidden_dim cfg) (param_hidden_dim cfg)
       (time_embed_dim cfg) = Inr (param_encoder m)"
    "encoder_init cfg = Inr enc" "down_blocks m = self_blocks enc"
    "middle_init cfg (ch enc) = Inr (middle_block m)"
    "decoder_init cfg enc = Inr dec" "up_blocks m = self_blocks dec"
    "img_out m = [GroupNorm 32 (ch dec), SiLU,
       Conv2d (model_channels cfg) (out_channels cfg) 3 1 1 True]"
    "param_out m = Linear (param_hidden_dim cfg) (param_dim cfg)"
  using assms by (auto simp: UNet_init_def ebind_eq_Inr nn_eq_Inr)

lemma UNet_Energy_init_parts:
  assumes "UNet_Energy_init cfg = Inr m"
  obtains enc where
    "self_model_channels m = model_channels cfg"
    "time_embed m = [Linear (model_channels cfg) (time_embed_dim cfg), SiLU,
       Linear (time_embed_dim cfg) (time_embed_dim cfg)]"
    "ParameterEncoder_init (param_dim cfg) (param_hidden_dim cfg) (param_hidden_dim cfg)
       (time_embed_dim cfg) = Inr (param_encoder m)"
    "encoder_init cfg = Inr enc" "down_blocks m = self_blocks enc"
    "middle_init cfg (ch enc) = Inr (middle_block m)"
    "property_predictor m = [AdaptiveAvgPool2d 1, Flatten, Linear (ch enc) (prop_hidden_dim cfg),
       SiLU, Linear (prop_hidden_dim cfg) (prop_dim cfg)]"
  using assms by (auto simp: UNet_Energy_init_def ebind_eq_Inr nn_eq_Inr)

lemma UNet_forward_locals_shape:
  assumes valid: "valid_run cfg N H W" and init: "UNet_init cfg = Inr m"
  shows "UNet_forward_locals shape_sem m [N, in_channels cfg, H, W] [N, param_dim cfg] [N] =
           Inr (shape_locals cfg N [N, final_channels cfg, H, W]
                  (if channel_mult cfg = [] then [[N, model_channels cfg, H, W]] else []))"
    and "img_out m = [GroupNorm 32 (final_channels cfg), SiLU,
           Conv2d (model_channels cfg) (out_channels cfg) 3 1 1 True]"
proof -
  let ?L = "length (channel_mult cfg)"
  let ?s0 = "shape_locals cfg N (bottom_shape cfg N H W) (enc_skips cfg N H W)"
  from init obtain enc dec where parts:
    "self_model_channels m = model_channels cfg"
    "time_embed m = [Linear (model_channels cfg) (time_embed_dim cfg), SiLU,
       Linear (time_embed_dim cfg) (time_embed_dim cfg)]"
    "ParameterEncoder_init (param_dim cfg) (param_hidden_dim cfg) (param_hidden_dim cfg)
       (time_embed_dim cfg) = Inr (param_encoder m)"
    "encoder_init cfg = Inr enc" "down_blocks m = self_blocks enc"
    "middle_init cfg (ch enc) = Inr (middle_block m)"
    and dec: "decoder_init cfg enc = Inr dec" and ub: "up_blocks m = self_blocks dec"
    and io: "img_out m = [GroupNorm 32 (ch dec), SiLU,
       Conv2d (model_channels cfg) (out_channels cfg) 3 1 1 True]"
    by (rule UNet_init_parts)
  note trunk = trunk_forward_shape[OF valid parts]
  note b = encoder_init_bottom[OF valid parts(4)]
  have start: "dec_at cfg N ?s0 (enc\<lparr>self_blocks := []\<rparr>) (ch enc) (2 ^ (?L - 1))
      [N, ch enc, at_level H (?L - 1), at_level W (?L - 1)] (enc_skips cfg N H W)"
    by (simp add: dec_at_def b)
  have res: "dec_at cfg N ?s0 dec (final_channels cfg) (ds dec) [N, final_channels cfg, H, W]
      (if channel_mult cfg = [] then [[N, model_channels cfg, H, W]] else [])"
  proof (cases "channel_mult cfg = []")
    case True
    with dec have "dec = enc\<lparr>self_blocks := []\<rparr>" by (simp add: decoder_init_def)
    with start True b(1) show ?thesis
      by (simp add: final_channels_def enc_skips_def bottom_shape_def dec_at_def)
  next
    case False
    from start False have inv: "dec_at cfg N ?s0 (enc\<lparr>self_blocks := []\<rparr>) (ch enc) (2 ^ (?L - 1))
        [N, ch enc, at_level H (?L - 1), at_level W (?L - 1)] (skips_upto cfg N H W ?L)"
      by (simp add: enc_skips_def)
    from dec have loop: "efold (up_level_body cfg) (rev (enumerate 0 (take ?L (channel_mult cfg))))
        (enc\<lparr>self_blocks := []\<rparr>) = Inr dec"
      by (simp add: decoder_init_def)
    from valid b(4) have "0 \<le> ch enc" by (simp add: valid_run_def)
    from decoder_levels[OF valid le_refl inv loop this] False show ?thesis
      by (simp add: final_channels_def dec_at_def)
  qed
  from res have "efold (up_body shape_sem) (enumerate 0 (up_blocks m)) ?s0 =
      Inr (shape_locals cfg N [N, final_channels cfg, H, W]
             (if channel_mult cfg = [] then [[N, model_channels cfg, H, W]] else []))"
    by (simp add: dec_at_def ub)
  with trunk show "UNet_forward_locals shape_sem m [N, in_channels cfg, H, W] [N, param_dim cfg] [N] =
      Inr (shape_locals cfg N [N, final_channels cfg, H, W]
             (if channel_mult cfg = [] then [[N, model_channels cfg, H, W]] else []))"
    by (simp add: UNet_forward_locals_def)
  from res have "ch dec = final_channels cfg" by (simp add: dec_at_def)
  with io show "img_out m = [GroupNorm 32 (final_channels cfg), SiLU,
      Conv2d (model_channels cfg) (out_channels cfg) 3 1 1 True]"
    by simp
qed

lemma UNet_forward_shape:
  assumes valid: "valid_run cfg N H W" and init: "UNet_init cfg = Inr m"
    and first: "channel_mult cfg = [] \<or> channel_mult cfg ! 0 = 1"
  shows "UNet_forward shape_sem m [N, in_channels cfg, H, W] [N, param_dim cfg] [N] =
           Inr ([N, out_channels cfg, H, W], [N, param_dim cfg])"
proof -
  from init have po: "param_out m = Linear (param_hidden_dim cfg) (param_dim cfg)"
    by (rule UNet_init_parts)
  from valid have pos: "0 < H" "0 < W" by (simp_all add: valid_run_def)
  from first have fc: "final_channels cfg = model_channels cfg"
    by (auto simp: final_channels_def)
  from valid_run_several[OF valid _ coarsest_channels_final[OF valid], of 0]
  have sv: "N * model_channels cfg div 32 * (H * W) \<noteq> 1" by (simp add: fc)
  note l = UNet_forward_locals_shape[OF valid init]
  show ?thesis
    using pos sv by (simp add: UNet_forward_def l fc po shape_locals_def)
qed

lemma UNet_forward_head_fails:
  assumes valid: "valid_run cfg N H W" and init: "UNet_init cfg = Inr m"
    and first: "channel_mult cfg \<noteq> []" "channel_mult cfg ! 0 \<noteq> 1"
  shows "UNet_forward shape_sem m [N, in_channels cfg, H, W] [N, param_dim cfg] [N] = Inl RuntimeError"
    and "Sequential_forward shape_sem [Name ''img_out''] (img_out m)
           [N, model_channels cfg * channel_mult cfg ! 0, H, W] = Inl RuntimeError"
proof -
  from valid have pos: "0 < model_channels cfg" by (simp add: valid_run_def)
  from first have fc: "final_channels cfg = model_channels cfg * channel_mult cfg ! 0"
    by (simp add: final_channels_def)
  from pos first(2) have ne: "model_channels cfg * channel_mult cfg ! 0 \<noteq> model_channels cfg"
    by simp
  from valid_run_several[OF valid _ coarsest_channels_final[OF valid], of 0]
  have sv: "N * (model_channels cfg * channel_mult cfg ! 0) div 32 * (H * W) \<noteq> 1"
    by (simp add: fc)
  note l = UNet_forward_locals_shape[OF valid init]
  show "Sequential_forward shape_sem [Name ''img_out''] (img_out m)
      [N, model_channels cfg * channel_mult cfg ! 0, H, W] = Inl RuntimeError"
    using ne sv by (simp add: l fc)
  then show "UNet_forward shape_sem m [N, in_channels cfg, H, W] [N, param_dim cfg] [N] = Inl RuntimeError"
    by (simp add: UNet_forward_def l(1) fc shape_locals_def)
qed

lemma UNet_Energy_forward_shape:
  assumes valid: "valid_run cfg N H W" and init: "UNet_Energy_init cfg = Inr m"
  shows "UNet_Energy_forward shape_sem m [N, in_channels cfg, H, W] [N, param_dim cfg] prop [N] =
           Inr [N, prop_dim cfg]"
proof -
  from init obtain enc where parts:
    "self_model_channels m = model_channels cfg"
    "time_embed m = [Linear (model_channels cfg) (time_embed_dim cfg), SiLU,
       Linear (time_embed_dim cfg) (time_embed_dim cfg)]"
    "ParameterEncoder_init (param_dim cfg) (param_hidden_dim cfg) (param_hidden_dim cfg)
       (time_embed_dim cfg) = Inr (param_encoder m)"
    "encoder_init cfg = Inr enc" "down_blocks m = self_blocks enc"
    "middle_init cfg (ch enc) = Inr (middle_block m)"
    and pp: "property_predictor m = [AdaptiveAvgPool2d 1, Flatten, Linear (ch enc) (prop_hidden_dim cfg),
       SiLU, Linear (prop_hidden_dim cfg) (prop_dim cfg)]"
    by (rule UNet_Energy_init_parts)
  note trunk = trunk_forward_shape[OF valid parts]
  note b = encoder_init_bottom[OF valid parts(4)]
  show ?thesis
    by (simp add: UNet_Energy_forward_def trunk shape_locals_def b(1) pp)
qed

subsection \<open>The batch dimension through the encoder and the middle stage\<close>

lemma shape_nn_Conv2d_batch:
  "shape_nn (Conv2d i out k s p b) [N, c, h, w] = Inr y \<Longrightarrow>
     c = i \<and> k \<le> h + 2 * p \<and> k \<le> w + 2 * p \<and> y = [N, out, conv_out h k s p, conv_out w k s p]"
  by (auto split: if_splits)

lemma shape_nn_GroupNorm_batch:
  "shape_nn (GroupNorm g c) [N, C, h, w] = Inr y \<Longrightarrow> C = c \<and> y = [N, C, h, w]"
  by (auto split: if_splits)

lemma ResidualBlock_forward_batch:
  assumes rb: "ResidualBlock_init i out t p = Inr rb"
    and fw: "ResidualBlock_forward shape_sem pth rb [N, c, h, w] emb = Inr y"
  shows "y = [N, out, h, w]"
proof -
  from rb have rbf: "conv1 rb = [GroupNorm 32 i, SiLU, Conv2d i out 3 1 1 True]"
    "time_emb rb = [SiLU, Linear t out]"
    "conv2 rb = [GroupNorm 32 out, SiLU, Dropout p, Conv2d out out 3 1 1 True]"
    "shortcut rb = (if i \<noteq> out then Conv2d i out 1 1 0 True else Identity)"
    by (simp_all add: ResidualBlock_init_eq_Inr)
  from fw obtain h1 te te2 h2 h3 sc where
    1: "efold shape_nn (conv1 rb) [N, c, h, w] = Inr h1"
    and 4: "shape_iadd h1 te2 = Inr h2"
    and 5: "efold shape_nn (conv2 rb) h2 = Inr h3"
    and 6: "shape_nn (shortcut rb) [N, c, h, w] = Inr sc"
    and 7: "broadcast h3 sc = Inr y"
    by (auto simp: ResidualBlock_forward_def ebind_eq_Inr)
  from 1 have c: "c = i" and h1: "h1 = [N, out, h, w]"
    by (auto simp: rbf ebind_eq_Inr split: if_splits)
  from 4 have h2: "h2 = h1"
    by (auto simp: shape_iadd_def ebind_eq_Inr split: if_splits)
  from 5 have h3: "h3 = [N, out, h, w]"
    by (auto simp: rbf h2 h1 ebind_eq_Inr split: if_splits)
  from 6 have sc: "sc = [N, out, h, w]"
    by (auto simp: rbf c split: if_splits)
  from 7 show ?thesis by (simp add: h3 sc)
qed


lemma shape_reshape_nonneg:
  assumes "shape_reshape sh target = Inr r" and "\<forall>d \<in> set target. 0 \<le> d"
  shows "r = target"
proof -
  from assms(2) have "- 1 \<notin> set target" "\<not> (\<exists>d \<in> set target. d < - 1)"
    "filter (\<lambda>d. d = - 1) target = []"
    by (auto simp: filter_empty_conv)
  with assms(1) show ?thesis
    by (auto simp: shape_reshape_def Let_def split: if_splits)
qed

lemma shape_reshape_infer4:
  assumes "shape_reshape sh [a, - 1, c, d] = Inr r" and "0 \<le> a" and "0 \<le> c" and "0 \<le> d"
  shows "\<exists>b. r = [a, b, c, d]"
  using assms by (auto simp: shape_reshape_def Let_def split: if_splits)

lemma AttentionBlock_forward_batch:
  assumes ab: "AttentionBlock_init C0 nh = Inr ab"
    and fw: "AttentionBlock_forward shape_sem pth ab [B, C, H, W] = Inr y"
    and B: "0 \<le> B"
  shows "y = [B, C, H, W]"
proof -
  from ab have abf: "ab_num_heads ab = nh" "ab_norm ab = GroupNorm 32 C0"
    "ab_qkv ab = Conv2d C0 (C0 * 3) 1 1 0 False" "ab_proj ab = Conv2d C0 C0 1 1 0 True"
    by (simp_all add: AttentionBlock_init_eq_Inr)
  from fw obtain xn qkv h h1 h2 where
    1: "shape_nn (ab_norm ab) [B, C, H, W] = Inr xn"
    and 2: "shape_nn (ab_qkv ab) xn = Inr qkv"
    and 3: "shape_reshape h [B, - 1, H, W] = Inr h1"
    and 4: "shape_nn (ab_proj ab) h1 = Inr h2"
    and 5: "broadcast h2 [B, C, H, W] = Inr y"
    by (auto simp: AttentionBlock_forward_def ebind_eq_Inr case_three_eq_Inr)
  from 1 have C: "C = C0" and xn: "xn = [B, C, H, W]"
    by (auto simp: abf split: if_splits)
  from 2 have hw: "1 \<le> H" "1 \<le> W"
    by (auto simp: abf xn C split: if_splits)
  from shape_reshape_infer4[OF 3 B] hw obtain X where h1: "h1 = [B, X, H, W]"
    by auto
  from 4 have h2: "h2 = [B, C, H, W]"
    by (auto simp: abf h1 C split: if_splits)
  from 5 show ?thesis by (simp add: h2)
qed

lemma CrossModalAttentionBlock_forward_batch:
  assumes cm: "CrossModalAttentionBlock_init C0 pd nh = Inr cm"
    and fw: "CrossModalAttentionBlock_forward shape_sem pth cm [B, C, H, W] pf = Inr y"
    and B: "0 \<le> B"
  shows "y = [B, C, H, W]"
proof -
  from cm have cmf: "cm_num_heads cm = nh" "img_norm cm = GroupNorm 32 C0"
    "img_to_q cm = Conv2d C0 C0 1 1 0 False" "cm_proj cm = Conv2d C0 C0 1 1 0 True"
    and C0: "0 \<le> C0"
    by (simp_all add: CrossModalAttentionBlock_init_eq_Inr)
  from fw obtain imgn q0 h h1 h2 where
    1: "shape_nn (img_norm cm) [B, C, H, W] = Inr imgn"
    and 2: "shape_nn (img_to_q cm) imgn = Inr q0"
    and 3: "shape_reshape h [B, C, H, W] = Inr h1"
    and 4: "shape_nn (cm_proj cm) h1 = Inr h2"
    and 5: "broadcast h2 [B, C, H, W] = Inr y"
    by (auto simp: CrossModalAttentionBlock_forward_def ebind_eq_Inr case_two_eq_Inr)
  from 1 have C: "C = C0" and imgn: "imgn = [B, C, H, W]"
    by (auto simp: cmf split: if_splits)
  from 2 have hw: "1 \<le> H" "1 \<le> W"
    by (auto simp: cmf imgn C split: if_splits)
  from shape_reshape_nonneg[OF 3] B C0 hw have h1: "h1 = [B, C, H, W]"
    by (simp add: C)
  from 4 have h2: "h2 = [B, C, H, W]"
    by (auto simp: cmf h1 C split: if_splits)
  from 5 show ?thesis by (simp add: h2)
qed

lemma layer_forward_batch:
  assumes "built l" and "layer_forward shape_sem p l x emb pf = Inr y"
    and "batch_of N x" and "0 \<le> N"
  shows "batch_of N y"
proof -
  from assms(3) obtain c h w where x: "x = [N, c, h, w]" by (auto simp: batch_of_def)
  show ?thesis
  proof (cases l)
    case (Plain m)
    with assms(1,2) show ?thesis
      by (auto simp: x batch_of_def split: if_splits)
  next
    case (Res rb)
    with assms(1) obtain i out t q where "ResidualBlock_init i out t q = Inr rb" by auto
    from ResidualBlock_forward_batch[OF this, of p N c h w emb y] assms(2) Res show ?thesis
      by (simp add: x batch_of_def)
  next
    case (Attn ab)
    with assms(1) obtain C0 nh where "AttentionBlock_init C0 nh = Inr ab" by auto
    from AttentionBlock_forward_batch[OF this _ assms(4), of p c h w y] assms(2) Attn show ?thesis
      by (simp add: x batch_of_def)
  next
    case (Cross cm)
    with assms(1) obtain C0 pd nh where cm: "CrossModalAttentionBlock_init C0 pd nh = Inr cm" by auto
    from assms(2) Cross obtain pf' where "pf = Some pf'"
      by (cases pf) simp_all
    with CrossModalAttentionBlock_forward_batch[OF cm _ assms(4), of p c h w pf' y] assms(2) Cross
    show ?thesis
      by (simp add: x batch_of_def)
  next
    case (Up u)
    with assms(1,2) show ?thesis
      by (auto simp: x batch_of_def Upsample_init_def Upsample_forward_def shape_interpolate_def
          ebind_eq_Inr nn_eq_Inr split: if_splits)
  next
    case (Down d)
    with assms(1,2) show ?thesis
      by (auto simp: x batch_of_def Downsample_init_def Downsample_forward_def
          ebind_eq_Inr nn_eq_Inr split: if_splits)
  qed
qed

lemma efold_layer_forward_batch:
  "list_all built ls \<Longrightarrow> efold (\<lambda>l y. layer_forward shape_sem [] l y emb pf) ls x = Inr y \<Longrightarrow>
   batch_of N x \<Longrightarrow> 0 \<le> N \<Longrightarrow> batch_of N y"
proof (induction ls arbitrary: x)
  case Nil
  then show ?case by simp
next
  case (Cons l ls)
  from Cons.prems(2) obtain x1 where 1: "layer_forward shape_sem [] l x emb pf = Inr x1"
    and 2: "efold (\<lambda>l y. layer_forward shape_sem [] l y emb pf) ls x1 = Inr y"
    by (auto simp: ebind_eq_Inr)
  from Cons.prems(1) have b: "built l" "list_all built ls" by simp_all
  from layer_forward_batch[OF b(1) 1 Cons.prems(3,4)] have "batch_of N x1" .
  from Cons.IH[OF b(2) 2 this Cons.prems(4)] show ?case .
qed

lemma efold_down_body_batch:
  "\<forall>blk \<in> set blocks. list_all built blk \<Longrightarrow>
   efold (down_body shape_sem) (enumerate n blocks) st = Inr st' \<Longrightarrow>
   batch_of N (var_h st) \<Longrightarrow> 0 \<le> N \<Longrightarrow>
   batch_of N (var_h st') \<and> var_emb st' = var_emb st \<and> var_param_features st' = var_param_features st"
proof (induction blocks arbitrary: n st)
  case Nil
  then show ?case by simp
next
  case (Cons blk blocks)
  from Cons.prems(2) obtain st1 where 1: "down_body shape_sem (n, blk) st = Inr st1"
    and 2: "efold (down_body shape_sem) (enumerate (Suc n) blocks) st1 = Inr st'"
    by (auto simp: ebind_eq_Inr)
  from 1 obtain h where h: "efold (\<lambda>l y. layer_forward shape_sem [] l y (var_emb st)
        (Some (var_param_features st))) blk (var_h st) = Inr h"
    and st1: "st1 = st\<lparr>var_h := h, var_hs := var_hs st @ [h]\<rparr>"
    by (auto simp: down_body_def ebind_eq_Inr TimestepEmbedSequential_forward_shape)
  from Cons.prems(1) have b: "list_all built blk" "\<forall>blk \<in> set blocks. list_all built blk"
    by simp_all
  from efold_layer_forward_batch[OF b(1) h Cons.prems(3,4)] have "batch_of N (var_h st1)"
    by (simp add: st1)
  from Cons.IH[OF b(2) 2 this Cons.prems(4)] show ?case by (simp add: st1)
qed

lemma attention_layers_built:
  "attention_layers cfg c d = Inr al \<Longrightarrow> list_all built al"
  by (auto simp: attention_layers_def ebind_eq_Inr split: if_splits; blast)

lemma down_res_body_built:
  assumes "down_res_body cfg mult i st = Inr st'"
    and "\<forall>blk \<in> set (self_blocks st). list_all built blk"
  shows "\<forall>blk \<in> set (self_blocks st'). list_all built blk"
proof -
  from assms(1) obtain rb al where
    rb: "ResidualBlock_init (ch st) (mult * model_channels cfg) (time_embed_dim cfg) (dropout cfg) = Inr rb"
    and al: "attention_layers cfg (mult * model_channels cfg) (ds st) = Inr al"
    and st': "self_blocks st' = self_blocks st @ [Res rb # al]"
    by (auto simp: down_res_body_def ebind_eq_Inr)
  from rb have "built (Res rb)" by (simp, blast)
  with attention_layers_built[OF al] assms(2) show ?thesis
    by (simp add: st')
qed

lemma efold_down_res_body_built:
  "efold (down_res_body cfg mult) is st = Inr st' \<Longrightarrow>
   \<forall>blk \<in> set (self_blocks st). list_all built blk \<Longrightarrow>
   \<forall>blk \<in> set (self_blocks st'). list_all built blk"
proof (induction "is" arbitrary: st)
  case Nil
  then show ?case by simp
next
  case (Cons i "is")
  from Cons.prems(1) obtain st1 where 1: "down_res_body cfg mult i st = Inr st1"
    and 2: "efold (down_res_body cfg mult) is st1 = Inr st'"
    by (auto simp: ebind_eq_Inr)
  from Cons.IH[OF 2 down_res_body_built[OF 1 Cons.prems(2)]] show ?case .
qed

lemma down_level_body_built:
  assumes "down_level_body cfg lm st = Inr st'"
    and "\<forall>blk \<in> set (self_blocks st). list_all built blk"
  shows "\<forall>blk \<in> set (self_blocks st'). list_all built blk"
proof -
  from assms(1) obtain st1 where
    1: "efold (down_res_body cfg (snd lm)) (py_range (num_res_blocks cfg)) st = Inr st1"
    and 2: "st' = st1 \<or> (\<exists>d. Downsample_init (ch st1) (conv_resample cfg) = Inr d \<and>
        self_blocks st' = self_blocks st1 @ [[Down d]])"
    by (auto simp: down_level_body_def ebind_eq_Inr split: if_splits)
  from efold_down_res_body_built[OF 1 assms(2)] 2 show ?thesis by (auto; blast)
qed

lemma efold_down_level_body_built:
  "efold (down_level_body cfg) lms st = Inr st' \<Longrightarrow>
   \<forall>blk \<in> set (self_blocks st). list_all built blk \<Longrightarrow>
   \<forall>blk \<in> set (self_blocks st'). list_all built blk"
proof (induction lms arbitrary: st)
  case Nil
  then show ?case by simp
next
  case (Cons lm lms)
  from Cons.prems(1) obtain st1 where 1: "down_level_body cfg lm st = Inr st1"
    and 2: "efold (down_level_body cfg) lms st1 = Inr st'"
    by (auto simp: ebind_eq_Inr)
  from Cons.IH[OF 2 down_level_body_built[OF 1 Cons.prems(2)]] show ?case .
qed

lemma encoder_init_built:
  assumes "encoder_init cfg = Inr enc"
  shows "\<forall>blk \<in> set (self_blocks enc). list_all built blk"
  using assms
  by (auto simp: encoder_init_def ebind_eq_Inr nn_eq_Inr dest!: efold_down_level_body_built)

lemma middle_init_built:
  assumes "middle_init cfg c = Inr mid"
  shows "list_all built mid"
  using assms by (auto simp: middle_init_def ebind_eq_Inr split: if_splits; blast)

lemma UNet_Energy_forward_batch:
  assumes init: "UNet_Energy_init cfg = Inr m"
    and fw: "UNet_Energy_forward shape_sem m [N, c, h, w] params prop timesteps = Inr out"
    and N: "0 \<le> N"
  shows "out = [N, prop_dim cfg]"
proof -
  from init obtain enc where enc: "encoder_init cfg = Inr enc"
    and db: "down_blocks m = self_blocks enc"
    and mid: "middle_init cfg (ch enc) = Inr (middle_block m)"
    and pp: "property_predictor m = [AdaptiveAvgPool2d 1, Flatten, Linear (ch enc) (prop_hidden_dim cfg),
       SiLU, Linear (prop_hidden_dim cfg) (prop_dim cfg)]"
    by (rule UNet_Energy_init_parts)
  from fw obtain st where t: "trunk_forward shape_sem m [N, c, h, w] params timesteps = Inr st"
    and o: "efold shape_nn (property_predictor m) (var_h st) = Inr out"
    by (auto simp: UNet_Energy_forward_def ebind_eq_Inr)
  from t obtain emb pf st1 hm where
    1: "efold (down_body shape_sem) (enumerate 0 (down_blocks m))
          \<lparr>var_h = [N, c, h, w], var_hs = [], var_emb = emb, var_param_features = pf\<rparr> = Inr st1"
    and 2: "efold (\<lambda>l y. layer_forward shape_sem [] l y (var_emb st1) (Some (var_param_features st1)))
          (middle_block m) (var_h st1) = Inr hm"
    and st: "st = st1\<lparr>var_h := hm\<rparr>"
    by (auto simp: trunk_forward_def ebind_eq_Inr TimestepEmbedSequential_forward_shape)
  have "batch_of N [N, c, h, w]" by (simp add: batch_of_def)
  with efold_down_body_batch[OF encoder_init_built[OF enc, folded db] 1] N
  have "batch_of N (var_h st1)" by simp
  from efold_layer_forward_batch[OF middle_init_built[OF mid] 2 this N]
  obtain c' h' w' where "var_h st = [N, c', h', w']"
    by (auto simp: st batch_of_def)
  with o show ?thesis
    by (auto simp: pp ebind_eq_Inr split: if_splits)
qed

subsection \<open>The skip stack and the parameter path, for any tensor semantics\<close>

lemma valid_runI: "valid_config cfg \<Longrightarrow> valid_input cfg N H W \<Longrightarrow> valid_run cfg N H W"
  by (simp add: valid_config_def valid_input_def valid_run_def)

lemma down_body_keeps:
  assumes "down_body sem ib st = Inr st'"
  shows "var_emb st' = var_emb st" and "var_param_features st' = var_param_features st"
    and "\<exists>h. var_hs st' = var_hs st @ [h]"
  using assms by (auto simp: down_body_def ebind_eq_Inr)

lemma efold_down_body_keeps:
  "efold (down_body sem) ibs st = Inr st' \<Longrightarrow>
   var_emb st' = var_emb st \<and> var_param_features st' = var_param_features st \<and>
   (\<exists>new. var_hs st' = var_hs st @ new \<and> length new = length ibs)"
proof (induction ibs arbitrary: st)
  case Nil
  then show ?case by simp
next
  case (Cons ib ibs)
  from Cons.prems obtain st1 where 1: "down_body sem ib st = Inr st1"
    and 2: "efold (down_body sem) ibs st1 = Inr st'"
    by (auto simp: ebind_eq_Inr)
  from down_body_keeps[OF 1] Cons.IH[OF 2] show ?case by auto
qed

lemma trunk_forward_keeps:
  assumes "trunk_forward sem m x params timesteps = Inr st"
  shows "length (var_hs st) = length (down_blocks m)"
    and "\<exists>te. t_timestep_embedding sem timesteps (self_model_channels m) = Inr te \<and>
           Sequential_forward sem [Name ''time_embed''] (time_embed m) te = Inr (var_emb st)"
    and "ParameterEncoder_forward sem [Name ''param_encoder''] (param_encoder m) params (var_emb st)
           = Inr (var_param_features st)"
proof -
  from assms obtain te emb pf st1 h where te: "t_timestep_embedding sem timesteps (self_model_channels m) = Inr te"
    and emb: "Sequential_forward sem [Name ''time_embed''] (time_embed m) te = Inr emb"
    and pf: "ParameterEncoder_forward sem [Name ''param_encoder''] (param_encoder m) params emb = Inr pf"
    and loop: "efold (down_body sem) (enumerate 0 (down_blocks m))
              \<lparr>var_h = x, var_hs = [], var_emb = emb, var_param_features = pf\<rparr> = Inr st1"
    and st: "st = st1\<lparr>var_h := h\<rparr>"
    by (auto simp: trunk_forward_def ebind_eq_Inr)
  from efold_down_body_keeps[OF loop] st
  have k: "var_emb st = emb" "var_param_features st = pf" "length (var_hs st) = length (down_blocks m)"
    by auto
  from k show "length (var_hs st) = length (down_blocks m)" by simp
  from te emb k show "\<exists>te. t_timestep_embedding sem timesteps (self_model_channels m) = Inr te \<and>
           Sequential_forward sem [Name ''time_embed''] (time_embed m) te = Inr (var_emb st)"
    by auto
  from pf k show "ParameterEncoder_forward sem [Name ''param_encoder''] (param_encoder m) params (var_emb st)
           = Inr (var_param_features st)"
    by simp
qed

lemma up_body_keeps:
  assumes "up_body sem ib st = Inr st'"
  shows "var_emb st' = var_emb st" and "var_param_features st' = var_param_features st"
    and "var_hs st \<noteq> []" and "var_hs st' = butlast (var_hs st)"
    and "up_stage sem (var_emb st) (var_param_features st) (ib, last (var_hs st)) (var_h st)
           = Inr (var_h st')"
  using assms by (auto simp: up_body_def up_stage_def ebind_eq_Inr split: if_splits)

lemma efold_up_body_lifo:
  "efold (up_body sem) ibs st = Inr st' \<Longrightarrow>
   var_emb st' = var_emb st \<and> var_param_features st' = var_param_features st \<and>
   length ibs \<le> length (var_hs st) \<and>
   var_hs st' = take (length (var_hs st) - length ibs) (var_hs st) \<and>
   efold (up_stage sem (var_emb st) (var_param_features st))
     (zip ibs (rev (drop (length (var_hs st) - length ibs) (var_hs st)))) (var_h st)
     = Inr (var_h st')"
proof (induction ibs arbitrary: st)
  case Nil
  then show ?case by simp
next
  case (Cons ib ibs)
  from Cons.prems obtain st1 where 1: "up_body sem ib st = Inr st1"
    and 2: "efold (up_body sem) ibs st1 = Inr st'"
    by (auto simp: ebind_eq_Inr)
  note k = up_body_keeps[OF 1]
  note ih = Cons.IH[OF 2]
  let ?hs = "var_hs st" and ?n = "length ibs"
  from k(3) have len: "length (butlast ?hs) = length ?hs - 1" by simp
  from ih k have le: "?n \<le> length ?hs - 1" by simp
  with k(3) have le': "Suc ?n \<le> length ?hs"
    by (cases ?hs) simp_all
  from k(3) have "length ?hs - Suc ?n < length ?hs"
    by (cases ?hs) simp_all
  then have tk: "take (length ?hs - Suc ?n) (butlast ?hs) = take (length ?hs - Suc ?n) ?hs"
    by (simp add: take_butlast)
  have dr: "rev (drop (length ?hs - Suc ?n) ?hs) =
      last ?hs # rev (drop (length ?hs - Suc ?n) (butlast ?hs))"
  proof -
    from k(3) have hs: "?hs = butlast ?hs @ [last ?hs]" by simp
    have "drop (length ?hs - Suc ?n) ?hs = drop (length ?hs - Suc ?n) (butlast ?hs @ [last ?hs])"
      using hs by simp
    also have "\<dots> = drop (length ?hs - Suc ?n) (butlast ?hs) @ [last ?hs]"
      using le' by simp
    finally show ?thesis by simp
  qed
  from ih k le' show ?case
    by (simp add: tk dr)
qed

subsection \<open>Numbers of encoder and decoder stages\<close>

lemma efold_down_res_body_length:
  "efold (down_res_body cfg mult) is st = Inr st' \<Longrightarrow>
   length (self_blocks st') = length (self_blocks st) + length is"
proof (induction "is" arbitrary: st)
  case Nil
  then show ?case by simp
next
  case (Cons i "is")
  from Cons.prems obtain st1 where 1: "down_res_body cfg mult i st = Inr st1"
    and 2: "efold (down_res_body cfg mult) is st1 = Inr st'"
    by (auto simp: ebind_eq_Inr)
  from 1 have "length (self_blocks st1) = Suc (length (self_blocks st))"
    by (auto simp: down_res_body_def ebind_eq_Inr)
  with Cons.IH[OF 2] show ?case by simp
qed

lemma down_level_body_length:
  assumes "down_level_body cfg (l, mult) st = Inr st'"
  shows "length (self_blocks st') =
           length (self_blocks st) + nat (num_res_blocks cfg) +
           (if Suc l = length (channel_mult cfg) then 0 else 1)"
proof -
  from assms obtain st1 where
    1: "efold (down_res_body cfg mult) (py_range (num_res_blocks cfg)) st = Inr st1"
    and 2: "(if int l \<noteq> int (length (channel_mult cfg)) - 1
     then ebind (Downsample_init (ch st1) (conv_resample cfg)) (\<lambda>d.
          Inr (st1\<lparr>self_blocks := self_blocks st1 @ [[Down d]],
                  down_block_chans := down_block_chans st1 @ [ch st1],
                  ds := ds st1 * 2\<rparr>))
     else Inr st1) = Inr st'"
    by (auto simp: down_level_body_def ebind_eq_Inr)
  have c: "int l \<noteq> int (length (channel_mult cfg)) - 1 \<longleftrightarrow> Suc l \<noteq> length (channel_mult cfg)"
    by auto
  from efold_down_res_body_length[OF 1]
  have "length (self_blocks st1) = length (self_blocks st) + nat (num_res_blocks cfg)"
    by (simp add: py_range_def)
  with 2 show ?thesis
    unfolding c by (auto simp: ebind_eq_Inr split: if_splits)
qed

lemma efold_down_level_body_length:
  "k + length xs = length (channel_mult cfg) \<Longrightarrow>
   efold (down_level_body cfg) (enumerate k xs) st = Inr st' \<Longrightarrow>
   length (self_blocks st') =
     length (self_blocks st) + length xs * nat (num_res_blocks cfg) + (length xs - 1)"
proof (induction xs arbitrary: k st)
  case Nil
  then show ?case by simp
next
  case (Cons x xs)
  from Cons.prems(2) obtain st1 where 1: "down_level_body cfg (k, x) st = Inr st1"
    and 2: "efold (down_level_body cfg) (enumerate (Suc k) xs) st1 = Inr st'"
    by (auto simp: ebind_eq_Inr)
  from Cons.prems(1) have e: "Suc k + length xs = length (channel_mult cfg)" by simp
  from Cons.prems(1) have last: "Suc k = length (channel_mult cfg) \<longleftrightarrow> xs = []"
    by (cases xs) auto
  from down_level_body_length[OF 1] Cons.IH[OF e 2] show ?case
    unfolding last by (cases xs) simp_all
qed

lemma encoder_init_length:
  assumes "encoder_init cfg = Inr enc"
  shows "length (self_blocks enc) =
           1 + length (channel_mult cfg) * nat (num_res_blocks cfg) + (length (channel_mult cfg) - 1)"
  using assms
  by (auto simp: encoder_init_def ebind_eq_Inr dest!: efold_down_level_body_length[rotated])

lemma decoder_init_length:
  assumes "decoder_init cfg st = Inr dec"
  shows "length (self_blocks dec) = length (channel_mult cfg) * nat (num_res_blocks cfg + 1)"
proof -
  have "\<forall>xs \<in> set (map (stage_flags cfg) (rev (enumerate 0 (channel_mult cfg)))).
      length xs = nat (num_res_blocks cfg + 1)"
    by (auto simp: length_stage_flags)
  from length_concat_uniform[OF this] arg_cong[OF decoder_flags[OF assms], of length]
  show ?thesis by simp
qed

lemma UNet_init_lengths:
  assumes "UNet_init cfg = Inr m"
  shows "length (down_blocks m) =
           1 + length (channel_mult cfg) * nat (num_res_blocks cfg) + (length (channel_mult cfg) - 1)"
    and "length (up_blocks m) = length (channel_mult cfg) * nat (num_res_blocks cfg + 1)"
proof -
  from assms obtain enc dec where "encoder_init cfg = Inr enc" "down_blocks m = self_blocks enc"
    "decoder_init cfg enc = Inr dec" "up_blocks m = self_blocks dec"
    by (rule UNet_init_parts)
  then show "length (down_blocks m) =
      1 + length (channel_mult cfg) * nat (num_res_blocks cfg) + (length (channel_mult cfg) - 1)"
    and "length (up_blocks m) = length (channel_mult cfg) * nat (num_res_blocks cfg + 1)"
    by (simp_all add: encoder_init_length decoder_init_length)
qed

lemma balanced_lengths:
  assumes "xs \<noteq> []" and "0 \<le> (n::int)"
  shows "1 + length xs * nat n + (length xs - 1) = length xs * nat (n + 1)"
proof -
  from assms(1) have "1 + (length xs - 1) = length xs" by (cases xs) simp_all
  moreover from assms(2) have "nat (n + 1) = Suc (nat n)" by simp
  ultimately show ?thesis by simp
qed

lemma UNet_forward_locals_stack:
  assumes "UNet_forward_locals sem m x params timesteps = Inr st'"
  obtains st where "trunk_forward sem m x params timesteps = Inr st"
    and "length (var_hs st) = length (down_blocks m)"
    and "length (up_blocks m) \<le> length (var_hs st)"
    and "var_hs st' = take (length (var_hs st) - length (up_blocks m)) (var_hs st)"
    and "up_stages_lifo sem (var_emb st) (var_param_features st) (up_blocks m)
           (drop (length (var_hs st) - length (up_blocks m)) (var_hs st)) (var_h st)
         = Inr (var_h st')"
    and "var_param_features st' = var_param_features st"
proof -
  from assms obtain st where t: "trunk_forward sem m x params timesteps = Inr st"
    and u: "efold (up_body sem) (enumerate 0 (up_blocks m)) st = Inr st'"
    by (auto simp: UNet_forward_locals_def ebind_eq_Inr)
  from efold_up_body_lifo[OF u] trunk_forward_keeps(1)[OF t] t show ?thesis
    by (intro that[of st]) (simp_all add: up_stages_lifo_def)
qed

subsection \<open>The concrete configurations\<close>

lemma scenario_valid:
  "valid_config cfg_scenario" "valid_input cfg_scenario 2 16 16" "valid_input cfg_scenario 2 32 32"
  by (simp_all add: valid_config_def valid_input_def cfg_scenario_def at_level_def
      coarsest_channels_def chan_before_def chan_after_def)

lemma isr_UNet_init_wide: "\<exists>m. UNet_init cfg_wide = Inr m"
proof -
  have "\<not> isl (UNet_init cfg_wide)" by code_simp
  then show ?thesis by (cases "UNet_init cfg_wide") auto
qed

lemma wide_valid: "valid_config cfg_wide" "valid_input cfg_wide 2 16 16"
  by (simp_all add: valid_config_def valid_input_def cfg_wide_def cfg_scenario_def at_level_def
      coarsest_channels_def chan_before_def chan_after_def)

lemma isr_UNet_init_flat: "\<exists>m. UNet_init cfg_flat = Inr m"
proof -
  have "\<not> isl (UNet_init cfg_flat)" by code_simp
  then show ?thesis by (cases "UNet_init cfg_flat") auto
qed

lemma flat_valid: "valid_config cfg_flat" "valid_input cfg_flat 2 16 16"
  by (simp_all add: valid_config_def valid_input_def cfg_flat_def cfg_scenario_def at_level_def
      coarsest_channels_def chan_before_def chan_after_def)

lemma energy_valid: "valid_config energy_scenario" "valid_input energy_scenario 2 16 16"
  by (simp_all add: valid_config_def valid_input_def energy_scenario_def cfg_scenario_def config.defs at_level_def
      coarsest_channels_def chan_before_def chan_after_def)

subsection \<open>The timestep embedding and the softmax, over the reals\<close>

lemma timestep_embedding_structure:
  assumes mp: "0 < max_period" and d: "0 \<le> dm" and b: "b < length timesteps"
  shows "\<exists>e. timestep_embedding timesteps dm max_period = Inr e \<and> length e = length timesteps \<and>
           length (e ! b) = nat (dm div 2) * 2 + (if dm mod 2 \<noteq> 0 then min 1 (nat (dm div 2) * 2) else 0) \<and>
           (\<forall>i < nat (dm div 2).
              e ! b ! i = cos (timesteps ! b * exp (- ln max_period * real i / real_of_int (dm div 2))) \<and>
              e ! b ! (nat (dm div 2) + i) =
                sin (timesteps ! b * exp (- ln max_period * real i / real_of_int (dm div 2)))) \<and>
           (dm mod 2 \<noteq> 0 \<longrightarrow> 2 \<le> dm \<longrightarrow> e ! b ! (nat (dm div 2) * 2) = 0)"
proof -
  let ?half = "dm div 2"
  define freqs where "freqs = map (\<lambda>i. exp (- ln max_period * real i / real_of_int ?half)) [0..<nat ?half]"
  define row where "row t = map cos (map (\<lambda>f. t * f) freqs) @ map sin (map (\<lambda>f. t * f) freqs)" for t
  define pad where "pad r = r @ map (\<lambda>v. 0::real) (take 1 r)" for r :: "real list"
  from d have h: "\<not> ?half < 0" by simp
  have te: "timestep_embedding timesteps dm max_period =
      Inr (if dm mod 2 \<noteq> 0 then map (\<lambda>t. pad (row t)) timesteps else map row timesteps)"
    using mp h
    by (simp add: timestep_embedding_def Let_def freqs_def row_def pad_def o_def)
  have len: "length (row t) = nat ?half * 2" for t
    by (simp add: row_def freqs_def)
  have cs: "row t ! i = cos (t * exp (- ln max_period * real i / real_of_int ?half))"
    "row t ! (nat ?half + i) = sin (t * exp (- ln max_period * real i / real_of_int ?half))"
    if "i < nat ?half" for t i
    using that by (simp_all add: row_def freqs_def nth_append)
  have plen: "length (pad r) = length r + min 1 (length r)" for r
    by (simp add: pad_def min.commute)
  have pnth: "pad r ! i = r ! i" if "i < length r" for r i
    using that by (simp add: pad_def nth_append)
  have pz: "pad r ! length r = 0" if "0 < length r" for r
    using that by (cases r) (simp_all add: pad_def nth_append)
  show ?thesis
  proof (cases "dm mod 2 \<noteq> 0")
    case False
    with b cs show ?thesis
      by (simp add: te len)
  next
    case True
    have z: "pad (row t) ! (nat ?half * 2) = 0" if "2 \<le> dm" for t
    proof -
      from that have "0 < length (row t)" by (simp add: len)
      from pz[OF this] show ?thesis by (simp add: len)
    qed
    have c: "pad (row t) ! i = cos (t * exp (- ln max_period * real i / real_of_int ?half))"
      "pad (row t) ! (nat ?half + i) = sin (t * exp (- ln max_period * real i / real_of_int ?half))"
      if "i < nat ?half" for t i
      using that cs[OF that, of t] by (simp_all add: pnth len)
    from True b c z show ?thesis
      by (simp add: te plen len)
  qed
qed

lemma shape_timestep_embedding_agrees:
  assumes "0 < max_period" and "0 \<le> dm"
  shows "\<exists>e c. timestep_embedding timesteps dm max_period = Inr e \<and>
           shape_timestep_embedding [int (length timesteps)] dm = Inr [int (length e), c] \<and>
           (\<forall>b < length e. int (length (e ! b)) = c)"
proof -
  let ?c = "nat (dm div 2) * 2 + (if dm mod 2 \<noteq> 0 then min 1 (nat (dm div 2) * 2) else 0)"
  from assms have "\<exists>e. timestep_embedding timesteps dm max_period = Inr e"
    by (simp add: timestep_embedding_def Let_def)
  then obtain e where e: "timestep_embedding timesteps dm max_period = Inr e" ..
  have len: "length e = length timesteps"
    using e by (auto simp: timestep_embedding_def Let_def split: if_splits)
  have row: "length (e ! b) = ?c" if "b < length e" for b
    using timestep_embedding_structure[OF assms, of b timesteps] that e len by auto
  have "shape_timestep_embedding [int (length timesteps)] dm = Inr [int (length e), int ?c]"
    using assms(2) by (simp add: shape_timestep_embedding_def Let_def len min_def)
  with e row show ?thesis by auto
qed

lemma real_sem_simps [simp]:
  "t_shape (real_sem base) = rshape"
  "t_reshape (real_sem base) = real_reshape"
  "t_mul (real_sem base) = real_mul"
  "t_einsum (real_sem base) = real_einsum"
  "t_softmax (real_sem base) = real_softmax"
  "nn_forward (real_sem base) = nn_forward base"
  "t_add (real_sem base) = t_add base"
  "t_chunk (real_sem base) = t_chunk base"
  "t_unsqueeze (real_sem base) = t_unsqueeze base"
  by (simp_all add: real_sem_def)

lemma real_reshape_exact:
  assumes "real_reshape a target = Inr r" and "\<forall>d \<in> set target. 0 \<le> d"
  shows "rshape r = target"
proof -
  from assms(2) have "- 1 \<notin> set target" "\<not> (\<exists>d \<in> set target. d < - 1)"
    "filter (\<lambda>d. d = - 1) target = []"
    by (auto simp: filter_empty_conv)
  with assms(1) show ?thesis
    by (auto simp: real_reshape_def shape_reshape_def Let_def ebind_eq_Inr split: if_splits)
qed

lemma cross_attention_weights_real:
  assumes w: "cross_attention_weights (real_sem base) C nh q k = Inr w"
    and q: "rshape q = [Bn, Cn, T]" and k: "rshape k = [Bn, Cn, 1]"
  shows "rshape w = [Bn, T, 1]"
    and "\<exists>scale. attention_scale C nh = Inr scale \<and>
           (\<forall>b < nat Bn. \<forall>t. rat w [b, t, 0] =
              exp (attention_logit q k scale b t) / (\<Sum>t'<nat T. exp (attention_logit q k scale b t')))"
proof -
  from w obtain scale qs ks attn where sc: "attention_scale C nh = Inr scale"
    and m: "real_mul q scale = Inr qs" "real_mul k scale = Inr ks"
    and e: "real_einsum bct_bcs_bts qs ks = Inr attn"
    and s: "real_softmax attn 1 = Inr w"
    by (auto simp: cross_attention_weights_def ebind_eq_Inr simp del: real_einsum.simps)
  from m q k have qs: "rshape qs = [Bn, Cn, T]" "\<And>i. rat qs i = rat q i * scale"
    and ks: "rshape ks = [Bn, Cn, 1]" "\<And>i. rat ks i = rat k i * scale"
    by (auto simp: real_mul_def)
  from e have "attn = \<lparr>rshape = [Bn, T, 1],
      rat = (\<lambda>i. case i of
         [bi, ti, si] \<Rightarrow>
           (\<Sum>ci<nat Cn. rat qs [bidx Bn bi, bidx Cn ci, ti] * rat ks [bidx Bn bi, bidx Cn ci, si])
       | _ \<Rightarrow> 0)\<rparr>"
    by (simp add: qs(1) ks(1))
  then have attn: "rshape attn = [Bn, T, 1]"
    "\<And>b t. rat attn [b, t, 0] =
       (\<Sum>c<nat Cn. (rat q [bidx Bn b, bidx Cn c, t] * scale) * (rat k [bidx Bn b, bidx Cn c, 0] * scale))"
    by (simp_all add: qs(2) ks(2))
  from s attn(1) have ws: "rshape w = [Bn, T, 1]"
    and wat: "\<And>i. rat w i = exp (rat attn i) / (\<Sum>j<nat T. exp (rat attn (i[1 := j])))"
    by (auto simp: real_softmax_def norm_dim_def)
  show "rshape w = [Bn, T, 1]" by (rule ws)
  have lg: "rat attn [b, t, 0] = attention_logit q k scale b t" if "b < nat Bn" for b t
  proof -
    from that have b: "bidx Bn b = b" by (auto simp: bidx_def)
    have "(\<Sum>c<nat Cn. (rat q [b, bidx Cn c, t] * scale) * (rat k [b, bidx Cn c, 0] * scale)) =
        (\<Sum>c<nat Cn. (rat q [b, c, t] * scale) * (rat k [b, c, 0] * scale))"
      by (rule sum.cong) (auto simp: bidx_def)
    then show ?thesis by (simp add: attn(2) b attention_logit_def q)
  qed
  have "rat w [b, t, 0] =
      exp (attention_logit q k scale b t) / (\<Sum>t'<nat T. exp (attention_logit q k scale b t'))"
    if "b < nat Bn" for b t
    by (simp add: wat lg[OF that])
  with sc show "\<exists>scale. attention_scale C nh = Inr scale \<and>
           (\<forall>b < nat Bn. \<forall>t. rat w [b, t, 0] =
              exp (attention_logit q k scale b t) / (\<Sum>t'<nat T. exp (attention_logit q k scale b t')))"
    by blast
qed


lemma attention_scale_Inr:
  assumes "attention_scale C nh = Inr scale"
  shows "nh \<noteq> 0" and "0 < C div nh" and "scale = 1 / sqrt (sqrt (real_of_int (C div nh)))"
  using assms by (auto simp: attention_scale_def floordiv_def ebind_eq_Inr split: if_splits)

lemma softmax_sums_to_one:
  assumes "0 < (T::nat)"
  shows "(\<Sum>t<T. exp (f t) / (\<Sum>t'<T. exp (f t'))) = (1::real)"
    and "0 < exp (f t) / (\<Sum>t'<T. exp (f t'))"
proof -
  have pos: "0 < (\<Sum>t'<T. exp (f t'))"
    using assms by (intro sum_pos) (simp_all add: lessThan_empty_iff)
  have "(\<Sum>t<T. exp (f t) / (\<Sum>t'<T. exp (f t'))) = (\<Sum>t<T. exp (f t)) / (\<Sum>t'<T. exp (f t'))"
    by (rule sum_divide_distrib[symmetric])
  with pos show "(\<Sum>t<T. exp (f t) / (\<Sum>t'<T. exp (f t'))) = 1" by simp
  from pos show "0 < exp (f t) / (\<Sum>t'<T. exp (f t'))" by simp
qed

lemma ramp_sem_simps [simp]:
  "nn_forward ramp_sem p m x = ebind (shape_nn m (rshape x)) (\<lambda>sh. Inr (ramp sh))"
  "t_add ramp_sem a b = ebind (broadcast (rshape a) (rshape b)) (\<lambda>sh. Inr (ramp sh))"
  "t_chunk ramp_sem a n d = ebind (shape_chunk (rshape a) n d) (\<lambda>shs. Inr (map ramp shs))"
  "t_unsqueeze ramp_sem a d = ebind (shape_unsqueeze (rshape a) d) (\<lambda>sh. Inr (ramp sh))"
  by (simp_all add: ramp_sem_def)

lemma rshape_ramp [simp]: "rshape (ramp sh) = sh"
  by (simp add: ramp_def)

lemma cross_forward_ramp:
  assumes "CrossModalAttentionBlock_init 32 16 2 = Inr cm"
  shows "\<exists>out. CrossModalAttentionBlock_forward (real_sem ramp_sem) [] cm
           (ramp [1, 32, 1, 2]) (ramp [1, 16]) = Inr out"
proof -
  from assms have cm: "cm_num_heads cm = 2" "img_norm cm = GroupNorm 32 32"
    "img_to_q cm = Conv2d 32 32 1 1 0 False" "param_norm cm = LayerNorm 16"
    "param_to_kv cm = Linear 16 64" "cm_proj cm = Conv2d 32 32 1 1 0 True"
    by (simp_all add: CrossModalAttentionBlock_init_eq_Inr)
  have ch: "shape_chunk [1, 64] 2 1 = Inr [[1, 32], [1, 32]]"
    using chunk2[of 32 1] by simp
  show ?thesis
    by (simp add: CrossModalAttentionBlock_forward_def cross_attention_weights_def cm ch
        floordiv_def attention_scale_def real_reshape_def shape_reshape_def real_mul_def
        real_softmax_def norm_dim_def shape_unsqueeze_def bdim_def Let_def)
qed

subsection \<open>C1: the shapes that the joint model returns\<close>

text \<open>
  C1 (as amended). For every configuration that \<^verbatim>\<open>UNet\<close> can be constructed from, with
  positive sizes and \<^verbatim>\<open>channel_mult[0] == 1\<close> when there is a stage at all (the head requires
  it, see C2), and every input batch (an image of shape \<open>(N, in_channels, H, W)\<close> with \<open>N\<close>,
  \<open>H\<close> and \<open>W\<close> positive, \<open>H\<close> and \<open>W\<close> divisible by \<open>2\<close> to the number \<open>L - 1\<close> of downsample
  stages, and more than one value in every normalisation group, that is
  \<open>N * (c // 32) * (H / 2 ^ (L - 1)) * (W / 2 ^ (L - 1)) > 1\<close> for the smallest number \<open>c\<close> of
  channels normalised at the coarsest level, \<open>coarsest_channels\<close>; parameters of shape
  \<open>(N, param_dim)\<close>; timesteps of shape \<open>(N,)\<close>), \<^verbatim>\<open>UNet.forward\<close> returns a pair of an image
  output of shape \<open>(N, out_channels, H, W)\<close> and a parameter output of shape
  \<open>(N, param_dim)\<close>.
\<close>

theorem UNet_forward_shapes:
  assumes "UNet_init cfg = Inr m" and "valid_config cfg" and "valid_input cfg N H W"
    and "channel_mult cfg = [] \<or> channel_mult cfg ! 0 = 1"
  shows "UNet_forward shape_sem m [N, in_channels cfg, H, W] [N, param_dim cfg] [N] =
           Inr ([N, out_channels cfg, H, W], [N, param_dim cfg])"
  using assms by (intro UNet_forward_shape valid_runI)

theorem UNet_forward_shapes_witness:
  "\<exists>m. UNet_init cfg_scenario = Inr m \<and> valid_config cfg_scenario \<and>
     valid_input cfg_scenario 2 16 16 \<and> channel_mult cfg_scenario ! 0 = 1 \<and>
     UNet_forward shape_sem m [2, 1, 16, 16] [2, 4] [2] = Inr ([2, 1, 16, 16], [2, 4])"
proof -
  obtain m where m: "UNet_init cfg_scenario = Inr m"
    using isr_UNet_init_scenario by blast
  have f: "channel_mult cfg_scenario ! 0 = 1" by (simp add: cfg_scenario_def)
  from UNet_forward_shapes[OF m scenario_valid(1,2)] f
  have "UNet_forward shape_sem m [2, 1, 16, 16] [2, 4] [2] = Inr ([2, 1, 16, 16], [2, 4])"
    by (simp add: cfg_scenario_def)
  with m scenario_valid f show ?thesis by blast
qed

text \<open>
  C1 as stated fails, in two ways. In the scenario, one image of 2 by 2 pixels has a
  height and a width divisible by 2, as the one downsample stage requires; yet the
  forward pass raises ValueError: after the downsampling, the first residual block of
  level 1 normalises a tensor of shape \<open>(1, 32, 1, 1)\<close>, which holds a single value for each
  of the 32 groups. And \<^verbatim>\<open>channel_mult=(2,2)\<close> gives a configuration that is constructed, yet
  its forward pass raises RuntimeError in the output head, on two images of 16 by 16
  pixels.
\<close>

theorem UNet_forward_shapes_counterexample:
  "valid_config cfg_scenario \<and> 2 ^ (length (channel_mult cfg_scenario) - 1) dvd (2::int) \<and>
   shape_nn (GroupNorm 32 32) [1, 32, 1, 1] = Inl ValueError \<and>
   (\<exists>m. UNet_init cfg_scenario = Inr m \<and>
      UNet_forward shape_sem m [1, 1, 2, 2] [1, 4] [1] = Inl ValueError) \<and>
   valid_config cfg_wide \<and> valid_input cfg_wide 2 16 16 \<and>
   (\<exists>m. UNet_init cfg_wide = Inr m \<and>
      UNet_forward shape_sem m [2, 1, 16, 16] [2, 4] [2] = Inl RuntimeError)"
proof -
  have 1: "ebind (UNet_init cfg_scenario) (\<lambda>m. UNet_forward shape_sem m [1, 1, 2, 2] [1, 4] [1])
      = Inl ValueError"
    by code_simp
  have 2: "ebind (UNet_init cfg_wide) (\<lambda>m. UNet_forward shape_sem m [2, 1, 16, 16] [2, 4] [2])
      = Inl RuntimeError"
    by code_simp
  obtain m where m: "UNet_init cfg_scenario = Inr m"
    using isr_UNet_init_scenario by blast
  obtain w where w: "UNet_init cfg_wide = Inr w"
    using isr_UNet_init_wide by blast
  from 1 m have a: "UNet_forward shape_sem m [1, 1, 2, 2] [1, 4] [1] = Inl ValueError" by simp
  from 2 w have b: "UNet_forward shape_sem w [2, 1, 16, 16] [2, 4] [2] = Inl RuntimeError" by simp
  have c: "2 ^ (length (channel_mult cfg_scenario) - 1) dvd (2::int)"
    "shape_nn (GroupNorm 32 32) [1, 32, 1, 1] = Inl ValueError"
    by (simp_all add: cfg_scenario_def)
  from m w a b c scenario_valid(1) wide_valid show ?thesis by blast
qed

subsection \<open>C2: the declared width of the image output head\<close>

text \<open>
  C2 (as amended). The convolution of the image output head is declared with
  \<^verbatim>\<open>model_channels\<close> input channels, while the feature map that reaches it (and the group
  normalisation before it) has \<^verbatim>\<open>model_channels * channel_mult[0]\<close> channels, the output of
  the last decoder stage. For every configuration of positive sizes that can be
  constructed and every input batch as in C1: with \<^verbatim>\<open>channel_mult[0] == 1\<close> the two agree,
  the head succeeds and so does the forward pass; with \<^verbatim>\<open>channel_mult[0] != 1\<close> they
  disagree and the forward pass fails, in the head (RuntimeError in its convolution) and
  not before it.
\<close>

theorem image_head_width:
  assumes "UNet_init cfg = Inr m" and "valid_config cfg" and "valid_input cfg N H W"
    and "channel_mult cfg \<noteq> []"
  shows "img_out m = [GroupNorm 32 (model_channels cfg * channel_mult cfg ! 0), SiLU,
                      Conv2d (model_channels cfg) (out_channels cfg) 3 1 1 True] \<and>
         map_sum id var_h
           (UNet_forward_locals shape_sem m [N, in_channels cfg, H, W] [N, param_dim cfg] [N])
           = Inr [N, model_channels cfg * channel_mult cfg ! 0, H, W] \<and>
         (channel_mult cfg ! 0 = 1 \<longrightarrow>
            model_channels cfg * channel_mult cfg ! 0 = model_channels cfg \<and>
            Sequential_forward shape_sem [Name ''img_out''] (img_out m)
              [N, model_channels cfg * channel_mult cfg ! 0, H, W] = Inr [N, out_channels cfg, H, W] \<and>
            UNet_forward shape_sem m [N, in_channels cfg, H, W] [N, param_dim cfg] [N] =
              Inr ([N, out_channels cfg, H, W], [N, param_dim cfg])) \<and>
         (channel_mult cfg ! 0 \<noteq> 1 \<longrightarrow>
            model_channels cfg * channel_mult cfg ! 0 \<noteq> model_channels cfg \<and>
            Sequential_forward shape_sem [Name ''img_out''] (img_out m)
              [N, model_channels cfg * channel_mult cfg ! 0, H, W] = Inl RuntimeError \<and>
            UNet_forward shape_sem m [N, in_channels cfg, H, W] [N, param_dim cfg] [N] =
              Inl RuntimeError)"
proof -
  from assms(2,3) have valid: "valid_run cfg N H W" by (rule valid_runI)
  from valid have pos: "0 < H" "0 < W" "0 < model_channels cfg" by (simp_all add: valid_run_def)
  from assms(4) have fc: "final_channels cfg = model_channels cfg * channel_mult cfg ! 0"
    by (simp add: final_channels_def)
  note l = UNet_forward_locals_shape[OF valid assms(1), unfolded fc]
  have 1: "map_sum id var_h
      (UNet_forward_locals shape_sem m [N, in_channels cfg, H, W] [N, param_dim cfg] [N])
      = Inr [N, model_channels cfg * channel_mult cfg ! 0, H, W]"
    by (simp add: l(1) shape_locals_def)
  from valid_run_several[OF valid _ coarsest_channels_final[OF valid], of 0]
  have sv: "N * (model_channels cfg * channel_mult cfg ! 0) div 32 * (H * W) \<noteq> 1"
    by (simp add: fc)
  have 2: "Sequential_forward shape_sem [Name ''img_out''] (img_out m)
      [N, model_channels cfg * channel_mult cfg ! 0, H, W] = Inr [N, out_channels cfg, H, W]"
    if "channel_mult cfg ! 0 = 1"
    using that pos sv by (simp add: l(2))
  have 3: "UNet_forward shape_sem m [N, in_channels cfg, H, W] [N, param_dim cfg] [N] =
      Inr ([N, out_channels cfg, H, W], [N, param_dim cfg])"
    if "channel_mult cfg ! 0 = 1"
    using that by (intro UNet_forward_shape[OF valid assms(1)]) simp
  have 4: "model_channels cfg * channel_mult cfg ! 0 \<noteq> model_channels cfg"
    if "channel_mult cfg ! 0 \<noteq> 1"
    using that pos by simp
  note 5 = UNet_forward_head_fails[OF valid assms(1,4)]
  from l(2) 1 2 3 4 5 show ?thesis by simp
qed

theorem image_head_width_witness:
  "\<exists>m w. UNet_init cfg_scenario = Inr m \<and> UNet_init cfg_wide = Inr w \<and>
     valid_config cfg_scenario \<and> valid_input cfg_scenario 2 16 16 \<and>
     valid_config cfg_wide \<and> valid_input cfg_wide 2 16 16 \<and>
     channel_mult cfg_scenario ! 0 = 1 \<and> channel_mult cfg_wide ! 0 = 2 \<and>
     UNet_forward shape_sem m [2, 1, 16, 16] [2, 4] [2] = Inr ([2, 1, 16, 16], [2, 4]) \<and>
     map_sum id var_h (UNet_forward_locals shape_sem w [2, 1, 16, 16] [2, 4] [2]) = Inr [2, 64, 16, 16] \<and>
     img_out w = [GroupNorm 32 64, SiLU, Conv2d 32 1 3 1 1 True] \<and>
     UNet_forward shape_sem w [2, 1, 16, 16] [2, 4] [2] = Inl RuntimeError"
proof -
  obtain m where m: "UNet_init cfg_scenario = Inr m"
    using isr_UNet_init_scenario by blast
  obtain w where w: "UNet_init cfg_wide = Inr w"
    using isr_UNet_init_wide by blast
  have c: "channel_mult cfg_scenario \<noteq> []" "channel_mult cfg_wide \<noteq> []"
    "channel_mult cfg_scenario ! 0 = 1" "channel_mult cfg_wide ! 0 = 2"
    by (simp_all add: cfg_scenario_def cfg_wide_def)
  from image_head_width[OF m scenario_valid(1,2) c(1)] c(3)
  have 1: "UNet_forward shape_sem m [2, 1, 16, 16] [2, 4] [2] = Inr ([2, 1, 16, 16], [2, 4])"
    by (simp add: cfg_scenario_def)
  from image_head_width[OF w wide_valid c(2)]
  have 2: "map_sum id var_h (UNet_forward_locals shape_sem w [2, 1, 16, 16] [2, 4] [2]) = Inr [2, 64, 16, 16]"
    "img_out w = [GroupNorm 32 64, SiLU, Conv2d 32 1 3 1 1 True]"
    "UNet_forward shape_sem w [2, 1, 16, 16] [2, 4] [2] = Inl RuntimeError"
    by (simp_all add: cfg_scenario_def cfg_wide_def)
  from m w scenario_valid wide_valid c 1 2 show ?thesis by blast
qed

text \<open>
  C2 as stated fails for inputs outside those of C1. With \<^verbatim>\<open>channel_mult=(2,)\<close> the first
  multiplier is not 1, yet on one image of one pixel the forward pass does not fail at
  the output head: it raises ValueError before the output projections are reached,
  where the first residual block normalises a tensor of shape \<open>(1, 32, 1, 1)\<close>.
\<close>

theorem image_head_width_counterexample:
  "valid_config cfg_narrow \<and> channel_mult cfg_narrow ! 0 \<noteq> 1 \<and>
   (\<exists>m. UNet_init cfg_narrow = Inr m \<and>
      UNet_forward_locals shape_sem m [1, 1, 1, 1] [1, 4] [1] = Inl ValueError \<and>
      UNet_forward shape_sem m [1, 1, 1, 1] [1, 4] [1] = Inl ValueError)"
proof -
  have 1: "ebind (UNet_init cfg_narrow) (\<lambda>m. UNet_forward_locals shape_sem m [1, 1, 1, 1] [1, 4] [1])
      = Inl ValueError"
    by code_simp
  have "\<not> isl (UNet_init cfg_narrow)" by code_simp
  then obtain m where m: "UNet_init cfg_narrow = Inr m"
    by (cases "UNet_init cfg_narrow") auto
  from 1 m have a: "UNet_forward_locals shape_sem m [1, 1, 1, 1] [1, 4] [1] = Inl ValueError"
    by simp
  then have b: "UNet_forward shape_sem m [1, 1, 1, 1] [1, 4] [1] = Inl ValueError"
    by (simp add: UNet_forward_def)
  have c: "valid_config cfg_narrow" "channel_mult cfg_narrow ! 0 \<noteq> 1"
    by (simp_all add: valid_config_def cfg_narrow_def cfg_scenario_def)
  from m a b c show ?thesis by blast
qed

subsection \<open>C3: where the decoder upsamples\<close>

text \<open>
  C3 (as amended). In the decoder construction, which iterates \<^verbatim>\<open>channel_mult\<close> in reverse
  with \<^verbatim>\<open>num_res_blocks + 1\<close> repeats per stage, an \<^verbatim>\<open>Upsample\<close> is appended on the last repeat
  (repeat index \<^verbatim>\<open>num_res_blocks\<close>) of every stage other than level 0, the
  finest-resolution stage, which the decoder builds last; \<^verbatim>\<open>ds\<close> is halved there, and
  no other decoder position receives an \<^verbatim>\<open>Upsample\<close> or changes \<^verbatim>\<open>ds\<close>. The stage of level
  \<open>l\<close> is at positions \<open>(L - 1 - l) * (num_res_blocks + 1) + r\<close> of \<^verbatim>\<open>up_blocks\<close>, for \<open>L\<close>
  the length of \<^verbatim>\<open>channel_mult\<close>.
\<close>

theorem upsample_placement:
  "(up_rep_body cfg level mult i st = Inr st' \<longrightarrow>
      (\<exists>block. self_blocks st' = self_blocks st @ [block] \<and>
         has_Upsample block = (level \<noteq> 0 \<and> i = num_res_blocks cfg)) \<and>
      ds st' = (if level \<noteq> 0 \<and> i = num_res_blocks cfg then ds st div 2 else ds st)) \<and>
   (UNet_init cfg = Inr m \<longrightarrow>
      length (up_blocks m) = length (channel_mult cfg) * nat (num_res_blocks cfg + 1) \<and>
      (\<forall>l < length (channel_mult cfg). \<forall>r < nat (num_res_blocks cfg + 1).
         has_Upsample
           (up_blocks m ! ((length (channel_mult cfg) - 1 - l) * nat (num_res_blocks cfg + 1) + r))
         = (l \<noteq> 0 \<and> int r = num_res_blocks cfg)))"
proof -
  let ?L = "length (channel_mult cfg)" and ?n = "nat (num_res_blocks cfg + 1)"
  let ?F = "map (stage_flags cfg) (rev (enumerate 0 (channel_mult cfg)))"
  have u: "\<forall>xs \<in> set ?F. length xs = ?n"
    by (auto simp: length_stage_flags)
  {
    assume "UNet_init cfg = Inr m"
    then obtain enc dec where "decoder_init cfg enc = Inr dec" and ub: "up_blocks m = self_blocks dec"
      by (auto simp: UNet_init_def ebind_eq_Inr)
    from decoder_flags[OF this(1)] ub have flags: "map has_Upsample (up_blocks m) = concat ?F"
      by simp
    have len: "length (up_blocks m) = ?L * ?n"
      using arg_cong[OF flags, of length] length_concat_uniform[OF u] by simp
    have pos: "has_Upsample (up_blocks m ! ((?L - 1 - l) * ?n + r)) = (l \<noteq> 0 \<and> int r = num_res_blocks cfg)"
      if l: "l < ?L" and r: "r < ?n" for l r
    proof -
      have j: "?L - 1 - l < length ?F" using l by simp
      have lt: "(?L - 1 - l) * ?n + r < length (up_blocks m)"
      proof -
        have "(?L - 1 - l) * ?n + r < (?L - 1 - l) * ?n + ?n" using r by simp
        also have "\<dots> = (Suc (?L - 1 - l)) * ?n" by simp
        also have "\<dots> \<le> ?L * ?n" using l by (intro mult_le_mono1) simp
        finally show ?thesis using len by simp
      qed
      have "has_Upsample (up_blocks m ! ((?L - 1 - l) * ?n + r))
          = map has_Upsample (up_blocks m) ! ((?L - 1 - l) * ?n + r)"
        using lt by simp
      also have "\<dots> = ?F ! (?L - 1 - l) ! r"
        unfolding flags using u j r by (rule nth_concat_uniform)
      also have "\<dots> = stage_flags cfg (l, channel_mult cfg ! l) ! r"
        using l by (simp add: rev_enumerate_nth)
      also have "\<dots> = (l \<noteq> 0 \<and> int r = num_res_blocks cfg)"
        using r by (simp add: stage_flags_def py_range_def)
      finally show ?thesis .
    qed
    note len pos
  }
  then show ?thesis
    using up_rep_body_step[of cfg level mult i st st'] by blast
qed

theorem upsample_placement_witness:
  "\<exists>st' m. up_rep_body cfg_scenario 1 2 1 st_scenario = Inr st' \<and>
     UNet_init cfg_scenario = Inr m \<and> ds st' = 1 \<and> length (up_blocks m) = 4 \<and>
     has_Upsample (up_blocks m ! 1) \<and> \<not> has_Upsample (up_blocks m ! 3)"
proof -
  have "\<not> isl (up_rep_body cfg_scenario 1 2 1 st_scenario)" by code_simp
  then obtain st' where st': "up_rep_body cfg_scenario 1 2 1 st_scenario = Inr st'"
    by (cases "up_rep_body cfg_scenario 1 2 1 st_scenario") auto
  obtain m where m: "UNet_init cfg_scenario = Inr m"
    using isr_UNet_init_scenario by blast
  have c: "channel_mult cfg_scenario = [1, 2]" "num_res_blocks cfg_scenario = 1"
    by (simp_all add: cfg_scenario_def)
  note t = upsample_placement[of cfg_scenario 1 2 1 st_scenario st' m, unfolded c]
  from t st' have d: "ds st' = 1" by (simp add: st_scenario_def)
  from t m have len: "length (up_blocks m) = 4" by simp
  from t m have pos: "\<forall>l<2. \<forall>r<2. has_Upsample (up_blocks m ! ((2 - 1 - l) * 2 + r)) = (l \<noteq> 0 \<and> int r = 1)"
    by simp
  from pos[rule_format, of 1 1] have p1: "has_Upsample (up_blocks m ! 1)" by simp
  from pos[rule_format, of 0 1] have p3: "\<not> has_Upsample (up_blocks m ! 3)" by simp
  from st' m d len p1 p3 show ?thesis by blast
qed

text \<open>
  C3 as stated fails. In the scenario (\<^verbatim>\<open>channel_mult=(1,2)\<close>, one residual block per
  stage) the encoder ends at \<^verbatim>\<open>ds = 2\<close>, the coarsest resolution, where the decoder builds
  its first stage, level 1, as blocks 0 and 1 of \<^verbatim>\<open>up_blocks\<close>: the last repeat of this
  coarsest stage (block 1) receives the \<^verbatim>\<open>Upsample\<close>, and the last repeat of the other
  stage (level 0, block 3), which is not the coarsest, receives none.
\<close>

theorem upsample_placement_counterexample:
  "map_sum id ds (encoder_init cfg_scenario) = Inr 2 \<and>
   map_sum id (map has_Upsample \<circ> up_blocks) (UNet_init cfg_scenario) =
     Inr [False, True, False, False]"
  by code_simp

subsection \<open>C4: the skip stack\<close>

text \<open>
  C4 (as amended). For every configuration with at least one entry in \<^verbatim>\<open>channel_mult\<close> and
  no negative \<^verbatim>\<open>num_res_blocks\<close>, the model has \<open>1 + L * num_res_blocks + (L - 1)\<close> encoder
  stages and \<open>L * (num_res_blocks + 1)\<close> decoder stages, which are equally many (\<open>L\<close> the
  length of \<^verbatim>\<open>channel_mult\<close>). Within one call of \<^verbatim>\<open>UNet.forward\<close> that reaches the output
  projections, whatever the tensor semantics, the skip stack starts empty, is pushed
  once per encoder stage, is popped once per decoder stage in the reverse of the order
  of the pushes, and is empty at the end.
\<close>

theorem skip_stack_balanced:
  assumes "UNet_init cfg = Inr m" and "channel_mult cfg \<noteq> []" and "0 \<le> num_res_blocks cfg"
    and "UNet_forward_locals sem m x params timesteps = Inr st'"
  shows "length (down_blocks m) =
           1 + length (channel_mult cfg) * nat (num_res_blocks cfg) + (length (channel_mult cfg) - 1) \<and>
         length (up_blocks m) = length (channel_mult cfg) * nat (num_res_blocks cfg + 1) \<and>
         length (down_blocks m) = length (up_blocks m) \<and>
         (\<exists>st. trunk_forward sem m x params timesteps = Inr st \<and>
            length (var_hs st) = length (down_blocks m) \<and>
            up_stages_lifo sem (var_emb st) (var_param_features st) (up_blocks m) (var_hs st) (var_h st)
              = Inr (var_h st')) \<and>
         var_hs st' = []"
proof -
  note len = UNet_init_lengths[OF assms(1)]
  from len balanced_lengths[OF assms(2,3)] have eq: "length (down_blocks m) = length (up_blocks m)"
    by simp
  from assms(4) obtain st where st: "trunk_forward sem m x params timesteps = Inr st"
    "length (var_hs st) = length (down_blocks m)"
    "var_hs st' = take (length (var_hs st) - length (up_blocks m)) (var_hs st)"
    "up_stages_lifo sem (var_emb st) (var_param_features st) (up_blocks m)
           (drop (length (var_hs st) - length (up_blocks m)) (var_hs st)) (var_h st)
         = Inr (var_h st')"
    by (rule UNet_forward_locals_stack)
  from st eq have "var_hs st' = []"
    and "up_stages_lifo sem (var_emb st) (var_param_features st) (up_blocks m) (var_hs st) (var_h st)
         = Inr (var_h st')"
    by simp_all
  with len eq st(1,2) show ?thesis by blast
qed

theorem skip_stack_balanced_witness:
  "\<exists>m st'. UNet_init cfg_scenario = Inr m \<and> channel_mult cfg_scenario \<noteq> [] \<and>
     0 \<le> num_res_blocks cfg_scenario \<and>
     UNet_forward_locals shape_sem m [2, 1, 16, 16] [2, 4] [2] = Inr st' \<and>
     length (down_blocks m) = 4 \<and> length (up_blocks m) = 4 \<and> var_hs st' = []"
proof -
  obtain m where m: "UNet_init cfg_scenario = Inr m"
    using isr_UNet_init_scenario by blast
  have c: "channel_mult cfg_scenario \<noteq> []" "0 \<le> num_res_blocks cfg_scenario"
    by (simp_all add: cfg_scenario_def)
  from UNet_forward_locals_shape(1)[OF valid_runI[OF scenario_valid(1,2)] m]
  obtain st' where st': "UNet_forward_locals shape_sem m [2, 1, 16, 16] [2, 4] [2] = Inr st'"
    by (simp add: cfg_scenario_def)
  from skip_stack_balanced[OF m c st']
  have "length (down_blocks m) = 4" "length (up_blocks m) = 4" "var_hs st' = []"
    by (simp_all add: cfg_scenario_def)
  with m c st' show ?thesis by blast
qed

text \<open>
  C4 as stated fails for an empty \<^verbatim>\<open>channel_mult\<close>: the model is constructed with one
  encoder stage (the initial projection) and no decoder stage, so that a forward pass
  pushes once, never pops, and ends with one tensor on the stack.
\<close>

theorem skip_stack_balanced_counterexample:
  "\<exists>m. UNet_init cfg_flat = Inr m \<and> length (down_blocks m) = 1 \<and> length (up_blocks m) = 0 \<and>
     map_sum id var_hs (UNet_forward_locals shape_sem m [2, 1, 16, 16] [2, 4] [2]) =
       Inr [[2, 32, 16, 16]]"
proof -
  obtain m where m: "UNet_init cfg_flat = Inr m"
    using isr_UNet_init_flat by blast
  from UNet_init_lengths[OF m]
  have 1: "length (down_blocks m) = 1" "length (up_blocks m) = 0"
    by (simp_all add: cfg_flat_def)
  from UNet_forward_locals_shape(1)[OF valid_runI[OF flat_valid] m]
  have "map_sum id var_hs (UNet_forward_locals shape_sem m [2, 1, 16, 16] [2, 4] [2]) =
       Inr [[2, 32, 16, 16]]"
    by (simp add: cfg_flat_def cfg_scenario_def shape_locals_def)
  with m 1 show ?thesis by blast
qed

subsection \<open>C5: the timestep embedding\<close>

text \<open>
  C5. With \<open>half = dim // 2\<close> and \<open>freq i = exp (- ln max_period * i / half)\<close>, the row for a
  timestep is \<open>cos (timestep * freq i)\<close> in the columns below \<open>half\<close>, then
  \<open>sin (timestep * freq i)\<close>, then one zero column when \<open>dim\<close> is odd, \<open>dim\<close> columns in all.
  The code does so for every \<open>dim\<close> but 1 (\<open>timestep_embedding_structure\<close>). For
  \<open>dim = 1\<close> it returns rows without any column, where C5 and the docstring of the
  function promise one column: \<^verbatim>\<open>embedding[:, :1]\<close>, from which the zero column is made, is
  empty when the embedding is.
\<close>

theorem timestep_embedding_dim_1:
  "timestep_embedding [0, 5] 1 10000 = Inr [[], []]"
  by (simp add: timestep_embedding_def)

subsection \<open>C6: the softmax of the cross-modal attention\<close>

text \<open>
  C6. Whatever the learned layers compute, when \<^verbatim>\<open>CrossModalAttentionBlock.forward\<close> returns
  on an image batch of shape \<open>(B, C, H, W)\<close> (all positive), the attention weights \<open>w\<close> that
  it applies to the values are the softmax over the spatial axis (axis 1, of length
  \<open>H * W\<close>), not the key axis (axis 2, of length 1), of the logits between the queries
  \<open>q\<close> (from the image) and the single key \<open>k\<close> (from the parameters), scaled by
  \<open>1 / sqrt (sqrt (C // num_heads))\<close>: for every sample and head \<open>b\<close> and every position
  \<open>t\<close>, \<open>w[b, t, 0]\<close> is \<open>exp (logit b t)\<close> divided by the sum of \<open>exp (logit b t')\<close> over the
  \<open>H * W\<close> positions \<open>t'\<close>; the weights are positive and sum to 1 over the positions.
\<close>

theorem cross_attention_softmax_over_space:
  assumes fw: "CrossModalAttentionBlock_forward (real_sem base) p cm img params = Inr out"
    and img: "rshape img = [B, C, H, W]"
    and pos: "0 < B" "0 < C" "0 < H" "0 < W"
  shows "\<exists>imgn q0 q pn kv k0 v0 k1 v1 k v scale w h h2 h3.
      nn_forward base (p @ [Name ''img_norm'']) (img_norm cm) img = Inr imgn \<and>
      nn_forward base (p @ [Name ''img_to_q'']) (img_to_q cm) imgn = Inr q0 \<and>
      real_reshape q0 [B * cm_num_heads cm, C div cm_num_heads cm, H * W] = Inr q \<and>
      nn_forward base (p @ [Name ''param_norm'']) (param_norm cm) params = Inr pn \<and>
      nn_forward base (p @ [Name ''param_to_kv'']) (param_to_kv cm) pn = Inr kv \<and>
      t_chunk base kv 2 1 = Inr [k0, v0] \<and>
      t_unsqueeze base k0 (- 1) = Inr k1 \<and> t_unsqueeze base v0 (- 1) = Inr v1 \<and>
      real_reshape k1 [B * cm_num_heads cm, C div cm_num_heads cm, 1] = Inr k \<and>
      real_reshape v1 [B * cm_num_heads cm, C div cm_num_heads cm, 1] = Inr v \<and>
      rshape q = [B * cm_num_heads cm, C div cm_num_heads cm, H * W] \<and>
      rshape k = [B * cm_num_heads cm, C div cm_num_heads cm, 1] \<and>
      scale = 1 / sqrt (sqrt (real_of_int (C div cm_num_heads cm))) \<and>
      cross_attention_weights (real_sem base) C (cm_num_heads cm) q k = Inr w \<and>
      rshape w = [B * cm_num_heads cm, H * W, 1] \<and>
      (\<forall>b < nat (B * cm_num_heads cm). \<forall>t < nat (H * W).
         rat w [b, t, 0] =
           exp (attention_logit q k scale b t) /
           (\<Sum>t'<nat (H * W). exp (attention_logit q k scale b t')) \<and>
         0 < rat w [b, t, 0]) \<and>
      (\<forall>b < nat (B * cm_num_heads cm). (\<Sum>t<nat (H * W). rat w [b, t, 0]) = 1) \<and>
      real_einsum bts_bcs_bct w v = Inr h \<and>
      real_reshape h [B, C, H, W] = Inr h2 \<and>
      nn_forward base (p @ [Name ''proj'']) (cm_proj cm) h2 = Inr h3 \<and>
      t_add base h3 img = Inr out"
proof -
  let ?nh = "cm_num_heads cm"
  from fw img obtain imgn q0 Cn q pn kv k0 v0 k1 v1 k v w h h2 h3 where
    1: "nn_forward base (p @ [Name ''img_norm'']) (img_norm cm) img = Inr imgn"
      "nn_forward base (p @ [Name ''img_to_q'']) (img_to_q cm) imgn = Inr q0"
    and fd: "floordiv C ?nh = Inr Cn"
    and rq: "real_reshape q0 [B * ?nh, Cn, H * W] = Inr q"
    and 2: "nn_forward base (p @ [Name ''param_norm'']) (param_norm cm) params = Inr pn"
      "nn_forward base (p @ [Name ''param_to_kv'']) (param_to_kv cm) pn = Inr kv"
      "t_chunk base kv 2 1 = Inr [k0, v0]"
      "t_unsqueeze base k0 (- 1) = Inr k1" "t_unsqueeze base v0 (- 1) = Inr v1"
    and rk: "real_reshape k1 [B * ?nh, Cn, 1] = Inr k"
    and rv: "real_reshape v1 [B * ?nh, Cn, 1] = Inr v"
    and w: "cross_attention_weights (real_sem base) C ?nh q k = Inr w"
    and 3: "real_einsum bts_bcs_bct w v = Inr h"
      "real_reshape h [B, C, H, W] = Inr h2"
      "nn_forward base (p @ [Name ''proj'']) (cm_proj cm) h2 = Inr h3"
      "t_add base h3 img = Inr out"
    by (auto simp: CrossModalAttentionBlock_forward_def ebind_eq_Inr case_two_eq_Inr
        simp del: real_einsum.simps)
  from w obtain scale where sc: "attention_scale C ?nh = Inr scale"
    by (auto simp: cross_attention_weights_def ebind_eq_Inr simp del: real_einsum.simps)
  note s = attention_scale_Inr[OF sc]
  from fd s(1) have Cn: "Cn = C div ?nh" by (simp add: floordiv_def)
  have nh: "0 < ?nh"
  proof (rule ccontr)
    assume "\<not> 0 < ?nh"
    with s(1) have "?nh < 0" by simp
    with pos(2) have "C div ?nh < 0" by (simp add: div_neg_pos_less0 neg_imp_zdiv_neg_iff)
    with s(2) show False by simp
  qed
  have T: "0 < nat (H * W)" using pos by simp
  have tg: "\<forall>d \<in> set [B * ?nh, Cn, H * W]. 0 \<le> d" "\<forall>d \<in> set [B * ?nh, Cn, 1]. 0 \<le> d"
    using pos nh s(2) by (simp_all add: Cn)
  from real_reshape_exact[OF rq tg(1)] real_reshape_exact[OF rk tg(2)]
  have sh: "rshape q = [B * ?nh, C div ?nh, H * W]" "rshape k = [B * ?nh, C div ?nh, 1]"
    by (simp_all add: Cn)
  note cw = cross_attention_weights_real[OF w sh]
  from cw(2) sc have at: "\<And>b t. b < nat (B * ?nh) \<Longrightarrow> rat w [b, t, 0] =
      exp (attention_logit q k scale b t) / (\<Sum>t'<nat (H * W). exp (attention_logit q k scale b t'))"
    by auto
  have f: "\<forall>b < nat (B * ?nh). \<forall>t < nat (H * W).
         rat w [b, t, 0] =
           exp (attention_logit q k scale b t) /
           (\<Sum>t'<nat (H * W). exp (attention_logit q k scale b t')) \<and>
         0 < rat w [b, t, 0]"
    using softmax_sums_to_one(2)[OF T] by (simp add: at)
  have one: "\<forall>b < nat (B * ?nh). (\<Sum>t<nat (H * W). rat w [b, t, 0]) = 1"
    using softmax_sums_to_one(1)[OF T] by (simp add: at)
  from 1 rq 2 rk rv sh s(3) w cw(1) f one 3 show ?thesis
    unfolding Cn by blast
qed

theorem cross_attention_softmax_over_space_witness:
  "\<exists>cm out q k w.
     CrossModalAttentionBlock_init 32 16 2 = Inr cm \<and>
     CrossModalAttentionBlock_forward (real_sem ramp_sem) [] cm (ramp [1, 32, 1, 2]) (ramp [1, 16])
       = Inr out \<and>
     cross_attention_weights (real_sem ramp_sem) 32 2 q k = Inr w \<and>
     rshape q = [2, 16, 2] \<and> rshape k = [2, 16, 1] \<and> rshape w = [2, 2, 1] \<and>
     rat w [0, 0, 0] + rat w [0, 1, 0] = 1 \<and> rat w [1, 0, 0] + rat w [1, 1, 0] = 1"
proof -
  obtain cm where cm: "CrossModalAttentionBlock_init 32 16 2 = Inr cm"
    by (simp add: CrossModalAttentionBlock_init_eq_Inr)
  then have nh: "cm_num_heads cm = 2"
    by (simp add: CrossModalAttentionBlock_init_eq_Inr)
  from cross_forward_ramp[OF cm] obtain out where
    out: "CrossModalAttentionBlock_forward (real_sem ramp_sem) [] cm
           (ramp [1, 32, 1, 2]) (ramp [1, 16]) = Inr out" ..
  from cross_attention_softmax_over_space[OF out, of 1 32 1 2, unfolded nh]
  obtain q k w where
    "cross_attention_weights (real_sem ramp_sem) 32 2 q k = Inr w"
    "rshape q = [2, 16, 2]" "rshape k = [2, 16, 1]" "rshape w = [2, 2, 1]"
    "\<forall>b<nat 2. (\<Sum>t<nat 2. rat w [b, t, 0]) = 1"
    by auto
  then have "cross_attention_weights (real_sem ramp_sem) 32 2 q k = Inr w"
    "rshape q = [2, 16, 2]" "rshape k = [2, 16, 1]" "rshape w = [2, 2, 1]"
    "rat w [0, 0, 0] + rat w [0, 1, 0] = 1" "rat w [1, 0, 0] + rat w [1, 1, 0] = 1"
    by (simp_all add: numeral_2_eq_2)
  with cm out show ?thesis by blast
qed

subsection \<open>C7: construction of the attention blocks\<close>

text \<open>
  C7 (as amended). Constructing an \<^verbatim>\<open>AttentionBlock\<close> or a \<^verbatim>\<open>CrossModalAttentionBlock\<close> raises
  AssertionError exactly when \<^verbatim>\<open>num_heads\<close> is not zero and does not divide the image
  channel count (a zero \<^verbatim>\<open>num_heads\<close> raises ZeroDivisionError in the assertion itself).
  Construction succeeds exactly when, moreover, the channel count is a non-negative
  multiple of 32, the group count of \<^verbatim>\<open>norm_layer\<close> (and, for the cross-modal block,
  \<^verbatim>\<open>param_dim\<close> is not negative).
\<close>

theorem attention_construction:
  "(AttentionBlock_init c nh = Inl AssertionError \<longleftrightarrow> nh \<noteq> 0 \<and> c mod nh \<noteq> 0) \<and>
   ((\<exists>ab. AttentionBlock_init c nh = Inr ab) \<longleftrightarrow>
      nh \<noteq> 0 \<and> c mod nh = 0 \<and> c mod 32 = 0 \<and> 0 \<le> c) \<and>
   (CrossModalAttentionBlock_init c pd nh = Inl AssertionError \<longleftrightarrow> nh \<noteq> 0 \<and> c mod nh \<noteq> 0) \<and>
   ((\<exists>cm. CrossModalAttentionBlock_init c pd nh = Inr cm) \<longleftrightarrow>
      nh \<noteq> 0 \<and> c mod nh = 0 \<and> c mod 32 = 0 \<and> 0 \<le> c \<and> 0 \<le> pd) \<and>
   (AttentionBlock_init c nh = Inl ZeroDivisionError \<longleftrightarrow> nh = 0) \<and>
   (CrossModalAttentionBlock_init c pd nh = Inl ZeroDivisionError \<longleftrightarrow> nh = 0)"
proof -
  have z: "AttentionBlock_init c nh = Inl ZeroDivisionError \<longleftrightarrow> nh = 0"
    by (auto simp: AttentionBlock_init_def norm_layer_def nn_GroupNorm_def nn_Conv2d_def)
  have y: "CrossModalAttentionBlock_init c pd nh = Inl ZeroDivisionError \<longleftrightarrow> nh = 0"
    by (auto simp: CrossModalAttentionBlock_init_def norm_layer_def nn_GroupNorm_def nn_Conv2d_def
        nn_LayerNorm_def nn_Linear_def)
  have a: "AttentionBlock_init c nh = Inl AssertionError \<longleftrightarrow> nh \<noteq> 0 \<and> c mod nh \<noteq> 0"
    by (auto simp: AttentionBlock_init_def norm_layer_def nn_GroupNorm_def nn_Conv2d_def)
  have b: "CrossModalAttentionBlock_init c pd nh = Inl AssertionError \<longleftrightarrow> nh \<noteq> 0 \<and> c mod nh \<noteq> 0"
    by (auto simp: CrossModalAttentionBlock_init_def norm_layer_def nn_GroupNorm_def nn_Conv2d_def
        nn_LayerNorm_def nn_Linear_def)
  show ?thesis
    using a b z y by (simp add: AttentionBlock_init_eq_Inr CrossModalAttentionBlock_init_eq_Inr)
qed

text \<open>
  C7 as stated fails: 2 divides 6, yet constructing either block with 6 channels and
  2 heads raises ValueError in \<^verbatim>\<open>norm_layer\<close>, since 32 does not divide 6.
\<close>

theorem attention_construction_counterexample:
  "6 mod 2 = (0::int) \<and> AttentionBlock_init 6 2 = Inl ValueError \<and>
   CrossModalAttentionBlock_init 6 16 2 = Inl ValueError"
  by (simp add: AttentionBlock_init_def CrossModalAttentionBlock_init_def norm_layer_def nn_GroupNorm_def)

subsection \<open>C8: the energy model does not read \<open>prop\<close>\<close>

text \<open>
  C8. \<^verbatim>\<open>UNet_Energy.forward(x, params, prop, timesteps)\<close> never reads \<^verbatim>\<open>prop\<close>: whatever the
  tensor semantics, the model and the other arguments, any two values of \<^verbatim>\<open>prop\<close> give the
  same outcome, a result or an exception. Its output is one tensor of shape
  \<open>(N, prop_dim)\<close>: for every model that can be constructed, every image batch of shape
  \<open>(N, c, h, w)\<close> and all parameters and timesteps, that is the shape of the result
  whenever there is one; and there is one for a configuration of positive sizes and an
  input batch as in C1.
\<close>

theorem energy_ignores_prop:
  "UNet_Energy_forward sem m x params prop1 timesteps =
     UNet_Energy_forward sem m x params prop2 timesteps \<and>
   (UNet_Energy_init cfg = Inr em \<longrightarrow> 0 \<le> N \<longrightarrow>
      UNet_Energy_forward shape_sem em [N, c, h, w] ps sp ts = Inr out \<longrightarrow>
      out = [N, prop_dim cfg]) \<and>
   (UNet_Energy_init cfg = Inr em \<longrightarrow> valid_config cfg \<longrightarrow> valid_input cfg N H W \<longrightarrow>
      UNet_Energy_forward shape_sem em [N, in_channels cfg, H, W] [N, param_dim cfg] sp [N] =
        Inr [N, prop_dim cfg])"
proof (intro conjI impI)
  show "UNet_Energy_forward sem m x params prop1 timesteps =
      UNet_Energy_forward sem m x params prop2 timesteps"
    by (simp add: UNet_Energy_forward_def)
next
  assume "UNet_Energy_init cfg = Inr em"
    and "UNet_Energy_forward shape_sem em [N, c, h, w] ps sp ts = Inr out" and "0 \<le> N"
  then show "out = [N, prop_dim cfg]"
    by (rule UNet_Energy_forward_batch)
next
  assume "UNet_Energy_init cfg = Inr em" and "valid_config cfg" and "valid_input cfg N H W"
  then show "UNet_Energy_forward shape_sem em [N, in_channels cfg, H, W] [N, param_dim cfg] sp [N] =
      Inr [N, prop_dim cfg]"
    by (intro UNet_Energy_forward_shape valid_runI)
qed

theorem energy_ignores_prop_witness:
  "\<exists>em. UNet_Energy_init energy_scenario = Inr em \<and> valid_config energy_scenario \<and>
     valid_input energy_scenario 2 16 16 \<and>
     UNet_Energy_forward shape_sem em [2, 1, 16, 16] [2, 4] [2, 1] [2] = Inr [2, 1] \<and>
     UNet_Energy_forward shape_sem em [2, 1, 16, 16] [2, 4] [2, 1] [2] =
       UNet_Energy_forward shape_sem em [2, 1, 16, 16] [2, 4] [7, 7, 7] [2] \<and>
     UNet_Energy_forward shape_sem em [3, 1, 5, 3] [3, 4] [3, 1] [3] = Inr [3, prop_dim energy_scenario]"
proof -
  obtain em where em: "UNet_Energy_init energy_scenario = Inr em"
    using isr_UNet_Energy_init_scenario by blast
  have f: "in_channels energy_scenario = 1" "param_dim energy_scenario = 4"
    "prop_dim energy_scenario = 1"
    by (simp_all add: energy_scenario_def cfg_scenario_def config.defs)
  have "\<not> isl (ebind (UNet_Energy_init energy_scenario)
      (\<lambda>m. UNet_Energy_forward shape_sem m [3, 1, 5, 3] [3, 4] [3, 1] [3]))"
    by code_simp
  with em obtain out where
    out: "UNet_Energy_forward shape_sem em [3, 1, 5, 3] [3, 4] [3, 1] [3] = Inr out"
    by (cases "UNet_Energy_forward shape_sem em [3, 1, 5, 3] [3, 4] [3, 1] [3]") auto
  note t = energy_ignores_prop[where sem = shape_sem and m = em and x = "[2, 1, 16, 16]"
      and params = "[2, 4]" and ?prop1.0 = "[2, 1]" and timesteps = "[2]" and ?prop2.0 = "[7, 7, 7]"
      and cfg = energy_scenario and em = em]
  note eq = t[THEN conjunct1]
  from t[where N = 3 and c = 1 and h = 5 and w = 3 and ps = "[3, 4]" and sp = "[3, 1]"
      and ts = "[3]" and out = out, THEN conjunct2, THEN conjunct1, rule_format, OF em _ out] out
  have odd: "UNet_Energy_forward shape_sem em [3, 1, 5, 3] [3, 4] [3, 1] [3] =
      Inr [3, prop_dim energy_scenario]"
    by simp
  from t[where N = 2 and H = 16 and W = 16 and sp = "[2, 1]", THEN conjunct2, THEN conjunct2,
      rule_format, OF em energy_valid]
  have "UNet_Energy_forward shape_sem em [2, 1, 16, 16] [2, 4] [2, 1] [2] = Inr [2, 1]"
    by (simp add: f)
  with eq odd em energy_valid show ?thesis by blast
qed

subsection \<open>C9: the parameter output does not depend on the image\<close>

text \<open>
  C9. Whatever the tensor semantics, when \<^verbatim>\<open>UNet.forward\<close> returns, its second output is
  what the parameter path alone computes from \<^verbatim>\<open>params\<close> and \<^verbatim>\<open>timesteps\<close> (time embedding,
  parameter encoder, parameter head); hence two calls that differ only in the image and
  both return, return the same \<^verbatim>\<open>param_out\<close>.
\<close>

theorem param_out_independent_of_image:
  "(UNet_forward sem m x params timesteps = Inr (io, po) \<longrightarrow>
      param_path sem m params timesteps = Inr po) \<and>
   (UNet_forward sem m x1 params timesteps = Inr (io1, po1) \<longrightarrow>
    UNet_forward sem m x2 params timesteps = Inr (io2, po2) \<longrightarrow> po1 = po2)"
proof -
  have p: "param_path sem m params timesteps = Inr po"
    if "UNet_forward sem m x params timesteps = Inr (io, po)" for x io po
  proof -
    from that obtain st' where l: "UNet_forward_locals sem m x params timesteps = Inr st'"
      and po: "nn_forward sem [Name ''param_out''] (param_out m) (var_param_features st') = Inr po"
      by (auto simp: UNet_forward_def ebind_eq_Inr)
    from l obtain st where t: "trunk_forward sem m x params timesteps = Inr st"
      and pf: "var_param_features st' = var_param_features st"
      by (rule UNet_forward_locals_stack)
    from trunk_forward_keeps(2,3)[OF t] po pf show ?thesis
      by (auto simp: param_path_def)
  qed
  show ?thesis
  proof (intro conjI impI)
    assume "UNet_forward sem m x params timesteps = Inr (io, po)"
    then show "param_path sem m params timesteps = Inr po" by (rule p)
  next
    assume "UNet_forward sem m x1 params timesteps = Inr (io1, po1)"
      and "UNet_forward sem m x2 params timesteps = Inr (io2, po2)"
    then have "param_path sem m params timesteps = Inr po1"
      and "param_path sem m params timesteps = Inr po2"
      by (auto dest: p)
    then show "po1 = po2" by simp
  qed
qed

theorem param_out_independent_of_image_witness:
  "\<exists>m. UNet_init cfg_scenario = Inr m \<and>
     UNet_forward shape_sem m [2, 1, 16, 16] [2, 4] [2] = Inr ([2, 1, 16, 16], [2, 4]) \<and>
     UNet_forward shape_sem m [2, 1, 32, 32] [2, 4] [2] = Inr ([2, 1, 32, 32], [2, 4]) \<and>
     param_path shape_sem m [2, 4] [2] = Inr [2, 4]"
proof -
  obtain m where m: "UNet_init cfg_scenario = Inr m"
    using isr_UNet_init_scenario by blast
  have f: "channel_mult cfg_scenario = [] \<or> channel_mult cfg_scenario ! 0 = 1"
    by (simp add: cfg_scenario_def)
  from UNet_forward_shape[OF valid_runI[OF scenario_valid(1,2)] m f]
  have 1: "UNet_forward shape_sem m [2, 1, 16, 16] [2, 4] [2] = Inr ([2, 1, 16, 16], [2, 4])"
    by (simp add: cfg_scenario_def)
  from UNet_forward_shape[OF valid_runI[OF scenario_valid(1,3)] m f]
  have 2: "UNet_forward shape_sem m [2, 1, 32, 32] [2, 4] [2] = Inr ([2, 1, 32, 32], [2, 4])"
    by (simp add: cfg_scenario_def)
  from param_out_independent_of_image[of shape_sem m "[2, 1, 16, 16]" "[2, 4]" "[2]"
      "[2, 1, 16, 16]" "[2, 4]"] 1
  have "param_path shape_sem m [2, 4] [2] = Inr [2, 4]" by simp
  with m 1 2 show ?thesis by blast
qed

subsection \<open>C10: the group normalisation constrains the configuration\<close>

text \<open>
  C10. \<^verbatim>\<open>norm_layer\<close> always builds a group normalisation with 32 groups, and it is what
  every \<^verbatim>\<open>ResidualBlock\<close> (before both convolutions), \<^verbatim>\<open>AttentionBlock\<close> and
  \<^verbatim>\<open>CrossModalAttentionBlock\<close> and the image output head normalise with; hence, when the
  construction of a \<^verbatim>\<open>UNet\<close> or of a \<^verbatim>\<open>UNet_Energy\<close> succeeds, 32 divides \<^verbatim>\<open>model_channels\<close>
  and every product \<^verbatim>\<open>mult * model_channels\<close> for \<^verbatim>\<open>mult\<close> in \<^verbatim>\<open>channel_mult\<close>.
\<close>

theorem group_norm_constraint:
  "norm_layer c = nn_GroupNorm 32 c \<and>
   (ResidualBlock_init i out tc p = Inr rb \<longrightarrow>
      hd (conv1 rb) = GroupNorm 32 i \<and> hd (conv2 rb) = GroupNorm 32 out) \<and>
   (AttentionBlock_init ac nh = Inr ab \<longrightarrow> ab_norm ab = GroupNorm 32 ac) \<and>
   (CrossModalAttentionBlock_init xc pd xh = Inr cm \<longrightarrow> img_norm cm = GroupNorm 32 xc) \<and>
   (UNet_init cfg = Inr m \<longrightarrow>
      (\<exists>hc. hd (img_out m) = GroupNorm 32 hc) \<and>
      32 dvd model_channels cfg \<and> (\<forall>mult \<in> set (channel_mult cfg). 32 dvd mult * model_channels cfg)) \<and>
   (UNet_Energy_init ecfg = Inr em \<longrightarrow>
      32 dvd model_channels ecfg \<and> (\<forall>mult \<in> set (channel_mult ecfg). 32 dvd mult * model_channels ecfg))"
proof -
  have r: "hd (conv1 rb) = GroupNorm 32 i \<and> hd (conv2 rb) = GroupNorm 32 out"
    if "ResidualBlock_init i out tc p = Inr rb"
    using that by (simp add: ResidualBlock_init_eq_Inr)
  have a: "ab_norm ab = GroupNorm 32 ac" if "AttentionBlock_init ac nh = Inr ab"
    using that by (simp add: AttentionBlock_init_eq_Inr)
  have x: "img_norm cm = GroupNorm 32 xc" if "CrossModalAttentionBlock_init xc pd xh = Inr cm"
    using that by (simp add: CrossModalAttentionBlock_init_eq_Inr)
  have h: "\<exists>hc. hd (img_out m) = GroupNorm 32 hc" if "UNet_init cfg = Inr m"
    using that by (auto simp: UNet_init_def ebind_eq_Inr norm_layer_eq_Inr)
  have u: "32 dvd model_channels cfg" if "UNet_init cfg = Inr m"
    using that by (auto simp: UNet_init_def ebind_eq_Inr dest: encoder_middle_model_channels)
  have e: "32 dvd model_channels ecfg" if "UNet_Energy_init ecfg = Inr em"
    using that by (auto simp: UNet_Energy_init_def ebind_eq_Inr dest: encoder_middle_model_channels)
  from u e have d: "UNet_init cfg = Inr m \<longrightarrow>
      32 dvd model_channels cfg \<and> (\<forall>mult \<in> set (channel_mult cfg). 32 dvd mult * model_channels cfg)"
    "UNet_Energy_init ecfg = Inr em \<longrightarrow>
      32 dvd model_channels ecfg \<and> (\<forall>mult \<in> set (channel_mult ecfg). 32 dvd mult * model_channels ecfg)"
    by auto
  from r a x h d show ?thesis
    by (simp add: norm_layer_def)
qed

theorem group_norm_constraint_witness:
  "\<exists>rb ab cm m em. ResidualBlock_init 32 64 128 (1 / 10) = Inr rb \<and>
     AttentionBlock_init 64 2 = Inr ab \<and> CrossModalAttentionBlock_init 64 16 2 = Inr cm \<and>
     UNet_init cfg_scenario = Inr m \<and> UNet_Energy_init energy_scenario = Inr em \<and>
     hd (conv1 rb) = GroupNorm 32 32 \<and> hd (conv2 rb) = GroupNorm 32 64 \<and>
     ab_norm ab = GroupNorm 32 64 \<and> img_norm cm = GroupNorm 32 64 \<and>
     (\<exists>hc. hd (img_out m) = GroupNorm 32 hc) \<and>
     32 dvd model_channels cfg_scenario \<and> 32 dvd 2 * model_channels cfg_scenario \<and>
     32 dvd model_channels energy_scenario"
proof -
  obtain rb where rb: "ResidualBlock_init 32 64 128 (1 / 10) = Inr rb"
    by (simp add: ResidualBlock_init_eq_Inr)
  obtain ab where ab: "AttentionBlock_init 64 2 = Inr ab"
    by (simp add: AttentionBlock_init_eq_Inr)
  obtain cm where cm: "CrossModalAttentionBlock_init 64 16 2 = Inr cm"
    by (simp add: CrossModalAttentionBlock_init_eq_Inr)
  obtain m where m: "UNet_init cfg_scenario = Inr m"
    using isr_UNet_init_scenario by blast
  obtain em where em: "UNet_Energy_init energy_scenario = Inr em"
    using isr_UNet_Energy_init_scenario by blast
  note t = group_norm_constraint[of 32 32 64 128 "1 / 10" rb 64 2 ab 64 16 2 cm cfg_scenario m
      energy_scenario em]
  from t rb ab cm m em show ?thesis
    by (auto simp: cfg_scenario_def)
qed

end
